(* ===== verification/QC_Prelude.thy ===== *)
theory QC_Prelude
  imports Main "HOL-Library.Word" "HOL-Library.AList" "HOL-Library.Sublist"
    "HOL-Library.List_Lexorder" "HOL-Library.Char_ord"
begin

text \<open>
  Shared vocabulary of the Quantum Control development: the types every component uses
  (Go strings as byte lists, instants and durations in nanoseconds, Go maps as association
  lists), the collections the component proofs draw on, and generic facts on lists,
  options and maps.

  \<^item> A Go \<^verbatim>\<open>string\<close> is a sequence of bytes and an Isabelle \<open>char\<close> is a byte, so a string is a
    \<open>char list\<close> and \<^verbatim>\<open>len(s)\<close> is \<open>length s\<close>.
  \<^item> A \<^verbatim>\<open>time.Time\<close> is the number of nanoseconds since Go's zero time (year 1, UTC), so
    \<^verbatim>\<open>t.IsZero()\<close> is \<open>t = 0\<close>, \<^verbatim>\<open>t.After(u)\<close> is \<open>u < t\<close> and \<^verbatim>\<open>t.Add(d)\<close> is \<open>t + d\<close>. The code
    calls \<^verbatim>\<open>UTC()\<close> before it compares or prints, so no zone is kept.
  \<^item> A \<^verbatim>\<open>map[string]string\<close> is an association list with distinct keys; the order of the list
    stands for the iteration order the runtime happens to choose.
\<close>

named_theorems go_simps
  "rewrite rules for the modelled Go library functions"

named_theorems go_splits
  "case splits used when an operation is taken apart branch by branch"

type_synonym bytes = string
type_synonym gotime = int
type_synonym duration = int
type_synonym smap = "(string \<times> string) list"

definition nanosecond :: duration where "nanosecond = 1"
definition millisecond :: duration where "millisecond = 1000000"
definition second :: duration where "second = 1000000000"
definition minute :: duration where "minute = 60000000000"

lemmas duration_defs = nanosecond_def millisecond_def second_def minute_def

text \<open>The value of a byte.\<close>

abbreviation byte_of :: "char \<Rightarrow> nat" where
  "byte_of c \<equiv> of_char c"

lemma byte_of_less [simp]: "byte_of c < 256"
  using nat_of_char_less_256 [of c] by simp

lemma byte_of_eq_iff [simp]: "byte_of c = byte_of d \<longleftrightarrow> c = d"
  by simp

subsection \<open>Values of \<^verbatim>\<open>map[string]any\<close>\<close>

text \<open>A \<^verbatim>\<open>float64\<close> is kept as the shortest decimal text that denotes it; no arithmetic is done on floats.\<close>

datatype goval = GStr string | GBool bool | GInt int | GFloat string | GTime int | GNil
  | GList "goval list" | GMap "(string \<times> goval) list"

type_synonym anymap = "(string \<times> goval) list"

subsection \<open>Lists\<close>

lemma list_all_take: "list_all P xs \<Longrightarrow> list_all P (take n xs)"
  by (auto simp: list_all_iff dest: in_set_takeD)

lemma list_all_drop: "list_all P xs \<Longrightarrow> list_all P (drop n xs)"
  by (auto simp: list_all_iff dest: in_set_dropD)

text \<open>The first position at which a predicate holds, and its interplay with appending.\<close>

fun first_index :: "('a \<Rightarrow> bool) \<Rightarrow> 'a list \<Rightarrow> nat option" where
  "first_index P [] = None"
| "first_index P (x # xs) = (if P x then Some 0 else map_option Suc (first_index P xs))"

lemma first_index_Some:
  "first_index P xs = Some i \<Longrightarrow> i < length xs \<and> P (xs ! i) \<and> (\<forall>j < i. \<not> P (xs ! j))"
proof (induction xs arbitrary: i)
  case Nil
  then show ?case by simp
next
  case (Cons x xs)
  show ?case
  proof (cases "P x")
    case True
    with Cons.prems show ?thesis by simp
  next
    case False
    with Cons.prems obtain k where k: "first_index P xs = Some k" and i: "i = Suc k"
      by auto
    from Cons.IH [OF k] False show ?thesis
      by (auto simp: i nth_Cons split: nat.splits)
  qed
qed

lemma first_index_None: "first_index P xs = None \<longleftrightarrow> (\<forall>x \<in> set xs. \<not> P x)"
  by (induction xs) auto

lemma first_index_SomeI:
  "i < length xs \<Longrightarrow> P (xs ! i) \<Longrightarrow> (\<And>j. j < i \<Longrightarrow> \<not> P (xs ! j)) \<Longrightarrow> first_index P xs = Some i"
proof (induction xs arbitrary: i)
  case Nil
  then show ?case by simp
next
  case (Cons x xs)
  show ?case
  proof (cases i)
    case 0
    with Cons.prems show ?thesis by simp
  next
    case (Suc k)
    with Cons.prems(3) [of 0] have "\<not> P x" by simp
    moreover have "first_index P xs = Some k"
    proof (rule Cons.IH)
      show "k < length xs" using Cons.prems(1) Suc by simp
      show "P (xs ! k)" using Cons.prems(2) Suc by simp
      show "\<And>j. j < k \<Longrightarrow> \<not> P (xs ! j)" using Cons.prems(3) [of "Suc j" for j] Suc by simp
    qed
    ultimately show ?thesis using Suc by simp
  qed
qed

lemma first_index_append:
  "first_index P (xs @ ys) =
     (case first_index P xs of Some i \<Rightarrow> Some i
      | None \<Rightarrow> map_option ((+) (length xs)) (first_index P ys))"
  by (induction xs; cases "first_index P ys") (auto split: option.splits)

lemma first_index_map: "first_index P (map f xs) = first_index (P \<circ> f) xs"
  by (induction xs) auto

lemma first_index_cong:
  "length xs = length ys \<Longrightarrow> (\<And>i. i < length xs \<Longrightarrow> P (xs ! i) = Q (ys ! i)) \<Longrightarrow>
   first_index P xs = first_index Q ys"
proof (induction xs ys rule: list_induct2)
  case Nil
  then show ?case by simp
next
  case (Cons x xs y ys)
  from Cons.prems [of 0] have "P x = Q y" by simp
  moreover have "first_index P xs = first_index Q ys"
    by (rule Cons.IH) (use Cons.prems [of "Suc i" for i] in simp)
  ultimately show ?case by simp
qed

subsection \<open>Association lists as Go maps\<close>

definition smap_ok :: "smap \<Rightarrow> bool" where
  "smap_ok m \<longleftrightarrow> distinct (map fst m)"

lemma map_of_AList_update [simp]: "map_of (AList.update k v m) = (map_of m)(k \<mapsto> v)"
  by (simp add: update_conv')

end
