(* ===== verification/QC_Text.thy ===== *)
theory QC_Text
  imports QC_Prelude
begin

text \<open>
  The parts of Go's \<^verbatim>\<open>strings\<close>, \<^verbatim>\<open>encoding/hex\<close>, \<^verbatim>\<open>unicode/utf8\<close> and \<^verbatim>\<open>regexp\<close> packages the program
  relies on, over byte strings.

  \<^item> \<open>trimSpace\<close> strips the UTF-8 encodings of every Unicode white-space rune from both ends.
  \<^item> \<open>toLower\<close> and \<open>equalFold\<close> are exact on ASCII and on the three non-ASCII runes whose case
    image is ASCII (the Kelvin sign, the dotted capital I and the long s); other letters are
    left as they are. Every use in the program compares the result with ASCII text only, so
    the difference is not observable there.
  \<^item> \<open>utf8_size\<close> is Go's decoder: the length of the rune at the head, or 0 where the head is
    not the start of a well-formed encoding.
  \<^item> \<open>rx_match\<close> matches an anchored pattern given as a sequence of character classes with
    repetition bounds, the only shape of pattern the identity and unit policies use.
\<close>

subsection \<open>\<^verbatim>\<open>strings.TrimSpace\<close>\<close>

definition goSpaces :: "string list" where
  "goSpaces =
     [[CHR 0x09], [CHR 0x0A], [CHR 0x0B], [CHR 0x0C], [CHR 0x0D], [CHR 0x20],
      [CHR 0xC2, CHR 0x85], [CHR 0xC2, CHR 0xA0], [CHR 0xE1, CHR 0x9A, CHR 0x80],
      [CHR 0xE2, CHR 0x80, CHR 0x80], [CHR 0xE2, CHR 0x80, CHR 0x81], [CHR 0xE2, CHR 0x80, CHR 0x82],
      [CHR 0xE2, CHR 0x80, CHR 0x83], [CHR 0xE2, CHR 0x80, CHR 0x84], [CHR 0xE2, CHR 0x80, CHR 0x85],
      [CHR 0xE2, CHR 0x80, CHR 0x86], [CHR 0xE2, CHR 0x80, CHR 0x87], [CHR 0xE2, CHR 0x80, CHR 0x88],
      [CHR 0xE2, CHR 0x80, CHR 0x89], [CHR 0xE2, CHR 0x80, CHR 0x8A], [CHR 0xE2, CHR 0x80, CHR 0xA8],
      [CHR 0xE2, CHR 0x80, CHR 0xA9], [CHR 0xE2, CHR 0x80, CHR 0xAF], [CHR 0xE2, CHR 0x81, CHR 0x9F],
      [CHR 0xE3, CHR 0x80, CHR 0x80]]"

definition prefix_len :: "string list \<Rightarrow> string \<Rightarrow> nat" where
  "prefix_len ps s = (case find (\<lambda>p. prefix p s) ps of None \<Rightarrow> 0 | Some p \<Rightarrow> length p)"

fun stripL :: "string list \<Rightarrow> string \<Rightarrow> string" where
  "stripL ps [] = []"
| "stripL ps (c # cs) =
     (let k = prefix_len ps (c # cs) in if k = 0 then c # cs else stripL ps (drop (k - 1) cs))"

definition stripR :: "string list \<Rightarrow> string \<Rightarrow> string" where
  "stripR ps s = rev (stripL (map rev ps) (rev s))"

definition trimSpace :: "string \<Rightarrow> string" where
  "trimSpace s = stripR goSpaces (stripL goSpaces s)"

definition no_prefix :: "string list \<Rightarrow> string \<Rightarrow> bool" where
  "no_prefix ps s \<longleftrightarrow> (\<forall>p \<in> set ps. p \<noteq> [] \<longrightarrow> \<not> prefix p s)"

lemma prefix_len_0:
  assumes "[] \<notin> set ps"
  shows "prefix_len ps s = 0 \<longleftrightarrow> no_prefix ps s"
proof (cases "find (\<lambda>p. prefix p s) ps")
  case None
  then have "no_prefix ps s" by (auto simp: find_None_iff no_prefix_def)
  with None show ?thesis by (simp add: prefix_len_def)
next
  case (Some p)
  then obtain i where "i < length ps" "p = ps ! i" and pre: "prefix p s"
    by (auto simp: find_Some_iff)
  then have p: "p \<in> set ps" by simp
  with assms have "p \<noteq> []" by auto
  with p pre have "\<not> no_prefix ps s" by (auto simp: no_prefix_def)
  with \<open>p \<noteq> []\<close> show ?thesis by (simp add: prefix_len_def Some)
qed

lemma stripL_id: "[] \<notin> set ps \<Longrightarrow> no_prefix ps s \<Longrightarrow> stripL ps s = s"
  by (cases s) (simp_all add: prefix_len_0)

lemma stripL_no_prefix: "[] \<notin> set ps \<Longrightarrow> no_prefix ps (stripL ps s)"
proof (induction ps s rule: stripL.induct)
  case (1 ps)
  then show ?case by (simp add: no_prefix_def)
next
  case (2 ps c cs)
  then show ?case by (simp add: Let_def prefix_len_0)
qed

lemma stripL_suffix: "suffix (stripL ps s) s"
proof (induction ps s rule: stripL.induct)
  case (1 ps)
  then show ?case by simp
next
  case (2 ps c cs)
  show ?case
  proof (cases "prefix_len ps (c # cs) = 0")
    case False
    with 2 have "suffix (stripL ps (drop (prefix_len ps (c # cs) - 1) cs)) (drop (prefix_len ps (c # cs) - 1) cs)"
      by simp
    then have "suffix (stripL ps (drop (prefix_len ps (c # cs) - 1) cs)) cs"
      using suffix_drop suffix_order.trans by blast
    with False show ?thesis by (simp add: Let_def suffix_ConsI)
  qed simp
qed

lemma stripR_prefix: "prefix (stripR ps s) s"
proof -
  have "suffix (stripL (map rev ps) (rev s)) (rev s)" by (rule stripL_suffix)
  then show ?thesis by (simp add: stripR_def suffix_to_prefix)
qed

lemma no_prefix_mono: "no_prefix ps t \<Longrightarrow> prefix s t \<Longrightarrow> no_prefix ps s"
  unfolding no_prefix_def using prefix_order.trans by blast

lemma goSpaces_nonempty [simp]: "[] \<notin> set goSpaces" "[] \<notin> rev ` set goSpaces"
  by (simp_all add: goSpaces_def)

lemma trimSpace_idem [simp]: "trimSpace (trimSpace s) = trimSpace s"
proof -
  let ?t = "stripL goSpaces s"
  let ?u = "stripR goSpaces ?t"
  have "no_prefix goSpaces ?t" by (simp add: stripL_no_prefix)
  then have "no_prefix goSpaces ?u" by (rule no_prefix_mono) (rule stripR_prefix)
  then have l: "stripL goSpaces ?u = ?u" by (simp add: stripL_id)
  have "no_prefix (map rev goSpaces) (rev ?u)"
    by (simp add: stripR_def stripL_no_prefix)
  then have "stripR goSpaces ?u = ?u" by (simp add: stripR_def stripL_id)
  with l show ?thesis by (simp add: trimSpace_def)
qed

lemma trimSpace_Nil [simp]: "trimSpace [] = []"
  by (simp add: trimSpace_def stripR_def)

lemma length_trimSpace: "length (trimSpace s) \<le> length s"
proof -
  have "length (stripR goSpaces (stripL goSpaces s)) \<le> length (stripL goSpaces s)"
    by (rule prefix_length_le) (rule stripR_prefix)
  also have "\<dots> \<le> length s"
    by (rule suffix_length_le) (rule stripL_suffix)
  finally show ?thesis by (simp add: trimSpace_def)
qed

lemma set_trimSpace: "set (trimSpace s) \<subseteq> set s"
  using set_mono_prefix [OF stripR_prefix, of goSpaces "stripL goSpaces s"]
    set_mono_suffix [OF stripL_suffix, of goSpaces s]
  by (auto simp: trimSpace_def)

text \<open>Printable ASCII other than blank is never trimmed.\<close>

definition graphic :: "char \<Rightarrow> bool" where
  "graphic c \<longleftrightarrow> 0x20 < byte_of c \<and> byte_of c < 0x7F"

lemma goSpaces_heads: "p \<in> set goSpaces \<Longrightarrow> \<not> graphic (hd p) \<and> \<not> graphic (last p)"
  by (auto simp: goSpaces_def graphic_def)

lemma graphic_no_prefix:
  assumes "list_all graphic s"
  shows "no_prefix goSpaces s" and "no_prefix (map rev goSpaces) (rev s)"
proof -
  show "no_prefix goSpaces s"
    unfolding no_prefix_def
  proof (intro ballI impI notI)
    fix p assume p: "p \<in> set goSpaces" "p \<noteq> []" "prefix p s"
    then have "hd p \<in> set s" by (metis hd_in_set set_mono_prefix subsetD)
    with assms p(1) show False by (auto simp: list_all_iff dest: goSpaces_heads)
  qed
  show "no_prefix (map rev goSpaces) (rev s)"
    unfolding no_prefix_def
  proof (intro ballI impI notI)
    fix q assume q: "q \<in> set (map rev goSpaces)" "q \<noteq> []" "prefix q (rev s)"
    then obtain p where p: "p \<in> set goSpaces" "q = rev p" by auto
    then have "hd q = last p" using q(2) by (simp add: hd_rev)
    moreover have "hd q \<in> set s" using q by (metis hd_in_set set_mono_prefix set_rev subsetD)
    ultimately show False using assms p(1) by (auto simp: list_all_iff dest: goSpaces_heads)
  qed
qed

lemma trimSpace_graphic: "list_all graphic s \<Longrightarrow> trimSpace s = s"
  by (simp add: trimSpace_def stripR_def stripL_id graphic_no_prefix)

subsection \<open>\<^verbatim>\<open>strings.ToLower\<close> and \<^verbatim>\<open>strings.EqualFold\<close>\<close>

definition lower_byte :: "char \<Rightarrow> char" where
  "lower_byte c = (if 0x41 \<le> byte_of c \<and> byte_of c \<le> 0x5A then char_of (byte_of c + 0x20) else c)"

fun toLower :: "string \<Rightarrow> string" where
  "toLower [] = []"
| "toLower (c # cs) =
     (if take 3 (c # cs) = [CHR 0xE2, CHR 0x84, CHR 0xAA] then CHR ''k'' # toLower (drop 2 cs)
      else if take 2 (c # cs) = [CHR 0xC4, CHR 0xB0] then CHR ''i'' # toLower (drop 1 cs)
      else lower_byte c # toLower cs)"

fun foldRunes :: "string \<Rightarrow> string" where
  "foldRunes [] = []"
| "foldRunes (c # cs) =
     (if take 3 (c # cs) = [CHR 0xE2, CHR 0x84, CHR 0xAA] then CHR ''k'' # foldRunes (drop 2 cs)
      else if take 2 (c # cs) = [CHR 0xC5, CHR 0xBF] then CHR ''s'' # foldRunes (drop 1 cs)
      else lower_byte c # foldRunes cs)"

definition equalFold :: "string \<Rightarrow> string \<Rightarrow> bool" where
  "equalFold s t \<longleftrightarrow> foldRunes s = foldRunes t"

lemma equalFold_refl [simp]: "equalFold s s"
  by (simp add: equalFold_def)

lemma equalFold_sym: "equalFold s t \<Longrightarrow> equalFold t s"
  by (simp add: equalFold_def)

lemma equalFold_trans: "equalFold s t \<Longrightarrow> equalFold t u \<Longrightarrow> equalFold s u"
  by (simp add: equalFold_def)

definition ascii :: "char \<Rightarrow> bool" where
  "ascii c \<longleftrightarrow> byte_of c < 128"

lemma toLower_ascii: "list_all ascii s \<Longrightarrow> toLower s = map lower_byte s"
  by (induction s) (auto simp: ascii_def)

lemma foldRunes_ascii: "list_all ascii s \<Longrightarrow> foldRunes s = map lower_byte s"
  by (induction s) (auto simp: ascii_def)

lemma lower_byte_idem [simp]: "lower_byte (lower_byte c) = lower_byte c"
  by (auto simp: lower_byte_def)

subsection \<open>\<^verbatim>\<open>strings.Contains\<close> and \<^verbatim>\<open>strings.TrimPrefix\<close>\<close>

fun contains :: "string \<Rightarrow> string \<Rightarrow> bool" where
  "contains [] sub = (sub = [])"
| "contains (c # cs) sub = (prefix sub (c # cs) \<or> contains cs sub)"

definition trimPrefix :: "string \<Rightarrow> string \<Rightarrow> string" where
  "trimPrefix s p = (if prefix p s then drop (length p) s else s)"

lemma contains_iff: "contains s sub \<longleftrightarrow> (\<exists>a b. s = a @ sub @ b)"
proof (induction s)
  case Nil
  then show ?case by auto
next
  case (Cons c cs)
  show ?case
  proof
    assume "contains (c # cs) sub"
    then consider "prefix sub (c # cs)" | "contains cs sub" by auto
    then show "\<exists>a b. c # cs = a @ sub @ b"
    proof cases
      case 1
      then show ?thesis by (metis append_Nil prefixE)
    next
      case 2
      with Cons.IH obtain a b where "cs = a @ sub @ b" by auto
      then have "c # cs = (c # a) @ sub @ b" by simp
      then show ?thesis by blast
    qed
  next
    assume "\<exists>a b. c # cs = a @ sub @ b"
    then obtain a b where ab: "c # cs = a @ sub @ b" by blast
    show "contains (c # cs) sub"
    proof (cases a)
      case Nil
      with ab have "prefix sub (c # cs)" by (metis append_Nil prefixI)
      then show ?thesis by simp
    next
      case (Cons d ds)
      with ab have "cs = ds @ sub @ b" by simp
      then have "contains cs sub" using Cons.IH by blast
      then show ?thesis by simp
    qed
  qed
qed

subsection \<open>\<^verbatim>\<open>encoding/hex\<close>\<close>

definition hexdigit :: "nat \<Rightarrow> char" where
  "hexdigit n = ''0123456789abcdef'' ! n"

definition fromHex :: "char \<Rightarrow> nat option" where
  "fromHex c = (let n = byte_of c in
     if 0x30 \<le> n \<and> n \<le> 0x39 then Some (n - 0x30)
     else if 0x61 \<le> n \<and> n \<le> 0x66 then Some (n - 0x61 + 10)
     else if 0x41 \<le> n \<and> n \<le> 0x46 then Some (n - 0x41 + 10)
     else None)"

fun hexEncode :: "bytes \<Rightarrow> string" where
  "hexEncode [] = []"
| "hexEncode (c # cs) = hexdigit (byte_of c div 16) # hexdigit (byte_of c mod 16) # hexEncode cs"

fun hexDecode :: "string \<Rightarrow> bytes option" where
  "hexDecode [] = Some []"
| "hexDecode [c] = None"
| "hexDecode (a # b # r) =
     (case fromHex a of None \<Rightarrow> None
      | Some x \<Rightarrow> (case fromHex b of None \<Rightarrow> None
      | Some y \<Rightarrow> map_option ((#) (char_of (16 * x + y))) (hexDecode r)))"

lemma hexdigit_props:
  assumes "n < 16"
  shows "fromHex (hexdigit n) = Some n" and "graphic (hexdigit n)" and "ascii (hexdigit n)"
    and "lower_byte (hexdigit n) = hexdigit n"
proof -
  have "\<forall>n \<in> set [0..<16]. fromHex (hexdigit n) = Some n \<and> graphic (hexdigit n) \<and> ascii (hexdigit n)
      \<and> lower_byte (hexdigit n) = hexdigit n"
    by code_simp
  with assms show "fromHex (hexdigit n) = Some n" and "graphic (hexdigit n)" and "ascii (hexdigit n)"
    and "lower_byte (hexdigit n) = hexdigit n"
    by auto
qed

lemma byte_div_16 [simp]: "byte_of c div 16 < 16"
  using byte_of_less [of c] by (simp add: less_mult_imp_div_less)

lemma hexDecode_hexEncode [simp]: "hexDecode (hexEncode s) = Some s"
proof (induction s)
  case (Cons c cs)
  have "16 * (byte_of c div 16) + byte_of c mod 16 = byte_of c" by simp
  with Cons show ?case by (simp add: hexdigit_props)
qed simp

lemma length_hexEncode [simp]: "length (hexEncode s) = 2 * length s"
  by (induction s) auto

lemma hexEncode_graphic: "list_all graphic (hexEncode s)"
  by (induction s) (auto simp: hexdigit_props)

lemma hexEncode_ascii: "list_all ascii (hexEncode s)"
  by (induction s) (auto simp: hexdigit_props)

lemma map_lower_hexEncode [simp]: "map lower_byte (hexEncode s) = hexEncode s"
  by (induction s) (auto simp: hexdigit_props)

lemma toLower_hexEncode [simp]: "toLower (hexEncode s) = hexEncode s"
  by (simp add: toLower_ascii hexEncode_ascii)

lemma trimSpace_hexEncode [simp]: "trimSpace (hexEncode s) = hexEncode s"
  by (simp add: trimSpace_graphic hexEncode_graphic)

lemma hexEncode_inj [simp]: "hexEncode s = hexEncode t \<longleftrightarrow> s = t"
  by (metis hexDecode_hexEncode option.inject)

lemma hexEncode_Nil_iff [simp]: "hexEncode s = [] \<longleftrightarrow> s = []"
  by (cases s) auto

lemma hexDecode_length: "hexDecode s = Some t \<Longrightarrow> length s = 2 * length t"
  by (induction s arbitrary: t rule: hexDecode.induct) (auto split: option.splits)

text \<open>Decoding forgets only the case of the digits.\<close>

lemma hexdigit_char_of:
  assumes "n < 16"
  shows "hexdigit n = char_of (if n < 10 then 0x30 + n else 0x57 + n)"
proof -
  have "\<forall>n \<in> set [0..<16]. hexdigit n = char_of (if n < 10 then 0x30 + n else 0x57 + n)"
    by code_simp
  with assms show ?thesis by auto
qed

lemma fromHex_hexdigit:
  assumes "fromHex c = Some n"
  shows "n < 16" and "hexdigit n = lower_byte c"
proof -
  let ?b = "byte_of c"
  consider "0x30 \<le> ?b" "?b \<le> 0x39" "n = ?b - 0x30" | "0x61 \<le> ?b" "?b \<le> 0x66" "n = ?b - 0x61 + 10"
    | "0x41 \<le> ?b" "?b \<le> 0x46" "n = ?b - 0x41 + 10"
    using assms by (auto simp: fromHex_def Let_def split: if_splits)
  then have "n < 16 \<and> hexdigit n = lower_byte c"
  proof cases
    case 1
    then have "n < 10" and "0x30 + n = ?b" by auto
    with 1 show ?thesis by (simp add: hexdigit_char_of lower_byte_def)
  next
    case 2
    then have n: "n < 16" "\<not> n < 10" "0x57 + n = ?b" by auto
    from n have "hexdigit n = c" by (simp only: hexdigit_char_of if_False char_of_char)
    moreover from 2 have "lower_byte c = c" by (simp add: lower_byte_def)
    ultimately show ?thesis using n by simp
  next
    case 3
    then have n: "n < 16" "\<not> n < 10" "0x57 + n = ?b + 0x20" by auto
    from n have "hexdigit n = char_of (?b + 0x20)" by (simp only: hexdigit_char_of if_False)
    moreover from 3 have "lower_byte c = char_of (?b + 0x20)" by (simp add: lower_byte_def)
    ultimately show ?thesis using n by simp
  qed
  then show "n < 16" and "hexdigit n = lower_byte c" by simp_all
qed

lemma hexEncode_hexDecode: "hexDecode s = Some t \<Longrightarrow> hexEncode t = map lower_byte s"
proof (induction s arbitrary: t rule: hexDecode.induct)
  case (3 a b r)
  from "3.prems" obtain x y u where xy: "fromHex a = Some x" "fromHex b = Some y"
    and u: "hexDecode r = Some u" and t: "t = char_of (16 * x + y) # u"
    by (auto split: option.splits)
  from xy have "x < 16" "y < 16" and d: "hexdigit x = lower_byte a" "hexdigit y = lower_byte b"
    by (simp_all add: fromHex_hexdigit)
  then have "byte_of (char_of (16 * x + y) :: char) = 16 * x + y" by simp
  with \<open>y < 16\<close> d "3.IH" [OF xy u] show ?case by (simp add: t)
qed auto

text \<open>A lower-case hexadecimal digest is matched, up to case, by its own upper-casings only.\<close>

lemma foldRunes_hexEncode [simp]: "foldRunes (hexEncode s) = hexEncode s"
  by (simp add: foldRunes_ascii hexEncode_ascii)

lemma equalFold_hexEncode: "equalFold (hexEncode s) (hexEncode t) \<longleftrightarrow> s = t"
  by (simp add: equalFold_def)

subsection \<open>\<^verbatim>\<open>unicode/utf8\<close>\<close>

definition in_range :: "nat \<Rightarrow> nat \<Rightarrow> char \<Rightarrow> bool" where
  "in_range lo hi c \<longleftrightarrow> lo \<le> byte_of c \<and> byte_of c \<le> hi"

definition utf8_size :: "string \<Rightarrow> nat" where
  "utf8_size s = (case s of [] \<Rightarrow> 0 | c # cs \<Rightarrow>
     (let n = byte_of c;
          lo = (if n = 0xE0 then 0xA0 else if n = 0xF0 then 0x90 else 0x80);
          hi = (if n = 0xED then 0x9F else if n = 0xF4 then 0x8F else 0xBF)
      in if n < 0x80 then 1
         else if in_range 0xC2 0xDF c then
           (case cs of d # _ \<Rightarrow> if in_range lo hi d then 2 else 0 | [] \<Rightarrow> 0)
         else if in_range 0xE0 0xEF c then
           (case cs of d # e # _ \<Rightarrow> if in_range lo hi d \<and> in_range 0x80 0xBF e then 3 else 0 | _ \<Rightarrow> 0)
         else if in_range 0xF0 0xF4 c then
           (case cs of d # e # f # _ \<Rightarrow>
              if in_range lo hi d \<and> in_range 0x80 0xBF e \<and> in_range 0x80 0xBF f then 4 else 0
            | _ \<Rightarrow> 0)
         else 0))"

lemma utf8_size_le: "utf8_size s \<le> length s"
  by (simp add: utf8_size_def Let_def split: list.splits)

lemma utf8_shape_cases:
  obtains "s = []" | c where "s = [c]" | c d where "s = [c, d]" | c d e where "s = [c, d, e]"
    | c d e f r where "s = c # d # e # f # r"
  by (metis list.exhaust)

lemma utf8_size_append: "0 < utf8_size s \<Longrightarrow> utf8_size (s @ t) = utf8_size s"
  by (cases s rule: utf8_shape_cases) (simp_all add: utf8_size_def Let_def split: if_splits)

text \<open>What a JSON encode/decode round trip makes of a string: malformed bytes become U+FFFD.\<close>

definition replacement :: string where
  "replacement = [CHR 0xEF, CHR 0xBF, CHR 0xBD]"

fun toValidUtf8 :: "string \<Rightarrow> string" where
  "toValidUtf8 [] = []"
| "toValidUtf8 (c # cs) =
     (let k = utf8_size (c # cs) in
      if k = 0 then replacement @ toValidUtf8 cs
      else take k (c # cs) @ toValidUtf8 (drop (k - 1) cs))"

fun validUtf8 :: "string \<Rightarrow> bool" where
  "validUtf8 [] = True"
| "validUtf8 (c # cs) =
     (let k = utf8_size (c # cs) in k \<noteq> 0 \<and> validUtf8 (drop (k - 1) cs))"

lemma toValidUtf8_id: "validUtf8 s \<Longrightarrow> toValidUtf8 s = s"
proof (induction s rule: validUtf8.induct)
  case (2 c cs)
  let ?k = "utf8_size (c # cs)"
  from 2 have k: "?k \<noteq> 0" and ih: "toValidUtf8 (drop (?k - 1) cs) = drop (?k - 1) cs"
    by (simp_all add: Let_def)
  have "take ?k (c # cs) @ drop (?k - 1) cs = c # cs"
    using k by (metis append_take_drop_id drop_Cons')
  with k ih show ?case by (simp add: Let_def)
qed simp

lemma validUtf8_ascii: "list_all ascii s \<Longrightarrow> validUtf8 s"
  by (induction s) (auto simp: ascii_def utf8_size_def)

lemma hexEncode_validUtf8: "validUtf8 (hexEncode s)"
  by (simp add: validUtf8_ascii hexEncode_ascii)

lemma validUtf8_rune:
  assumes "utf8_size r = length r" "r \<noteq> []"
  shows "validUtf8 (r @ t) = validUtf8 t"
proof -
  from assms have k: "utf8_size (r @ t) = length r" by (simp add: utf8_size_append)
  obtain c cs where r: "r = c # cs" using assms(2) by (cases r) auto
  with k show ?thesis by (simp add: Let_def)
qed

lemma utf8_size_take: "utf8_size (take (utf8_size s) s) = utf8_size s"
  by (cases s rule: utf8_shape_cases) (simp_all add: utf8_size_def Let_def split: if_splits)

lemma validUtf8_toValidUtf8: "validUtf8 (toValidUtf8 s)"
proof (induction s rule: toValidUtf8.induct)
  case (2 c cs)
  let ?s = "c # cs"
  let ?k = "utf8_size ?s"
  show ?case
  proof (cases "?k = 0")
    case True
    moreover have "utf8_size replacement = length replacement" "replacement \<noteq> []"
      by (simp_all add: replacement_def utf8_size_def in_range_def)
    ultimately show ?thesis using 2 by (simp add: Let_def validUtf8_rune)
  next
    case False
    have "length (take ?k ?s) = ?k" using utf8_size_le [of ?s] by simp
    moreover from this False have "take ?k ?s \<noteq> []" by (metis list.size(3))
    ultimately have "validUtf8 (take ?k ?s @ toValidUtf8 (drop (?k - 1) cs))"
      using False 2 utf8_size_take [of ?s] by (subst validUtf8_rune) auto
    with False show ?thesis by (simp only: toValidUtf8.simps Let_def if_False)
  qed
qed simp

lemma toValidUtf8_idem [simp]: "toValidUtf8 (toValidUtf8 s) = toValidUtf8 s"
  by (simp add: toValidUtf8_id validUtf8_toValidUtf8)

subsection \<open>Anchored patterns\<close>

type_synonym rx = "((char \<Rightarrow> bool) \<times> nat \<times> nat) list"

fun rx_match :: "rx \<Rightarrow> string \<Rightarrow> bool" where
  "rx_match [] s = (s = [])"
| "rx_match ((p, lo, hi) # r) s =
     list_ex (\<lambda>k. k \<le> length s \<and> list_all p (take k s) \<and> rx_match r (drop k s)) [lo..<Suc hi]"

text \<open>An equivalent that tries only the splits whose first part matches, used for evaluation.\<close>

lemma takeWhile_prefix_iff: "k \<le> length s \<and> list_all p (take k s) \<longleftrightarrow> k \<le> length (takeWhile p s)"
proof (induction s arbitrary: k)
  case (Cons c s)
  then show ?case by (cases k) auto
qed simp

lemma rx_match_code [code]:
  "rx_match [] s = (s = [])"
  "rx_match ((p, lo, hi) # r) s =
     list_ex (\<lambda>k. rx_match r (drop k s)) [lo..<Suc (min hi (length (takeWhile p s)))]"
proof -
  let ?in = "\<lambda>k. lo \<le> k \<and> k \<le> hi" and ?rest = "\<lambda>k. rx_match r (drop k s)"
  have "rx_match ((p, lo, hi) # r) s \<longleftrightarrow> (\<exists>k. ?in k \<and> (k \<le> length s \<and> list_all p (take k s)) \<and> ?rest k)"
    by (simp only: rx_match.simps list_ex_iff set_upt atLeastLessThan_iff Bex_def less_Suc_eq_le conj_assoc)
  also have "\<dots> \<longleftrightarrow> (\<exists>k. ?in k \<and> k \<le> length (takeWhile p s) \<and> ?rest k)"
    by (simp only: takeWhile_prefix_iff)
  also have "\<dots> \<longleftrightarrow> list_ex ?rest [lo..<Suc (min hi (length (takeWhile p s)))]"
    by (simp only: list_ex_iff set_upt atLeastLessThan_iff Bex_def less_Suc_eq_le min.bounded_iff conj_assoc)
  finally show "rx_match ((p, lo, hi) # r) s = list_ex ?rest [lo..<Suc (min hi (length (takeWhile p s)))]" .
qed simp

lemma rx_match_chars: "rx_match r s \<Longrightarrow> c \<in> set s \<Longrightarrow> \<exists>p lo hi. (p, lo, hi) \<in> set r \<and> p c"
proof (induction r s rule: rx_match.induct)
  case (2 p lo hi r s)
  then obtain k where k: "k \<in> set [lo..<Suc hi]" "list_all p (take k s)" "rx_match r (drop k s)"
    by (auto simp: list_ex_iff)
  have "c \<in> set (take k s) \<or> c \<in> set (drop k s)"
    using "2.prems"(2) by (metis UnE append_take_drop_id set_append)
  then show ?case
  proof
    assume "c \<in> set (take k s)"
    with k(2) show ?thesis by (auto simp: list_all_iff)
  next
    assume "c \<in> set (drop k s)"
    with "2.IH" [OF k(1,3)] show ?thesis by auto
  qed
qed simp

lemma rx_match_length:
  "rx_match r s \<Longrightarrow> (\<Sum>(p, lo, hi) \<leftarrow> r. lo) \<le> length s \<and> length s \<le> (\<Sum>(p, lo, hi) \<leftarrow> r. hi)"
proof (induction r s rule: rx_match.induct)
  case (2 p lo hi r s)
  then obtain k where k: "k \<in> set [lo..<Suc hi]" "k \<le> length s" "rx_match r (drop k s)"
    by (auto simp: list_ex_iff)
  with "2.IH" [OF k(1,3)] show ?case by auto
qed simp

definition is_lower :: "char \<Rightarrow> bool" where "is_lower c \<longleftrightarrow> in_range 0x61 0x7A c"
definition is_upper :: "char \<Rightarrow> bool" where "is_upper c \<longleftrightarrow> in_range 0x41 0x5A c"
definition is_digit :: "char \<Rightarrow> bool" where "is_digit c \<longleftrightarrow> in_range 0x30 0x39 c"
definition is_alnum :: "char \<Rightarrow> bool" where "is_alnum c \<longleftrightarrow> is_lower c \<or> is_upper c \<or> is_digit c"

lemmas char_classes = is_lower_def is_upper_def is_digit_def is_alnum_def in_range_def

end
