(* ===== verification/QC_Sha256.thy ===== *)
theory QC_Sha256
  imports QC_Text
begin

text \<open>
  SHA-256 (\<^verbatim>\<open>crypto/sha256\<close>'s \<^verbatim>\<open>Sum256\<close>, FIPS 180-4) on byte strings, over 32-bit words. The
  function is defined in full, so no property of the development assumes anything of it;
  statements about digests say "equal inputs, or here are two inputs with one digest".
\<close>

unbundle bit_operations_syntax

type_synonym u32 = "32 word"

definition rotr :: "nat \<Rightarrow> u32 \<Rightarrow> u32" where
  "rotr n x = (drop_bit n x OR push_bit (32 - n) x)"

definition sha_ch :: "u32 \<Rightarrow> u32 \<Rightarrow> u32 \<Rightarrow> u32" where
  "sha_ch x y z = ((x AND y) XOR (NOT x AND z))"

definition sha_maj :: "u32 \<Rightarrow> u32 \<Rightarrow> u32 \<Rightarrow> u32" where
  "sha_maj x y z = ((x AND y) XOR (x AND z) XOR (y AND z))"

definition big_sigma0 :: "u32 \<Rightarrow> u32" where
  "big_sigma0 x = (rotr 2 x XOR rotr 13 x XOR rotr 22 x)"
definition big_sigma1 :: "u32 \<Rightarrow> u32" where
  "big_sigma1 x = (rotr 6 x XOR rotr 11 x XOR rotr 25 x)"
definition small_sigma0 :: "u32 \<Rightarrow> u32" where
  "small_sigma0 x = (rotr 7 x XOR rotr 18 x XOR drop_bit 3 x)"
definition small_sigma1 :: "u32 \<Rightarrow> u32" where
  "small_sigma1 x = (rotr 17 x XOR rotr 19 x XOR drop_bit 10 x)"

definition sha_k :: "u32 list" where
  "sha_k = map word_of_int
    [1116352408, 1899447441, 3049323471, 3921009573, 961987163, 1508970993,
     2453635748, 2870763221, 3624381080, 310598401, 607225278, 1426881987,
     1925078388, 2162078206, 2614888103, 3248222580, 3835390401, 4022224774,
     264347078, 604807628, 770255983, 1249150122, 1555081692, 1996064986,
     2554220882, 2821834349, 2952996808, 3210313671, 3336571891, 3584528711,
     113926993, 338241895, 666307205, 773529912, 1294757372, 1396182291,
     1695183700, 1986661051, 2177026350, 2456956037, 2730485921, 2820302411,
     3259730800, 3345764771, 3516065817, 3600352804, 4094571909, 275423344,
     430227734, 506948616, 659060556, 883997877, 958139571, 1322822218,
     1537002063, 1747873779, 1955562222, 2024104815, 2227730452, 2361852424,
     2428436474, 2756734187, 3204031479, 3329325298]"

definition sha_h0 :: "u32 list" where
  "sha_h0 = map word_of_int
    [1779033703, 3144134277, 1013904242, 2773480762, 1359893119, 2600822924,
     528734635, 1541459225]"

text \<open>
  Big-endian conversions. \<open>be_bytes k n\<close> is the low \<open>k\<close> bytes of \<open>n\<close>, so eight bytes hold the
  message length in bits modulo \<open>2 ^ 64\<close>, as in Go.
\<close>

fun be_bytes :: "nat \<Rightarrow> int \<Rightarrow> bytes" where
  "be_bytes 0 n = []"
| "be_bytes (Suc k) n = be_bytes k (n div 256) @ [char_of (n mod 256)]"

fun be_word :: "bytes \<Rightarrow> u32 \<Rightarrow> u32" where
  "be_word [] acc = acc"
| "be_word (c # cs) acc = be_word cs (256 * acc + word_of_int (of_char c))"

definition sha_pad :: "bytes \<Rightarrow> bytes" where
  "sha_pad m = m @ [CHR 0x80] @ replicate ((119 - length m mod 64) mod 64) (CHR 0x00)
     @ be_bytes 8 (8 * int (length m))"

fun chunks :: "nat \<Rightarrow> 'a list \<Rightarrow> 'a list list" where
  "chunks n [] = []"
| "chunks n (x # xs) = (if n = 0 then [] else take n (x # xs) # chunks n (drop (n - 1) xs))"

text \<open>The message schedule, most recent word first.\<close>

fun sha_extend :: "nat \<Rightarrow> u32 list \<Rightarrow> u32 list" where
  "sha_extend 0 ws = ws"
| "sha_extend (Suc n) ws =
     sha_extend n ((small_sigma1 (ws ! 1) + ws ! 6 + small_sigma0 (ws ! 14) + ws ! 15) # ws)"

definition sha_schedule :: "bytes \<Rightarrow> u32 list" where
  "sha_schedule block = rev (sha_extend 48 (rev (map (\<lambda>b. be_word b 0) (chunks 4 block))))"

fun sha_round :: "u32 list \<Rightarrow> u32 \<times> u32 \<Rightarrow> u32 list" where
  "sha_round [a, b, c, d, e, f, g, h] (k, w) =
     (let t1 = h + big_sigma1 e + sha_ch e f g + k + w;
          t2 = big_sigma0 a + sha_maj a b c
      in [t1 + t2, a, b, c, d + t1, e, f, g])"
| "sha_round st kw = st"

definition sha_compress :: "u32 list \<Rightarrow> bytes \<Rightarrow> u32 list" where
  "sha_compress st block =
     map2 (+) st (foldl sha_round st (zip sha_k (sha_schedule block)))"

definition sha256 :: "bytes \<Rightarrow> bytes" where
  "sha256 m = concat (map (\<lambda>w. be_bytes 4 (uint w)) (foldl sha_compress sha_h0 (chunks 64 (sha_pad m))))"

subsection \<open>The digest has 32 bytes\<close>

lemma length_be_bytes [simp]: "length (be_bytes k n) = k"
  by (induction k n rule: be_bytes.induct) auto

lemma length_sha_round [simp]: "length (sha_round st kw) = length st"
  by (cases "(st, kw)" rule: sha_round.cases) (auto simp: Let_def)

lemma length_foldl_round: "length (foldl sha_round st kws) = length st"
  by (induction kws arbitrary: st) auto

lemma length_sha_compress [simp]: "length (sha_compress st block) = length st"
  by (simp add: sha_compress_def length_foldl_round)

lemma length_foldl_compress: "length (foldl sha_compress st bs) = length st"
  by (induction bs arbitrary: st) auto

lemma length_concat_words: "length (concat (map (\<lambda>w. be_bytes 4 (uint w)) ws)) = 4 * length ws"
  by (induction ws) auto

lemma length_sha256 [simp]: "length (sha256 m) = 32"
  by (simp add: sha256_def length_concat_words length_foldl_compress sha_h0_def)

lemma sha256_nonempty [simp]: "sha256 m \<noteq> []"
  by (metis length_sha256 list.size(3) zero_neq_numeral)

text \<open>The padded message is a whole number of blocks.\<close>

lemma sha_pad_arith:
  assumes "(r::nat) < 64"
  shows "\<exists>j. r + 1 + (119 - r) mod 64 + 8 = 64 * j"
proof (cases "r \<le> 55")
  case True
  then obtain k where k: "55 = r + k" by (auto simp: le_iff_add)
  then have "119 - r = 64 + k" "k < 64" by simp_all
  then have "(119 - r) mod 64 = k" by simp
  with k have "r + 1 + (119 - r) mod 64 + 8 = 64 * 1" by simp
  then show ?thesis by blast
next
  case False
  then have "119 - r < 64" by simp
  then have "r + 1 + (119 - r) mod 64 + 8 = 64 * 2" using assms by simp
  then show ?thesis by blast
qed

lemma length_sha_pad: "64 dvd length (sha_pad m)"
proof -
  define q r where "q = length m div 64" and "r = length m mod 64"
  then have "r < 64" and len: "length m = 64 * q + r" by simp_all
  then obtain j where j: "r + 1 + (119 - r) mod 64 + 8 = 64 * j" using sha_pad_arith by blast
  have "length (sha_pad m) = 64 * q + (r + 1 + (119 - r) mod 64 + 8)"
    using len by (simp add: sha_pad_def r_def)
  also have "\<dots> = 64 * (q + j)" by (simp only: j distrib_left)
  finally show ?thesis by (simp only: dvd_triv_left)
qed

text \<open>A pair of distinct messages with the same digest.\<close>

definition sha_collision :: "bytes \<Rightarrow> bytes \<Rightarrow> bool" where
  "sha_collision x y \<longleftrightarrow> x \<noteq> y \<and> sha256 x = sha256 y"

definition sha256_hex :: "bytes \<Rightarrow> string" where
  "sha256_hex m = hexEncode (sha256 m)"

lemma length_sha256_hex [simp]: "length (sha256_hex m) = 64"
  by (simp add: sha256_hex_def)

text \<open>
  The test vector of FIPS 180-4 for the message of three bytes, evaluated by rewriting: the message schedule, and
  the state after 16, 32, 48 and 64 rounds.
\<close>

definition abc_schedule :: "u32 list" where
  "abc_schedule = map word_of_int
    [1633837952, 0, 0, 0, 0, 0, 0, 0, 0, 0, 0, 0, 0, 0, 0, 24, 1633837952, 983040, 2108187653, 1610613702,
     1050508152, 25426944, 316456923, 3806512014, 3357629466, 3073800610, 3854317833, 845560923, 2636160359,
     3968280267, 1881225380, 3552024379, 2482346367, 996719219, 2952069057, 4043988066, 176896406, 1924104970,
     2483675966, 610538786, 2672279444, 4037431130, 1042573945, 657669027, 206005234, 2215296807, 2049510749,
     106709978, 4215179723, 3430291419, 3118885940, 2845390439, 2226839261, 3256115900, 344409900, 2987358873,
     4015503821, 3957764664, 2682456414, 2025622859, 2755645205, 1720397816, 4004225740, 313650667]"

definition abc_state :: "nat \<Rightarrow> u32 list" where
  "abc_state n = map word_of_int
    (case n of
       0 \<Rightarrow> [1779033703, 3144134277, 1013904242, 2773480762, 1359893119, 2600822924, 528734635, 1541459225]
     | Suc 0 \<Rightarrow> [2969183118, 3227803614, 3643992854, 2274437520, 123276749, 194179596, 1952073950, 509051416]
     | Suc (Suc 0) \<Rightarrow> [1941126133, 3935906338, 2684750640, 909411017, 3126399250, 17410874, 2917635127, 1628611511]
     | Suc (Suc (Suc 0)) \<Rightarrow> [1098003085, 2706117808, 1923828625, 643991573, 4274981830, 3581645993, 3077922209, 2819559920]
     | _ \<Rightarrow> [1349398616, 3550093669, 80891244, 3093179625, 1593118500, 4212265488, 2492278198, 2518632596])"

lemma abc_schedule_ok: "chunks 64 (sha_pad ''abc'') = [sha_pad ''abc'']" "sha_schedule (sha_pad ''abc'') = abc_schedule"
  by code_simp+

lemma abc_rounds0: "foldl sha_round (abc_state 0) (zip (take 16 (drop 0 sha_k)) (take 16 (drop 0 abc_schedule))) = abc_state 1"
  by code_simp

lemma abc_rounds1: "foldl sha_round (abc_state 1) (zip (take 16 (drop 16 sha_k)) (take 16 (drop 16 abc_schedule))) = abc_state 2"
  by code_simp

lemma abc_rounds2: "foldl sha_round (abc_state 2) (zip (take 16 (drop 32 sha_k)) (take 16 (drop 32 abc_schedule))) = abc_state 3"
  by code_simp

lemma abc_rounds3: "foldl sha_round (abc_state 3) (zip (take 16 (drop 48 sha_k)) (take 16 (drop 48 abc_schedule))) = abc_state 4"
  by code_simp

lemma abc_zip:
  "zip sha_k abc_schedule =
     zip (take 16 (drop 0 sha_k)) (take 16 (drop 0 abc_schedule)) @
     zip (take 16 (drop 16 sha_k)) (take 16 (drop 16 abc_schedule)) @
     zip (take 16 (drop 32 sha_k)) (take 16 (drop 32 abc_schedule)) @
     zip (take 16 (drop 48 sha_k)) (take 16 (drop 48 abc_schedule))"
  by code_simp

lemma sha256_abc: "sha256_hex ''abc'' = ''ba7816bf8f01cfea414140de5dae2223b00361a396177a9cb410ff61f20015ad''"
proof -
  have h0: "sha_h0 = abc_state 0" by code_simp
  have "sha_compress sha_h0 (sha_pad ''abc'') = map2 (+) (abc_state 0) (abc_state 4)"
    unfolding sha_compress_def abc_schedule_ok abc_zip foldl_append h0 by (simp only: abc_rounds0 abc_rounds1 abc_rounds2 abc_rounds3)
  moreover have "hexEncode (concat (map (\<lambda>w. be_bytes 4 (uint w)) (map2 (+) (abc_state 0) (abc_state 4)))) =
      ''ba7816bf8f01cfea414140de5dae2223b00361a396177a9cb410ff61f20015ad''"
    by code_simp
  ultimately show ?thesis by (simp only: sha256_hex_def sha256_def abc_schedule_ok foldl.simps)
qed

lemma sha256_hex_eq: "sha256_hex x = sha256_hex y \<longleftrightarrow> x = y \<or> sha_collision x y"
  by (auto simp: sha256_hex_def sha_collision_def)

lemma sha256_hex_fold: "equalFold (sha256_hex x) (sha256_hex y) \<longleftrightarrow> x = y \<or> sha_collision x y"
  by (auto simp: sha256_hex_def sha_collision_def equalFold_hexEncode)

lemma sha256_hex_props [simp]:
  "trimSpace (sha256_hex m) = sha256_hex m" "toLower (sha256_hex m) = sha256_hex m"
  "hexDecode (sha256_hex m) = Some (sha256 m)" "sha256_hex m \<noteq> []" "foldRunes (sha256_hex m) = sha256_hex m"
  by (simp_all add: sha256_hex_def)

end
