(* ===== verification/QC_Actors.thy ===== *)
theory QC_Actors
  imports QC_Sha256
begin

text \<open>
  Actors, roles and bearer-token authentication: \<^verbatim>\<open>internal/security/types.go\<close> (the actor types)
  and \<^verbatim>\<open>internal/security/auth.go\<close>.

  Actor kinds, roles and permissions are Go string types, and values read from a registry or a
  request may hold any text, so they are strings here too. \<open>normalizeActor\<close> is the only place where
  permissions are derived; \<open>actor_ok\<close> is what it establishes and what \<open>loadActorRegistry\<close> and
  \<open>newStaticAuthenticator\<close> therefore guarantee of every identity an authenticator can return.
  The interface the two servers rely on is the locale \<open>actor_source\<close>.
\<close>

subsection \<open>Data\<close>

definition ActorSchema :: string where "ActorSchema = ''quantum.control/actors/v1alpha1''"

definition ActorHuman :: string where "ActorHuman = ''human''"
definition ActorService :: string where "ActorService = ''service''"
definition ActorTCI :: string where "ActorTCI = ''tci''"

definition PermissionControlRead :: string where "PermissionControlRead = ''control.read''"
definition PermissionInventoryRead :: string where "PermissionInventoryRead = ''inventory.read''"
definition PermissionOperationCatalog :: string where "PermissionOperationCatalog = ''operations.catalog.read''"
definition PermissionOperationPlan :: string where "PermissionOperationPlan = ''operations.plan''"
definition PermissionOperationExecute :: string where "PermissionOperationExecute = ''operations.execute.readonly''"
definition PermissionOperationMutate :: string where "PermissionOperationMutate = ''operations.execute.mutate''"
definition PermissionAuditRead :: string where "PermissionAuditRead = ''audit.read''"
definition PermissionConfirm :: string where "PermissionConfirm = ''operations.confirm''"
definition PermissionTCIPropose :: string where "PermissionTCIPropose = ''operations.propose''"

lemmas kind_defs = ActorHuman_def ActorService_def ActorTCI_def

lemmas permission_defs = PermissionControlRead_def PermissionInventoryRead_def
  PermissionOperationCatalog_def PermissionOperationPlan_def PermissionOperationExecute_def
  PermissionOperationMutate_def PermissionAuditRead_def PermissionConfirm_def PermissionTCIPropose_def

record actor =
  actor_id :: string
  kind :: string
  display_name :: string
  roles :: "string list"
  permissions :: "string list"

record actor_credential =
  cred_actor :: actor
  token_sha256 :: string

record actor_registry =
  reg_schema :: string
  reg_actors :: "actor_credential list"

text \<open>The zero value \<^verbatim>\<open>Actor{}\<close>.\<close>

definition no_actor :: actor where
  "no_actor = \<lparr>actor_id = [], kind = [], display_name = [], roles = [], permissions = []\<rparr>"

datatype actor_error =
    BadActorID | BadActorKind string | BadDisplayName | NoRoles | UnknownRole string
  | TCIElevatedRole string | TCIConfirmForbidden | TCIMutateForbidden
  | RegistryUnreadable | RegistryTooLarge | RegistryUndecodable | RegistrySchema string
  | RegistryEmpty | DuplicateActor string | BadTokenDigest string | RawTokenRequired

subsection \<open>Policy tables\<close>

text \<open>\<^verbatim>\<open>^[a-z][a-z0-9.-]{1,31}:[A-Za-z0-9][A-Za-z0-9_.@:-]{0,95}$\<close>\<close>

definition actorIDPattern :: rx where
  "actorIDPattern =
     [(is_lower, 1, 1),
      (\<lambda>c. is_lower c \<or> is_digit c \<or> c \<in> set ''.-'', 1, 31),
      (\<lambda>c. c = CHR '':'', 1, 1),
      (is_alnum, 1, 1),
      (\<lambda>c. is_alnum c \<or> c \<in> set ''_.@:-'', 0, 95)]"

definition rolePermissions :: "(string \<times> string list) list" where
  "rolePermissions =
     [(''reader'',
        [PermissionControlRead, PermissionInventoryRead, PermissionOperationCatalog]),
      (''operator'',
        [PermissionControlRead, PermissionInventoryRead, PermissionOperationCatalog,
         PermissionOperationPlan, PermissionOperationExecute]),
      (''mutator'',
        [PermissionControlRead, PermissionInventoryRead, PermissionOperationCatalog,
         PermissionOperationPlan, PermissionOperationExecute, PermissionOperationMutate]),
      (''auditor'',
        [PermissionControlRead, PermissionAuditRead]),
      (''approver'',
        [PermissionControlRead, PermissionInventoryRead, PermissionOperationCatalog,
         PermissionOperationPlan, PermissionOperationExecute, PermissionAuditRead, PermissionConfirm]),
      (''tci-proposer'',
        [PermissionControlRead, PermissionInventoryRead, PermissionOperationCatalog,
         PermissionOperationPlan, PermissionTCIPropose]),
      (''service'',
        [PermissionControlRead, PermissionInventoryRead, PermissionOperationCatalog,
         PermissionOperationPlan, PermissionOperationExecute, PermissionAuditRead])]"

subsection \<open>Helpers\<close>

definition hasPermission :: "actor \<Rightarrow> string \<Rightarrow> bool" where
  "hasPermission a p = list_ex (\<lambda>granted. granted = p) (permissions a)"

definition cloneActor :: "actor \<Rightarrow> actor" where
  "cloneActor a = a\<lparr>roles := [] @ roles a, permissions := [] @ permissions a\<rparr>"

definition decodeSHA256 :: "string \<Rightarrow> bytes option" where
  "decodeSHA256 value =
     (let v = trimSpace (toLower value) in if length v \<noteq> 64 then None else hexDecode v)"

definition allZero :: "bytes \<Rightarrow> bool" where
  "allZero data = list_all (\<lambda>c. byte_of c = 0) data"

text \<open>
  \<^verbatim>\<open>uniqueStrings\<close> compacts the slice in place: \<^verbatim>\<open>result\<close> shares its array with \<^verbatim>\<open>values\<close>, so each
  append overwrites position \<open>n\<close> of the array the loop is still reading. \<^verbatim>\<open>uniquePermissions\<close> runs
  the same loop after sorting.
\<close>

function uniqueLoop :: "nat \<Rightarrow> nat \<Rightarrow> 'a list \<Rightarrow> 'a list" where
  "uniqueLoop i n arr =
     (if i < length arr then
        (if i = 0 \<or> arr ! i \<noteq> arr ! (i - 1) then uniqueLoop (Suc i) (Suc n) (arr[n := arr ! i])
         else uniqueLoop (Suc i) n arr)
      else take n arr)"
  by pat_completeness auto
termination
  by (relation "measure (\<lambda>(i, n, arr). length arr - i)") auto

declare uniqueLoop.simps [simp del]

definition uniqueStrings :: "string list \<Rightarrow> string list" where
  "uniqueStrings values = (if values = [] then [] else uniqueLoop 0 0 values)"

definition uniquePermissions :: "string list \<Rightarrow> string list" where
  "uniquePermissions values = (let vs = sort values in if vs = [] then [] else uniqueLoop 0 0 vs)"

subsection \<open>\<^verbatim>\<open>normalizeActor\<close>\<close>

definition trimActor :: "actor \<Rightarrow> actor" where
  "trimActor a = a\<lparr>actor_id := trimSpace (actor_id a), display_name := trimSpace (display_name a)\<rparr>"

fun collectPermissions :: "string \<Rightarrow> string list \<Rightarrow> string list \<Rightarrow> actor_error + string list" where
  "collectPermissions k [] acc = Inr acc"
| "collectPermissions k (role # rest) acc =
     (case map_of rolePermissions role of
        None \<Rightarrow> Inl (UnknownRole role)
      | Some granted \<Rightarrow>
          if k = ActorTCI \<and> role \<noteq> ''tci-proposer'' \<and> role \<noteq> ''reader'' then Inl (TCIElevatedRole role)
          else collectPermissions k rest (acc @ granted))"

definition knownKind :: "string \<Rightarrow> bool" where
  "knownKind k \<longleftrightarrow> k \<in> set [ActorHuman, ActorService, ActorTCI]"

definition normalizeActor :: "actor \<Rightarrow> actor_error + actor" where
  "normalizeActor a0 =
     (let a = trimActor a0 in
      if \<not> rx_match actorIDPattern (actor_id a) then Inl BadActorID
      else if \<not> knownKind (kind a) then Inl (BadActorKind (kind a))
      else if display_name a = [] \<or> length (display_name a) > 160 then Inl BadDisplayName
      else if roles a = [] then Inl NoRoles
      else
        (let rs = uniqueStrings (sort (roles a)) in
         case collectPermissions (kind a) rs [] of
           Inl e \<Rightarrow> Inl e
         | Inr perms0 \<Rightarrow>
             (let perms = uniquePermissions perms0 in
              if kind a = ActorTCI \<and> hasPermission (no_actor\<lparr>permissions := perms\<rparr>) PermissionConfirm
                then Inl TCIConfirmForbidden
              else if kind a = ActorTCI \<and> hasPermission (no_actor\<lparr>permissions := perms\<rparr>) PermissionOperationMutate
                then Inl TCIMutateForbidden
              else Inr (a\<lparr>roles := rs, permissions := perms\<rparr>))))"

text \<open>\<^verbatim>\<open>_ = normalizeActor(&actor)\<close>: the error is dropped, the trimmed actor stays.\<close>

definition normalizeInPlace :: "actor \<Rightarrow> actor" where
  "normalizeInPlace a = (case normalizeActor a of Inl _ \<Rightarrow> trimActor a | Inr b \<Rightarrow> b)"

definition localReadOnlyActor :: actor where
  "localReadOnlyActor = normalizeInPlace
     \<lparr>actor_id = ''service:loopback-readonly'', kind = ActorService,
      display_name = ''Loopback read-only bootstrap'', roles = [''operator''], permissions = []\<rparr>"

definition legacyServiceActor :: actor where
  "legacyServiceActor = normalizeInPlace
     \<lparr>actor_id = ''service:legacy-api-token'', kind = ActorService,
      display_name = ''Legacy Quantum Control API token'', roles = [''service''], permissions = []\<rparr>"

subsection \<open>Authenticators\<close>

text \<open>
  \<^verbatim>\<open>Authenticator\<close> values: a registry (or a nil pointer to one) and a list of authenticators, some
  of which may be nil.
\<close>

datatype authenticator =
  RegistryAuthenticator "actor_credential list option" | MultiAuthenticator "authenticator option list"

fun registryLookup :: "bytes \<Rightarrow> actor_credential list \<Rightarrow> actor option" where
  "registryLookup provided [] = None"
| "registryLookup provided (c # cs) =
     (case decodeSHA256 (token_sha256 c) of
        None \<Rightarrow> registryLookup provided cs
      | Some expected \<Rightarrow>
          if provided = expected then Some (cloneActor (cred_actor c)) else registryLookup provided cs)"

fun authenticateBearer :: "authenticator \<Rightarrow> string \<Rightarrow> actor option"
  and authenticateFirst :: "authenticator option list \<Rightarrow> string \<Rightarrow> actor option" where
  "authenticateBearer (RegistryAuthenticator reg) token =
     (case reg of
        None \<Rightarrow> None
      | Some creds \<Rightarrow> if trimSpace token = [] then None else registryLookup (sha256 token) creds)"
| "authenticateBearer (MultiAuthenticator ms) token = authenticateFirst ms token"
| "authenticateFirst [] token = None"
| "authenticateFirst (None # ms) token = authenticateFirst ms token"
| "authenticateFirst (Some m # ms) token =
     (case authenticateBearer m token of Some a \<Rightarrow> Some a | None \<Rightarrow> authenticateFirst ms token)"

text \<open>
  A file the program reads: missing, unreadable, or contents with their size and what the strict
  JSON decoder makes of them (\<open>None\<close> where it reports an error).
\<close>

datatype 'a disk_file = FileMissing | FileUnreadable | FileContents nat "'a option"

fun normalizeCredentials :: "string list \<Rightarrow> actor_credential list \<Rightarrow> actor_error + actor_credential list" where
  "normalizeCredentials seen [] = Inr []"
| "normalizeCredentials seen (c # cs) =
     (case normalizeActor (cred_actor c) of
        Inl e \<Rightarrow> Inl e
      | Inr a \<Rightarrow>
          if actor_id a \<in> set seen then Inl (DuplicateActor (actor_id a))
          else (case decodeSHA256 (token_sha256 c) of
             None \<Rightarrow> Inl (BadTokenDigest (actor_id a))
           | Some digest \<Rightarrow>
               if allZero digest then Inl (BadTokenDigest (actor_id a))
               else (case normalizeCredentials (actor_id a # seen) cs of
                  Inl e \<Rightarrow> Inl e
                | Inr rest \<Rightarrow> Inr (\<lparr>cred_actor = a, token_sha256 = hexEncode digest\<rparr> # rest))))"

definition loadActorRegistry :: "actor_registry disk_file \<Rightarrow> actor_error + authenticator" where
  "loadActorRegistry f =
     (case f of
        FileMissing \<Rightarrow> Inl RegistryUnreadable
      | FileUnreadable \<Rightarrow> Inl RegistryUnreadable
      | FileContents len doc \<Rightarrow>
          if len > 1048576 then Inl RegistryTooLarge
          else (case doc of
             None \<Rightarrow> Inl RegistryUndecodable
           | Some reg \<Rightarrow>
               if reg_schema reg \<noteq> ActorSchema then Inl (RegistrySchema (reg_schema reg))
               else if reg_actors reg = [] then Inl RegistryEmpty
               else (case normalizeCredentials [] (reg_actors reg) of
                  Inl e \<Rightarrow> Inl e
                | Inr creds \<Rightarrow> Inr (RegistryAuthenticator (Some creds)))))"

definition newStaticAuthenticator :: "actor \<Rightarrow> string \<Rightarrow> actor_error + authenticator" where
  "newStaticAuthenticator a rawToken =
     (if trimSpace rawToken = [] then Inl RawTokenRequired
      else (case normalizeActor a of
         Inl e \<Rightarrow> Inl e
       | Inr b \<Rightarrow> Inr (RegistryAuthenticator (Some [\<lparr>cred_actor = b, token_sha256 = hexEncode (sha256 rawToken)\<rparr>]))))"

subsection \<open>The in-place compaction removes adjacent duplicates\<close>

lemma remdups_adj_take_Suc:
  assumes "i < length xs"
  shows "remdups_adj (take (Suc i) xs) =
    remdups_adj (take i xs) @ (if i = 0 \<or> xs ! i \<noteq> xs ! (i - 1) then [xs ! i] else [])"
proof (cases i)
  case 0
  with assms show ?thesis by (cases xs) auto
next
  case (Suc j)
  with assms have t: "take (Suc i) xs = take j xs @ [xs ! j, xs ! i]" "take i xs = take j xs @ [xs ! j]"
    by (simp_all add: take_Suc_conv_app_nth)
  then show ?thesis unfolding t by (simp add: Suc remdups_adj_append_two)
qed

lemma uniqueLoop_remdups_adj:
  assumes "length arr = length xs" "i \<le> length xs" "n = length (remdups_adj (take i xs))"
    and "take n arr = remdups_adj (take i xs)"
    and "\<And>j. i \<le> j \<Longrightarrow> j < length xs \<Longrightarrow> arr ! j = xs ! j"
    and "0 < i \<Longrightarrow> arr ! (i - 1) = xs ! (i - 1)"
  shows "uniqueLoop i n arr = remdups_adj xs"
  using assms
proof (induction i n arr rule: uniqueLoop.induct)
  case (1 i n arr)
  note len = "1.prems"(1) and n = "1.prems"(3) and written = "1.prems"(4) and ahead = "1.prems"(5) and prev = "1.prems"(6)
  have ni: "n \<le> i" using n remdups_adj_length [of "take i xs"] by simp
  show ?case
  proof (cases "i < length xs")
    case False
    with "1.prems" show ?thesis by (subst uniqueLoop.simps) simp
  next
    case i: True
    with len ahead have ai: "i < length arr" "arr ! i = xs ! i" by simp_all
    have keep: "(i = 0 \<or> arr ! i \<noteq> arr ! (i - 1)) = (i = 0 \<or> xs ! i \<noteq> xs ! (i - 1))"
      using ai prev by auto
    note rec = remdups_adj_take_Suc [OF i]
    show ?thesis
    proof (cases "i = 0 \<or> arr ! i \<noteq> arr ! (i - 1)")
      case True
      have "uniqueLoop (Suc i) (Suc n) (arr[n := arr ! i]) = remdups_adj xs"
      proof (rule "1.IH"(1) [OF ai(1) True])
        show "take (Suc n) (arr[n := arr ! i]) = remdups_adj (take (Suc i) xs)"
          using written ai ni rec keep True len i
          by (simp add: take_Suc_conv_app_nth)
        show "Suc n = length (remdups_adj (take (Suc i) xs))"
          using rec keep True n by simp
      qed (use len i ni ahead ai in \<open>auto simp: nth_list_update\<close>)
      with ai True show ?thesis by (simp add: uniqueLoop.simps [of i n arr])
    next
      case False
      have "uniqueLoop (Suc i) n arr = remdups_adj xs"
        by (rule "1.IH"(2) [OF ai(1) False]) (use len i ahead ai rec keep False n written in auto)
      with ai False show ?thesis by (simp add: uniqueLoop.simps [of i n arr])
    qed
  qed
qed

lemma uniqueStrings_eq: "uniqueStrings xs = remdups_adj xs"
  by (cases "xs = []") (simp_all add: uniqueStrings_def uniqueLoop_remdups_adj)

lemma uniquePermissions_eq: "uniquePermissions xs = remdups_adj (sort xs)"
  by (cases "sort xs = []") (simp_all add: uniquePermissions_def Let_def uniqueLoop_remdups_adj)

lemma distinct_remdups_adj_sorted: "sorted xs \<Longrightarrow> distinct (remdups_adj xs)"
  by (induction xs rule: remdups_adj.induct) (auto simp: order.antisym)

lemma sorted_unique:
  "sorted (remdups_adj (sort xs))" "distinct (remdups_adj (sort xs))" "set (remdups_adj (sort xs)) = set xs"
  by (simp_all add: distinct_remdups_adj_sorted)

lemma unique_of_sorted_distinct: "sorted xs \<Longrightarrow> distinct xs \<Longrightarrow> remdups_adj (sort xs) = xs"
  by (simp add: remdups_adj_distinct sorted_sort_id)

lemma sort_eq_Nil_iff [simp]: "sort xs = [] \<longleftrightarrow> xs = []"
  by (metis length_0_conv length_sort)

subsection \<open>What normalisation establishes\<close>

text \<open>The permissions a list of roles stands for.\<close>

definition role_grants :: "string list \<Rightarrow> string list" where
  "role_grants rs = concat (map (\<lambda>r. case map_of rolePermissions r of None \<Rightarrow> [] | Some g \<Rightarrow> g) rs)"

definition role_allowed :: "string \<Rightarrow> string \<Rightarrow> bool" where
  "role_allowed k r \<longleftrightarrow> r \<in> fst ` set rolePermissions \<and> (k = ActorTCI \<longrightarrow> r = ''tci-proposer'' \<or> r = ''reader'')"

definition actor_ok :: "actor \<Rightarrow> bool" where
  "actor_ok a \<longleftrightarrow>
     rx_match actorIDPattern (actor_id a) \<and> knownKind (kind a) \<and>
     display_name a \<noteq> [] \<and> length (display_name a) \<le> 160 \<and>
     trimSpace (actor_id a) = actor_id a \<and> trimSpace (display_name a) = display_name a \<and>
     roles a \<noteq> [] \<and> sorted (roles a) \<and> distinct (roles a) \<and> (\<forall>r \<in> set (roles a). role_allowed (kind a) r) \<and>
     permissions a = uniquePermissions (role_grants (roles a))"

lemma collectPermissions_Inr:
  "collectPermissions k rs acc = Inr ps \<longleftrightarrow> (\<forall>r \<in> set rs. role_allowed k r) \<and> ps = acc @ role_grants rs"
proof (induction rs arbitrary: acc)
  case Nil
  then show ?case by (auto simp: role_grants_def)
next
  case (Cons r rs)
  show ?case
  proof (cases "map_of rolePermissions r")
    case None
    then have "\<not> role_allowed k r" by (simp add: role_allowed_def map_of_eq_None_iff)
    with None show ?thesis by simp
  next
    case (Some g)
    then have "r \<in> fst ` set rolePermissions" by (metis domI dom_map_of_conv_image_fst)
    with Some Cons show ?thesis by (auto simp: role_allowed_def role_grants_def)
  qed
qed

lemma hasPermission_iff [simp]: "hasPermission a p \<longleftrightarrow> p \<in> set (permissions a)"
  by (auto simp: hasPermission_def list_ex_iff)

lemma cloneActor_id [simp]: "cloneActor a = a"
  by (simp add: cloneActor_def)

lemma set_uniquePermissions [simp]: "set (uniquePermissions ps) = set ps"
  by (simp add: uniquePermissions_eq)

lemma role_grants_set: "p \<in> set (role_grants rs) \<longleftrightarrow> (\<exists>r \<in> set rs. \<exists>g. map_of rolePermissions r = Some g \<and> p \<in> set g)"
  by (force simp: role_grants_def split: option.splits)

lemma tci_role_grants:
  assumes "\<forall>r \<in> set rs. role_allowed ActorTCI r" "p \<in> set (role_grants rs)"
  shows "p \<in> {PermissionControlRead, PermissionInventoryRead, PermissionOperationCatalog,
    PermissionOperationPlan, PermissionTCIPropose}"
proof -
  from assms(2) obtain r g where r: "r \<in> set rs" "map_of rolePermissions r = Some g" "p \<in> set g"
    by (auto simp: role_grants_set)
  with assms(1) have "r = ''tci-proposer'' \<or> r = ''reader''" by (auto simp: role_allowed_def)
  with r(2,3) show ?thesis by (auto simp: rolePermissions_def)
qed

lemma tci_no_authority:
  assumes "\<forall>r \<in> set rs. role_allowed ActorTCI r"
  shows "PermissionConfirm \<notin> set (role_grants rs)" "PermissionOperationMutate \<notin> set (role_grants rs)"
  using tci_role_grants [OF assms] by (auto simp: permission_defs)

lemma trimActor_sel [simp]:
  "kind (trimActor a) = kind a" "roles (trimActor a) = roles a" "permissions (trimActor a) = permissions a"
  "actor_id (trimActor a) = trimSpace (actor_id a)" "display_name (trimActor a) = trimSpace (display_name a)"
  by (simp_all add: trimActor_def)

text \<open>
  The two closing checks on TCI permissions can never fire: the role check has already excluded
  every role that carries them.
\<close>

lemma collected_no_authority:
  "collectPermissions k rs [] = Inr ps \<Longrightarrow> k = ActorTCI \<Longrightarrow>
    PermissionConfirm \<notin> set ps \<and> PermissionOperationMutate \<notin> set ps"
  using tci_no_authority [of rs] by (auto simp: collectPermissions_Inr)

lemma normalizeActor_eq:
  "normalizeActor a =
     (if \<not> rx_match actorIDPattern (trimSpace (actor_id a)) then Inl BadActorID
      else if \<not> knownKind (kind a) then Inl (BadActorKind (kind a))
      else if trimSpace (display_name a) = [] \<or> length (trimSpace (display_name a)) > 160 then Inl BadDisplayName
      else if roles a = [] then Inl NoRoles
      else (case collectPermissions (kind a) (remdups_adj (sort (roles a))) [] of
         Inl e \<Rightarrow> Inl e
       | Inr ps \<Rightarrow> Inr ((trimActor a)\<lparr>roles := remdups_adj (sort (roles a)), permissions := uniquePermissions ps\<rparr>)))"
proof (cases "collectPermissions (kind a) (remdups_adj (sort (roles a))) []")
  case (Inl e)
  then show ?thesis by (simp add: normalizeActor_def Let_def uniqueStrings_eq)
next
  case (Inr ps)
  from collected_no_authority [OF this]
  have "(kind a = ActorTCI \<and> PermissionConfirm \<in> set ps) = False"
    "(kind a = ActorTCI \<and> PermissionOperationMutate \<in> set ps) = False" by auto
  with Inr show ?thesis by (auto simp: normalizeActor_def Let_def uniqueStrings_eq)
qed

lemma normalizeActor_Inr:
  "normalizeActor a = Inr b \<longleftrightarrow>
     rx_match actorIDPattern (trimSpace (actor_id a)) \<and> knownKind (kind a) \<and>
     trimSpace (display_name a) \<noteq> [] \<and> length (trimSpace (display_name a)) \<le> 160 \<and> roles a \<noteq> [] \<and>
     (\<forall>r \<in> set (roles a). role_allowed (kind a) r) \<and>
     b = (trimActor a)\<lparr>roles := remdups_adj (sort (roles a)),
           permissions := uniquePermissions (role_grants (remdups_adj (sort (roles a))))\<rparr>"
proof -
  let ?rs = "remdups_adj (sort (roles a))"
  have c: "(case collectPermissions (kind a) ?rs [] of Inl e \<Rightarrow> Inl e | Inr ps \<Rightarrow> Inr (f ps)) = Inr b \<longleftrightarrow>
      (\<forall>r \<in> set (roles a). role_allowed (kind a) r) \<and> b = f (role_grants ?rs)" for f
  proof (cases "collectPermissions (kind a) ?rs []")
    case (Inl e)
    with collectPermissions_Inr [of "kind a" ?rs "[]" "role_grants ?rs"] show ?thesis by simp
  next
    case (Inr ps)
    with collectPermissions_Inr [of "kind a" ?rs "[]" ps] show ?thesis by auto
  qed
  show ?thesis unfolding normalizeActor_eq
    by (cases "rx_match actorIDPattern (trimSpace (actor_id a))"; cases "roles a = []") (simp_all add: c not_le)
qed

lemma normalizeActor_ok: "normalizeActor a = Inr b \<Longrightarrow> actor_ok b"
  unfolding normalizeActor_Inr actor_ok_def by (elim conjE) (simp add: sorted_unique)

lemma actor_ok_normal: "actor_ok a \<Longrightarrow> normalizeActor a = Inr a"
  unfolding normalizeActor_Inr actor_ok_def
  by (elim conjE) (simp add: unique_of_sorted_distinct trimActor_def)


lemma normalizeActor_tci_checks:
  "normalizeActor a \<noteq> Inl TCIConfirmForbidden" "normalizeActor a \<noteq> Inl TCIMutateForbidden"
proof -
  have "collectPermissions k rs acc \<noteq> Inl TCIConfirmForbidden \<and> collectPermissions k rs acc \<noteq> Inl TCIMutateForbidden"
    for k rs acc
    by (induction rs arbitrary: acc) (simp_all split: option.splits)
  then show "normalizeActor a \<noteq> Inl TCIConfirmForbidden" "normalizeActor a \<noteq> Inl TCIMutateForbidden"
    unfolding normalizeActor_eq by (auto split: sum.splits)
qed

lemma actor_ok_perm:
  "actor_ok a \<Longrightarrow> p \<in> set (permissions a) \<longleftrightarrow>
     (\<exists>r \<in> set (roles a). \<exists>g. map_of rolePermissions r = Some g \<and> p \<in> set g)"
  by (simp add: actor_ok_def role_grants_set)

lemma actor_ok_tci:
  assumes "actor_ok a" "kind a = ActorTCI"
  shows "set (permissions a) \<subseteq> {PermissionControlRead, PermissionInventoryRead, PermissionOperationCatalog,
    PermissionOperationPlan, PermissionTCIPropose}"
  using assms tci_role_grants [of "roles a"] by (auto simp: actor_ok_def)

lemma actor_ok_confirm: "actor_ok a \<Longrightarrow> PermissionConfirm \<in> set (permissions a) \<Longrightarrow> ''approver'' \<in> set (roles a)"
  by (auto simp: actor_ok_perm rolePermissions_def permission_defs split: if_splits)

lemma actor_ok_mutate: "actor_ok a \<Longrightarrow> PermissionOperationMutate \<in> set (permissions a) \<Longrightarrow> ''mutator'' \<in> set (roles a)"
  by (auto simp: actor_ok_perm rolePermissions_def permission_defs split: if_splits)

subsection \<open>What a loaded registry guarantees\<close>

definition cred_ok :: "actor_credential \<Rightarrow> bool" where
  "cred_ok c \<longleftrightarrow> actor_ok (cred_actor c) \<and>
     (case hexDecode (token_sha256 c) of
        None \<Rightarrow> False
      | Some d \<Rightarrow> length d = 32 \<and> token_sha256 c = hexEncode d)"

definition creds_ok :: "actor_credential list \<Rightarrow> bool" where
  "creds_ok cs \<longleftrightarrow> list_all cred_ok cs \<and> distinct (map (actor_id \<circ> cred_actor) cs) \<and>
     (\<forall>c \<in> set cs. token_sha256 c \<noteq> replicate 64 (CHR ''0''))"

lemma decodeSHA256_Some:
  "decodeSHA256 v = Some d \<Longrightarrow> length d = 32 \<and> hexEncode d = map lower_byte (trimSpace (toLower v))"
  using hexDecode_length [of "trimSpace (toLower v)" d] hexEncode_hexDecode [of "trimSpace (toLower v)" d]
  by (simp add: decodeSHA256_def Let_def split: if_splits)

lemma decodeSHA256_hexEncode [simp]: "decodeSHA256 (hexEncode d) = (if length d = 32 then Some d else None)"
  by (simp add: decodeSHA256_def Let_def)

lemma cred_ok_I: "actor_ok a \<Longrightarrow> length d = 32 \<Longrightarrow> cred_ok \<lparr>cred_actor = a, token_sha256 = hexEncode d\<rparr>"
  by (simp add: cred_ok_def)

lemma cred_ok_decode: "cred_ok c \<Longrightarrow> \<exists>d. decodeSHA256 (token_sha256 c) = Some d \<and> token_sha256 c = hexEncode d"
  by (auto simp: cred_ok_def split: option.splits)

lemma allZero_replicate: "allZero d \<longleftrightarrow> d = replicate (length d) (CHR 0x00)"
proof -
  have "byte_of c = 0 \<longleftrightarrow> c = CHR 0x00" for c :: char
    using byte_of_eq_iff [of c "CHR 0x00"] by simp
  then show ?thesis by (simp add: allZero_def list_eq_iff_nth_eq list_all_length)
qed

lemma hexEncode_replicate_0: "hexEncode (replicate n (CHR 0x00)) = replicate (2 * n) (CHR ''0'')"
  by (induction n) (simp_all add: hexdigit_def)

lemma hexEncode_zero:
  assumes "length d = 32" "\<not> allZero d"
  shows "hexEncode d \<noteq> replicate 64 (CHR ''0'')"
proof
  assume "hexEncode d = replicate 64 (CHR ''0'')"
  then have "hexEncode d = hexEncode (replicate 32 (CHR 0x00))" by (simp only: hexEncode_replicate_0) simp
  with assms show False by (simp add: allZero_replicate)
qed

lemma normalizeCredentials_ok:
  "normalizeCredentials seen cs = Inr rs \<Longrightarrow>
     creds_ok rs \<and> set (map (actor_id \<circ> cred_actor) rs) \<inter> set seen = {} \<and> length rs = length cs"
proof (induction seen cs arbitrary: rs rule: normalizeCredentials.induct)
  case (1 seen)
  then show ?case by (simp add: creds_ok_def)
next
  case (2 seen c cs)
  from "2.prems" obtain a d rest where
    a: "normalizeActor (cred_actor c) = Inr a" "actor_id a \<notin> set seen"
    and d: "decodeSHA256 (token_sha256 c) = Some d" "\<not> allZero d"
    and rest: "normalizeCredentials (actor_id a # seen) cs = Inr rest"
    and rs: "rs = \<lparr>cred_actor = a, token_sha256 = hexEncode d\<rparr> # rest"
    by (auto split: sum.splits option.splits if_splits)
  have "cred_ok \<lparr>cred_actor = a, token_sha256 = hexEncode d\<rparr>"
    by (rule cred_ok_I) (use normalizeActor_ok [OF a(1)] decodeSHA256_Some [OF d(1)] in auto)
  moreover have "hexEncode d \<noteq> replicate 64 (CHR ''0'')"
    using decodeSHA256_Some [OF d(1)] d(2) hexEncode_zero by blast
  ultimately show ?case using "2.IH" [OF a d rest] a(2) by (auto simp: rs creds_ok_def)
qed

fun authenticator_ok :: "authenticator \<Rightarrow> bool" where
  "authenticator_ok (RegistryAuthenticator None) = True"
| "authenticator_ok (RegistryAuthenticator (Some cs)) = list_all cred_ok cs"
| "authenticator_ok (MultiAuthenticator ms) = list_all (\<lambda>m. case m of None \<Rightarrow> True | Some x \<Rightarrow> authenticator_ok x) ms"

lemma loadActorRegistry_Inr:
  "loadActorRegistry f = Inr auth \<longleftrightarrow>
     (\<exists>len reg creds. f = FileContents len (Some reg) \<and> len \<le> 1048576 \<and> reg_schema reg = ActorSchema \<and>
        reg_actors reg \<noteq> [] \<and> normalizeCredentials [] (reg_actors reg) = Inr creds \<and>
        auth = RegistryAuthenticator (Some creds))"
  by (auto simp: loadActorRegistry_def not_less split: disk_file.splits option.splits sum.splits)

lemma newStatic_ok:
  assumes "newStaticAuthenticator a raw = Inr auth"
  obtains b where "normalizeActor a = Inr b" "trimSpace raw \<noteq> []"
    "auth = RegistryAuthenticator (Some [\<lparr>cred_actor = b, token_sha256 = hexEncode (sha256 raw)\<rparr>])"
  using assms by (auto simp: newStaticAuthenticator_def split: if_splits sum.splits)

text \<open>
  The authenticators the program builds: from a registry file, from a static token, and as a list of such,
  with absent members.
\<close>

inductive built_authenticator :: "authenticator \<Rightarrow> bool" where
  from_registry: "loadActorRegistry f = Inr auth \<Longrightarrow> built_authenticator auth"
| from_token: "newStaticAuthenticator a raw = Inr auth \<Longrightarrow> built_authenticator auth"
| from_list: "(\<And>m. Some m \<in> set ms \<Longrightarrow> built_authenticator m) \<Longrightarrow> built_authenticator (MultiAuthenticator ms)"

lemma built_authenticator_ok: "built_authenticator auth \<Longrightarrow> authenticator_ok auth"
proof (induction rule: built_authenticator.induct)
  case (from_registry f auth)
  then show ?case using normalizeCredentials_ok by (auto simp: loadActorRegistry_Inr creds_ok_def)
next
  case (from_token a raw auth)
  then show ?case by (elim newStatic_ok) (simp add: cred_ok_I normalizeActor_ok)
next
  case (from_list ms)
  then show ?case by (auto simp: list_all_iff split: option.splits)
qed

lemma registryLookup_Some:
  "registryLookup p cs = Some a \<Longrightarrow> \<exists>c \<in> set cs. decodeSHA256 (token_sha256 c) = Some p \<and> cred_actor c = a"
  by (induction p cs rule: registryLookup.induct) (auto split: option.splits if_splits)

lemma registryLookup_None:
  "registryLookup p cs = None \<longleftrightarrow> (\<forall>c \<in> set cs. decodeSHA256 (token_sha256 c) \<noteq> Some p)"
  by (induction p cs rule: registryLookup.induct) (auto split: option.splits)

lemma registryLookup_unique:
  assumes "c \<in> set cs" "decodeSHA256 (token_sha256 c) = Some p"
    and "\<And>c'. c' \<in> set cs \<Longrightarrow> decodeSHA256 (token_sha256 c') = Some p \<Longrightarrow> c' = c"
  shows "registryLookup p cs = Some (cred_actor c)"
proof -
  have "registryLookup p cs \<noteq> None" using assms(1,2) by (auto simp: registryLookup_None)
  then obtain a where "registryLookup p cs = Some a" by blast
  with registryLookup_Some [OF this] assms(3) show ?thesis by auto
qed

lemma registryLookup_ok: "list_all cred_ok cs \<Longrightarrow> registryLookup p cs = Some a \<Longrightarrow> actor_ok a"
  by (auto dest!: registryLookup_Some simp: list_all_iff cred_ok_def)

text \<open>The first authenticator that knows the token decides.\<close>

lemma authenticateFirst_eq:
  "authenticateFirst ms token =
     (case List.map_filter (\<lambda>m. Option.bind m (\<lambda>x. authenticateBearer x token)) ms of
        [] \<Rightarrow> None | a # _ \<Rightarrow> Some a)"
  by (induction ms token rule: authenticateBearer_authenticateFirst.induct(2) [where P = "\<lambda>_ _. True"])
    (auto split: option.splits simp: map_filter_simps)

lemma authenticateFirst_Some:
  "authenticateFirst ms token = Some a \<Longrightarrow> \<exists>m. Some m \<in> set ms \<and> authenticateBearer m token = Some a"
  by (induction ms token rule: authenticateBearer_authenticateFirst.induct(2) [where P = "\<lambda>_ _. True"])
    (auto split: option.splits)

lemma authenticate_ok:
  "authenticator_ok auth \<Longrightarrow> authenticateBearer auth token = Some a \<Longrightarrow> actor_ok a"
proof (induction auth)
  case (RegistryAuthenticator reg)
  then show ?case by (cases reg) (auto split: if_splits intro: registryLookup_ok)
next
  case (MultiAuthenticator ms)
  then obtain m where "Some m \<in> set ms" "authenticateBearer m token = Some a"
    using authenticateFirst_Some [of ms token a] by auto
  with MultiAuthenticator show ?case by (fastforce simp: list_all_iff)
qed

lemma authenticate_blank: "trimSpace token = [] \<Longrightarrow> authenticateBearer auth token = None"
proof (induction auth)
  case (RegistryAuthenticator reg)
  then show ?case by (simp split: option.splits)
next
  case (MultiAuthenticator ms)
  have "authenticateFirst ms token \<noteq> Some a" for a
    using MultiAuthenticator authenticateFirst_Some [of ms token a] by fastforce
  then show ?case by (cases "authenticateFirst ms token") auto
qed

subsection \<open>The interface of an identity source\<close>

text \<open>
  What the broker and the control server rely on when they turn a bearer token into an actor: a
  blank token names nobody, and whoever is named satisfies \<open>actor_ok\<close>. Everything the servers
  conclude about confirmation and mutation rights follows from these two laws.
\<close>

locale actor_source =
  fixes source_ok :: "'s \<Rightarrow> bool" and auth :: "'s \<Rightarrow> string \<Rightarrow> actor option"
  assumes auth_blank: "trimSpace t = [] \<Longrightarrow> auth s t = None"
    and auth_actor_ok: "source_ok s \<Longrightarrow> auth s t = Some a \<Longrightarrow> actor_ok a"
begin

lemma tci_powerless:
  "source_ok s \<Longrightarrow> auth s t = Some a \<Longrightarrow> kind a = ActorTCI \<Longrightarrow>
     \<not> hasPermission a PermissionConfirm \<and> \<not> hasPermission a PermissionOperationMutate \<and>
     \<not> hasPermission a PermissionOperationExecute \<and> \<not> hasPermission a PermissionAuditRead"
  using actor_ok_tci [OF auth_actor_ok] by (auto simp: permission_defs)

lemma confirm_needs_approver:
  "source_ok s \<Longrightarrow> auth s t = Some a \<Longrightarrow> hasPermission a PermissionConfirm \<Longrightarrow>
     ''approver'' \<in> set (roles a) \<and> kind a \<noteq> ActorTCI"
  using actor_ok_confirm [OF auth_actor_ok] tci_powerless by auto

lemma mutate_needs_mutator:
  "source_ok s \<Longrightarrow> auth s t = Some a \<Longrightarrow> hasPermission a PermissionOperationMutate \<Longrightarrow>
     ''mutator'' \<in> set (roles a) \<and> kind a \<noteq> ActorTCI"
  using actor_ok_mutate [OF auth_actor_ok] tci_powerless by auto

end

interpretation bearer: actor_source authenticator_ok authenticateBearer
  by unfold_locales (auto intro: authenticate_blank authenticate_ok)


subsection \<open>Properties\<close>

definition exampleOperator :: actor where
  "exampleOperator = \<lparr>actor_id = ''human:ada'', kind = ActorHuman, display_name = ''Ada '',
     roles = [''operator'', ''auditor'', ''operator''], permissions = [''root'']\<rparr>"

definition exampleNormal :: actor where
  "exampleNormal = \<lparr>actor_id = ''human:ada'', kind = ActorHuman, display_name = ''Ada'',
     roles = [''auditor'', ''operator''],
     permissions = [PermissionAuditRead, PermissionControlRead, PermissionInventoryRead,
       PermissionOperationCatalog, PermissionOperationExecute, PermissionOperationPlan]\<rparr>"

lemma exampleOperator_normal: "normalizeActor exampleOperator = Inr exampleNormal"
  by code_simp

lemma normalizeActor_ignores_permissions: "normalizeActor (a\<lparr>permissions := ps\<rparr>) = normalizeActor a"
  by (simp add: normalizeActor_eq trimActor_def split: sum.splits)

text \<open>
  C13. Permissions are derived, never supplied. When \<^verbatim>\<open>normalizeActor\<close> accepts an actor, the stored
  permission list is strictly sorted, contains exactly what the requested roles grant by
  \<^verbatim>\<open>rolePermissions\<close>, and is the same whatever permission list the caller had filled in; the roles are
  the requested ones without duplicates, each of them known; and normalising the result again changes
  nothing.
\<close>

theorem normalizeActor_derives_permissions:
  assumes "normalizeActor a = Inr b"
  shows "(\<forall>p. p \<in> set (permissions b) \<longleftrightarrow>
      (\<exists>r \<in> set (roles a). \<exists>granted. map_of rolePermissions r = Some granted \<and> p \<in> set granted)) \<and>
    sorted (permissions b) \<and> distinct (permissions b) \<and>
    set (roles b) = set (roles a) \<and> sorted (roles b) \<and> distinct (roles b) \<and>
    (\<forall>r \<in> set (roles a). map_of rolePermissions r \<noteq> None) \<and>
    normalizeActor (a\<lparr>permissions := ps\<rparr>) = Inr b \<and> normalizeActor b = Inr b"
proof -
  have ok: "actor_ok b" using assms by (rule normalizeActor_ok)
  have r: "set (roles b) = set (roles a)" using assms by (auto simp: normalizeActor_Inr)
  have "\<forall>r \<in> set (roles a). map_of rolePermissions r \<noteq> None"
    using assms by (simp add: normalizeActor_Inr role_allowed_def map_of_eq_None_iff)
  moreover have "sorted (permissions b) \<and> distinct (permissions b) \<and> sorted (roles b) \<and> distinct (roles b)"
    using ok by (simp add: actor_ok_def uniquePermissions_eq sorted_unique)
  ultimately show ?thesis
    using actor_ok_perm [OF ok] actor_ok_normal [OF ok] assms
    by (simp add: r normalizeActor_ignores_permissions)
qed

theorem normalizeActor_derives_permissions_witness:
  "normalizeActor exampleOperator = Inr exampleNormal \<and> normalizeActor exampleNormal = Inr exampleNormal \<and>
   PermissionAuditRead \<in> set (permissions exampleNormal) \<and> PermissionConfirm \<notin> set (permissions exampleNormal)"
  using normalizeActor_derives_permissions [OF exampleOperator_normal] exampleOperator_normal
  by (simp add: exampleNormal_def permission_defs)

text \<open>
  C14. An AI identity stays a proposer. Whatever the registry file or the configured actor says, no
  authenticator the program builds (\<^verbatim>\<open>LoadActorRegistry\<close> that succeeded, \<^verbatim>\<open>NewStaticAuthenticator\<close> that succeeded, or
  a list of such, in any nesting) ever returns a TCI actor that may execute, mutate, confirm or read the audit
  log, and whoever it returns with the confirm (mutate) permission holds the approver (mutator) role and is
  not a TCI.
\<close>

theorem tci_never_authorised:
  assumes "built_authenticator auth" "authenticateBearer auth token = Some a"
  shows "(kind a = ActorTCI \<longrightarrow> set (permissions a) \<inter>
      {PermissionConfirm, PermissionOperationMutate, PermissionOperationExecute, PermissionAuditRead} = {}) \<and>
    (PermissionConfirm \<in> set (permissions a) \<longrightarrow> ''approver'' \<in> set (roles a) \<and> kind a \<noteq> ActorTCI) \<and>
    (PermissionOperationMutate \<in> set (permissions a) \<longrightarrow> ''mutator'' \<in> set (roles a) \<and> kind a \<noteq> ActorTCI)"
proof -
  note ok = built_authenticator_ok [OF assms(1)]
  show ?thesis
    using bearer.tci_powerless [OF ok assms(2)] bearer.confirm_needs_approver [OF ok assms(2)]
      bearer.mutate_needs_mutator [OF ok assms(2)] unfolding hasPermission_iff by blast
qed

definition exampleTCI :: actor where
  "exampleTCI = \<lparr>actor_id = ''tci:planner'', kind = ActorTCI, display_name = ''Planner'',
     roles = [''tci-proposer''],
     permissions = [PermissionControlRead, PermissionInventoryRead, PermissionOperationCatalog,
       PermissionOperationPlan, PermissionTCIPropose]\<rparr>"

lemma exampleTCI_normal: "normalizeActor exampleTCI = Inr exampleTCI"
  by code_simp

text \<open>
  The static authenticator admits exactly its token: a bearer token authenticates iff it is not
  blank and is the configured token or a SHA-256 collision of it, and the identity returned is the
  normalised actor. (The token is hashed as received, so surrounding white space matters.)
\<close>

theorem static_authenticator_exact:
  assumes "newStaticAuthenticator a raw = Inr auth"
  shows "authenticateBearer auth token = Some b \<longleftrightarrow>
    normalizeActor a = Inr b \<and> trimSpace token \<noteq> [] \<and> (token = raw \<or> sha_collision token raw)"
  using assms by (elim newStatic_ok) (auto simp: sha_collision_def)

theorem static_authenticator_exact_witness:
  "\<exists>auth. newStaticAuthenticator exampleTCI ''s3cret'' = Inr auth \<and>
     authenticateBearer auth ''s3cret'' = Some exampleTCI \<and> authenticateBearer auth '' '' = None"
proof -
  let ?auth = "RegistryAuthenticator (Some [\<lparr>cred_actor = exampleTCI, token_sha256 = hexEncode (sha256 ''s3cret'')\<rparr>])"
  have t: "trimSpace ''s3cret'' \<noteq> []" "trimSpace '' '' = []" by code_simp+
  then have a: "newStaticAuthenticator exampleTCI ''s3cret'' = Inr ?auth"
    by (simp add: newStaticAuthenticator_def exampleTCI_normal)
  from static_authenticator_exact [OF a, of "''s3cret''" exampleTCI] t a
  show ?thesis by (intro exI [of _ ?auth]) (simp add: exampleTCI_normal)
qed

theorem tci_never_authorised_witness:
  "\<exists>auth. newStaticAuthenticator exampleTCI ''t'' = Inr auth \<and>
     authenticateBearer (MultiAuthenticator [None, Some auth]) ''t'' = Some exampleTCI \<and>
     PermissionConfirm \<notin> set (permissions exampleTCI) \<and> PermissionOperationMutate \<notin> set (permissions exampleTCI)"
proof -
  let ?auth = "RegistryAuthenticator (Some [\<lparr>cred_actor = exampleTCI, token_sha256 = hexEncode (sha256 ''t'')\<rparr>])"
  have t: "trimSpace ''t'' \<noteq> []" by code_simp
  then have s: "newStaticAuthenticator exampleTCI ''t'' = Inr ?auth"
    by (simp add: newStaticAuthenticator_def exampleTCI_normal)
  have b: "built_authenticator (MultiAuthenticator [None, Some ?auth])"
    by (rule from_list) (use s in \<open>auto intro: from_token\<close>)
  from t have a: "authenticateBearer (MultiAuthenticator [None, Some ?auth]) ''t'' = Some exampleTCI" by simp
  have "kind exampleTCI = ActorTCI" by (simp add: exampleTCI_def)
  with tci_never_authorised [OF b a] s a show ?thesis by (intro exI [of _ ?auth]) blast
qed

lemma registryLookup_normalised:
  "normalizeCredentials seen cs = Inr rs \<Longrightarrow>
     registryLookup p rs =
       (case filter (\<lambda>c. decodeSHA256 (token_sha256 c) = Some p) cs of
          [] \<Rightarrow> None
        | c # _ \<Rightarrow> (case normalizeActor (cred_actor c) of Inl _ \<Rightarrow> None | Inr a \<Rightarrow> Some a))"
proof (induction seen cs arbitrary: rs rule: normalizeCredentials.induct)
  case (2 seen c cs)
  then obtain a d rest where
    "normalizeActor (cred_actor c) = Inr a" "actor_id a \<notin> set seen"
    "decodeSHA256 (token_sha256 c) = Some d" "\<not> allZero d"
    "normalizeCredentials (actor_id a # seen) cs = Inr rest"
    "rs = \<lparr>cred_actor = a, token_sha256 = hexEncode d\<rparr> # rest"
    by (auto split: sum.splits option.splits if_splits)
  with "2.IH" [of a d rest] decodeSHA256_Some [of "token_sha256 c" d, THEN conjunct1] show ?case
    by auto
qed simp

text \<open>
  C15. Loading a registry establishes the identity invariant. If \<^verbatim>\<open>LoadActorRegistry\<close> succeeds, the file
  was within its size limit with the right schema and at least one actor, and in memory there is one
  credential per entry, actor IDs are pairwise distinct, every actor satisfies the normal form, and every
  token digest is the lower-case hexadecimal form of 32 bytes that are not all zero.
\<close>

theorem loadActorRegistry_establishes:
  assumes "loadActorRegistry f = Inr auth"
  shows "\<exists>len reg creds. f = FileContents len (Some reg) \<and> len \<le> 1048576 \<and> reg_schema reg = ActorSchema \<and>
    auth = RegistryAuthenticator (Some creds) \<and> creds \<noteq> [] \<and> length creds = length (reg_actors reg) \<and>
    distinct (map (actor_id \<circ> cred_actor) creds) \<and>
    (\<forall>c \<in> set creds. actor_ok (cred_actor c) \<and> token_sha256 c \<noteq> replicate 64 (CHR ''0'') \<and>
       (\<exists>d. length d = 32 \<and> token_sha256 c = hexEncode d)) \<and>
    authenticator_ok auth"
proof -
  from assms obtain len reg creds where f: "f = FileContents len (Some reg)" "len \<le> 1048576"
      "reg_schema reg = ActorSchema" "reg_actors reg \<noteq> []"
    and n: "normalizeCredentials [] (reg_actors reg) = Inr creds" and a: "auth = RegistryAuthenticator (Some creds)"
    by (auto simp: loadActorRegistry_Inr)
  have "cred_ok c \<Longrightarrow> actor_ok (cred_actor c) \<and> (\<exists>d. length d = 32 \<and> token_sha256 c = hexEncode d)" for c
    by (auto simp: cred_ok_def split: option.splits)
  with normalizeCredentials_ok [OF n] f a show ?thesis
    by (intro exI [of _ len] exI [of _ reg] exI [of _ creds]) (auto simp: creds_ok_def list_all_iff)
qed

definition exampleRegistry :: actor_registry where
  "exampleRegistry = \<lparr>reg_schema = ActorSchema,
     reg_actors = [\<lparr>cred_actor = exampleOperator, token_sha256 = hexEncode (replicate 32 (CHR ''x''))\<rparr>,
                   \<lparr>cred_actor = exampleTCI, token_sha256 = hexEncode (replicate 32 (CHR ''y''))\<rparr>]\<rparr>"

definition exampleAuthenticator :: authenticator where
  "exampleAuthenticator = RegistryAuthenticator (Some
     [\<lparr>cred_actor = exampleNormal, token_sha256 = hexEncode (replicate 32 (CHR ''x''))\<rparr>,
      \<lparr>cred_actor = exampleTCI, token_sha256 = hexEncode (replicate 32 (CHR ''y''))\<rparr>])"

lemma exampleRegistry_loads: "loadActorRegistry (FileContents 512 (Some exampleRegistry)) = Inr exampleAuthenticator"
proof -
  have "actor_id exampleTCI \<noteq> actor_id exampleNormal" by (simp add: exampleTCI_def exampleNormal_def)
  moreover have "\<not> allZero (replicate 32 (CHR ''x''))" "\<not> allZero (replicate 32 (CHR ''y''))"
    by (simp_all add: allZero_def list_all_iff)
  ultimately show ?thesis
    by (simp add: loadActorRegistry_def exampleRegistry_def exampleAuthenticator_def exampleOperator_normal
      exampleTCI_normal)
qed

theorem loadActorRegistry_establishes_witness:
  "loadActorRegistry (FileContents 512 (Some exampleRegistry)) = Inr exampleAuthenticator \<and>
   authenticator_ok exampleAuthenticator"
  using loadActorRegistry_establishes [OF exampleRegistry_loads] exampleRegistry_loads by blast

text \<open>
  C16. Bearer authentication against a loaded registry is exactly a lookup of the token's SHA-256 in the
  registry file: a blank token is rejected; otherwise the first entry whose declared digest is the
  token's digest decides, and the identity is that entry's actor in normal form.
\<close>

theorem registry_authentication_exact:
  assumes "loadActorRegistry (FileContents len (Some reg)) = Inr auth"
  shows "authenticateBearer auth token =
    (if trimSpace token = [] then None
     else (case filter (\<lambda>c. decodeSHA256 (token_sha256 c) = Some (sha256 token)) (reg_actors reg) of
        [] \<Rightarrow> None
      | c # _ \<Rightarrow> (case normalizeActor (cred_actor c) of Inl _ \<Rightarrow> None | Inr a \<Rightarrow> Some a)))"
  using assms registryLookup_normalised [of "[]" "reg_actors reg"] by (auto simp: loadActorRegistry_Inr)

text \<open>Three entries, of which the last two declare the digest of one token.\<close>

definition secondOperator :: actor where
  "secondOperator = exampleNormal\<lparr>actor_id := ''human:second''\<rparr>"

definition lookupRegistry :: actor_registry where
  "lookupRegistry = \<lparr>reg_schema = ActorSchema,
     reg_actors = [\<lparr>cred_actor = exampleTCI, token_sha256 = hexEncode (replicate 32 (CHR ''x''))\<rparr>,
                   \<lparr>cred_actor = exampleOperator, token_sha256 = sha256_hex ''abc''\<rparr>,
                   \<lparr>cred_actor = secondOperator, token_sha256 = sha256_hex ''abc''\<rparr>]\<rparr>"

definition lookupAuthenticator :: authenticator where
  "lookupAuthenticator = RegistryAuthenticator (Some
     [\<lparr>cred_actor = exampleTCI, token_sha256 = hexEncode (replicate 32 (CHR ''x''))\<rparr>,
      \<lparr>cred_actor = exampleNormal, token_sha256 = sha256_hex ''abc''\<rparr>,
      \<lparr>cred_actor = secondOperator, token_sha256 = sha256_hex ''abc''\<rparr>])"

lemma abc_digest: "\<not> allZero (sha256 ''abc'')" "sha256 ''abc'' \<noteq> replicate 32 (CHR ''x'')"
proof -
  have "hexEncode (sha256 ''abc'') \<noteq> hexEncode (replicate 32 (CHR 0x00))" "hexEncode (sha256 ''abc'') \<noteq> hexEncode (replicate 32 (CHR ''x''))"
    unfolding sha256_abc [unfolded sha256_hex_def] by code_simp+
  then show "\<not> allZero (sha256 ''abc'')" "sha256 ''abc'' \<noteq> replicate 32 (CHR ''x'')"
    by (auto simp: allZero_replicate)
qed

lemma lookupRegistry_loads: "loadActorRegistry (FileContents 768 (Some lookupRegistry)) = Inr lookupAuthenticator"
proof -
  have "normalizeActor secondOperator = Inr secondOperator" by code_simp
  moreover have "distinct [actor_id secondOperator, actor_id exampleNormal, actor_id exampleTCI]"
    by (simp add: exampleTCI_def exampleNormal_def secondOperator_def)
  moreover have "\<not> allZero (replicate 32 (CHR ''x''))" by (simp add: allZero_def list_all_iff)
  ultimately show ?thesis
    using abc_digest(1) by (simp add: loadActorRegistry_def lookupRegistry_def lookupAuthenticator_def exampleOperator_normal
        exampleTCI_normal sha256_hex_def)
qed

theorem registry_authentication_exact_witness:
  "loadActorRegistry (FileContents 768 (Some lookupRegistry)) = Inr lookupAuthenticator \<and>
   authenticateBearer lookupAuthenticator ''abc'' = Some exampleNormal \<and> authenticateBearer lookupAuthenticator '' '' = None"
proof -
  have "trimSpace ''abc'' \<noteq> []" "trimSpace '' '' = []" by code_simp+
  then show ?thesis
    using registry_authentication_exact [OF lookupRegistry_loads, of "''abc''"] abc_digest(2) [symmetric]
      registry_authentication_exact [OF lookupRegistry_loads, of "'' ''"] lookupRegistry_loads
    by (simp add: lookupRegistry_def sha256_hex_def exampleOperator_normal)
qed

lemma localReadOnlyActor_normal:
  "normalizeActor \<lparr>actor_id = ''service:loopback-readonly'', kind = ActorService,
      display_name = ''Loopback read-only bootstrap'', roles = [''operator''], permissions = []\<rparr> =
   Inr \<lparr>actor_id = ''service:loopback-readonly'', kind = ActorService,
      display_name = ''Loopback read-only bootstrap'', roles = [''operator''],
      permissions = [PermissionControlRead, PermissionInventoryRead, PermissionOperationCatalog,
        PermissionOperationExecute, PermissionOperationPlan]\<rparr>"
  by code_simp

lemma legacyServiceActor_normal:
  "normalizeActor \<lparr>actor_id = ''service:legacy-api-token'', kind = ActorService,
      display_name = ''Legacy Quantum Control API token'', roles = [''service''], permissions = []\<rparr> =
   Inr \<lparr>actor_id = ''service:legacy-api-token'', kind = ActorService,
      display_name = ''Legacy Quantum Control API token'', roles = [''service''],
      permissions = [PermissionAuditRead, PermissionControlRead, PermissionInventoryRead,
        PermissionOperationCatalog, PermissionOperationExecute, PermissionOperationPlan]\<rparr>"
  by code_simp

lemma bootstrap_ok: "actor_ok localReadOnlyActor" "actor_ok legacyServiceActor"
  using normalizeActor_ok [OF localReadOnlyActor_normal] normalizeActor_ok [OF legacyServiceActor_normal]
  by (simp_all add: localReadOnlyActor_def legacyServiceActor_def normalizeInPlace_def
      localReadOnlyActor_normal legacyServiceActor_normal)

text \<open>
  The unauthenticated loopback identity is read-only: it is a well-formed service actor whose
  permissions are exactly the operator's, so it can read, plan and run read-only operations but cannot
  read the audit log, confirm or mutate. The legacy API token identity adds only the audit log.
\<close>

theorem bootstrap_actors_read_only:
  "actor_ok localReadOnlyActor \<and> actor_ok legacyServiceActor \<and>
   set (permissions localReadOnlyActor) = {PermissionControlRead, PermissionInventoryRead,
     PermissionOperationCatalog, PermissionOperationPlan, PermissionOperationExecute} \<and>
   set (permissions legacyServiceActor) = insert PermissionAuditRead (set (permissions localReadOnlyActor))"
proof -
  have "permissions localReadOnlyActor = [PermissionControlRead, PermissionInventoryRead,
      PermissionOperationCatalog, PermissionOperationExecute, PermissionOperationPlan]"
    "permissions legacyServiceActor = PermissionAuditRead # permissions localReadOnlyActor"
    by (simp_all add: localReadOnlyActor_def legacyServiceActor_def normalizeInPlace_def
      localReadOnlyActor_normal legacyServiceActor_normal)
  with bootstrap_ok show ?thesis by auto
qed

text \<open>
  Separation of duty is not enforced by the identity model: \<^verbatim>\<open>normalizeActor\<close> accepts a human that
  is both approver and mutator, and that identity holds the confirm and the mutate permission.
\<close>

theorem approver_mutator_accepted:
  "\<exists>b. normalizeActor \<lparr>actor_id = ''human:root'', kind = ActorHuman, display_name = ''Root'',
          roles = [''mutator'', ''approver''], permissions = []\<rparr> = Inr b \<and>
     hasPermission b PermissionConfirm \<and> hasPermission b PermissionOperationMutate"
proof -
  let ?a = "\<lparr>actor_id = ''human:root'', kind = ActorHuman, display_name = ''Root'',
          roles = [''mutator'', ''approver''], permissions = []\<rparr>"
  have "(case normalizeActor ?a of Inl _ \<Rightarrow> False
    | Inr b \<Rightarrow> hasPermission b PermissionConfirm \<and> hasPermission b PermissionOperationMutate) = True"
    by code_simp
  then show ?thesis by (cases "normalizeActor ?a") simp_all
qed

end
