(* ===== verification/QC_Json.thy ===== *)
theory QC_Json
  imports QC_Text
begin

text \<open>
  The output side of Go's \<^verbatim>\<open>encoding/json\<close>: \<^verbatim>\<open>json.Marshal\<close> with its default HTML escaping, on the
  values the digests are computed over (strings, unsigned numbers, booleans, arrays and
  structs). Strings are escaped rune by rune; a byte that is not part of a well-formed rune is
  written as \<^verbatim>\<open>\ufffd\<close>, a well-formed U+FFFD as its three bytes.

  The main results are that reading an escaped string back gives the string with malformed
  bytes replaced (\<open>junquote_jescape\<close>), and that the encoding of a whole value determines the
  value up to that replacement (\<open>jenc_unique\<close>).
\<close>

subsection \<open>Strings\<close>

definition esc_ascii :: "char \<Rightarrow> string" where
  "esc_ascii c =
     (if c = CHR 0x22 \<or> c = CHR 0x5C then [CHR 0x5C, c]
      else if c = CHR 0x08 then [CHR 0x5C, CHR ''b'']
      else if c = CHR 0x0C then [CHR 0x5C, CHR ''f'']
      else if c = CHR 0x0A then [CHR 0x5C, CHR ''n'']
      else if c = CHR 0x0D then [CHR 0x5C, CHR ''r'']
      else if c = CHR 0x09 then [CHR 0x5C, CHR ''t'']
      else if byte_of c < 0x20 \<or> c = CHR ''<'' \<or> c = CHR ''>'' \<or> c = CHR ''&''
        then [CHR 0x5C, CHR ''u'', CHR ''0'', CHR ''0'',
              hexdigit (byte_of c div 16), hexdigit (byte_of c mod 16)]
      else [c])"

definition esc_rune :: "string \<Rightarrow> string" where
  "esc_rune r =
     (if r = [CHR 0xE2, CHR 0x80, CHR 0xA8] then CHR 0x5C # ''u2028''
      else if r = [CHR 0xE2, CHR 0x80, CHR 0xA9] then CHR 0x5C # ''u2029''
      else r)"

fun jescape :: "string \<Rightarrow> string" where
  "jescape [] = []"
| "jescape (c # cs) =
     (if byte_of c < 128 then esc_ascii c @ jescape cs
      else let k = utf8_size (c # cs) in
        if k = 0 then (CHR 0x5C # ''ufffd'') @ jescape cs
        else esc_rune (take k (c # cs)) @ jescape (drop (k - 1) cs))"

definition jquote :: "string \<Rightarrow> string" where
  "jquote s = CHR 0x22 # jescape s @ [CHR 0x22]"

text \<open>Reading a string back: the escapes of JSON, up to the closing quote.\<close>

definition utf8_encode :: "nat \<Rightarrow> string" where
  "utf8_encode n =
     (if n < 0x80 then [char_of n]
      else if n < 0x800 then [char_of (0xC0 + n div 64), char_of (0x80 + n mod 64)]
      else if 0xD800 \<le> n \<and> n \<le> 0xDFFF then replacement
      else [char_of (0xE0 + n div 4096), char_of (0x80 + n div 64 mod 64), char_of (0x80 + n mod 64)])"

definition unicode_escape :: "string \<Rightarrow> string option" where
  "unicode_escape h = (case map fromHex h of
     [Some a, Some b, Some c, Some d] \<Rightarrow> Some (utf8_encode (((a * 16 + b) * 16 + c) * 16 + d))
   | _ \<Rightarrow> None)"

definition short_escape :: "char \<Rightarrow> string option" where
  "short_escape e =
     (if e = CHR 0x22 \<or> e = CHR 0x5C \<or> e = CHR ''/'' then Some [e]
      else if e = CHR ''b'' then Some [CHR 0x08]
      else if e = CHR ''f'' then Some [CHR 0x0C]
      else if e = CHR ''n'' then Some [CHR 0x0A]
      else if e = CHR ''r'' then Some [CHR 0x0D]
      else if e = CHR ''t'' then Some [CHR 0x09]
      else None)"

fun junquote :: "string \<Rightarrow> (string \<times> string) option" where
  "junquote [] = None"
| "junquote (c # cs) =
     (if c = CHR 0x22 then Some ([], cs)
      else if c \<noteq> CHR 0x5C then map_option (apfst ((#) c)) (junquote cs)
      else case cs of [] \<Rightarrow> None
      | e # r \<Rightarrow>
          if e = CHR ''u'' then
            (case unicode_escape (take 4 r) of None \<Rightarrow> None
             | Some u \<Rightarrow> map_option (apfst ((@) u)) (junquote (drop 4 r)))
          else (case short_escape e of None \<Rightarrow> None
             | Some u \<Rightarrow> map_option (apfst ((@) u)) (junquote r)))"

lemma junquote_raw:
  "list_all (\<lambda>c. c \<noteq> CHR 0x22 \<and> c \<noteq> CHR 0x5C) r \<Longrightarrow>
   junquote (r @ x) = map_option (apfst ((@) r)) (junquote x)"
proof (induction r)
  case Nil
  then show ?case by (cases "junquote x") auto
next
  case (Cons c cs)
  then show ?case by (cases "junquote x") auto
qed

lemma junquote_u00:
  assumes "byte_of c < 128"
  shows "junquote (CHR 0x5C # CHR ''u'' # CHR ''0'' # CHR ''0'' # hexdigit (byte_of c div 16)
           # hexdigit (byte_of c mod 16) # x) = map_option (apfst ((#) c)) (junquote x)"
proof -
  have "byte_of c div 16 * 16 + byte_of c mod 16 = byte_of c" by simp
  moreover have "fromHex CHR ''0'' = Some 0" by (simp add: fromHex_def)
  ultimately have "unicode_escape [CHR ''0'', CHR ''0'', hexdigit (byte_of c div 16), hexdigit (byte_of c mod 16)]
      = Some [c]"
    using assms by (simp add: unicode_escape_def hexdigit_props utf8_encode_def)
  moreover have "(@) [c] = (#) c" by (simp add: fun_eq_iff)
  ultimately show ?thesis by simp
qed

lemma junquote_esc_ascii:
  assumes "byte_of c < 128"
  shows "junquote (esc_ascii c @ x) = map_option (apfst ((#) c)) (junquote x)"
proof -
  have cons: "(@) [d] = (#) d" for d :: char by (simp add: fun_eq_iff)
  show ?thesis
    using junquote_u00 [OF assms, of x]
    by (simp add: esc_ascii_def short_escape_def cons)
qed

lemma in_range_high: "in_range lo hi d \<Longrightarrow> 128 \<le> lo \<Longrightarrow> \<not> byte_of d < 128"
  by (simp add: in_range_def)

lemma utf8_size_high:
  assumes "\<not> byte_of c < 128"
  shows "list_all (\<lambda>d. \<not> byte_of d < 128) (take (utf8_size (c # cs)) (c # cs))"
  using assms
  by (cases cs rule: utf8_shape_cases)
    (auto simp add: utf8_size_def Let_def dest: in_range_high split: if_split)

lemma unicode_escape_examples:
  "unicode_escape ''2028'' = Some [CHR 0xE2, CHR 0x80, CHR 0xA8]"
  "unicode_escape ''2029'' = Some [CHR 0xE2, CHR 0x80, CHR 0xA9]"
  "unicode_escape ''fffd'' = Some replacement"
  by (simp_all add: unicode_escape_def fromHex_def utf8_encode_def replacement_def char_of_def bit_0)

lemma junquote_esc_rune:
  assumes "list_all (\<lambda>d. \<not> byte_of d < 128) r"
  shows "junquote (esc_rune r @ x) = map_option (apfst ((@) r)) (junquote x)"
proof -
  have "list_all (\<lambda>c. c \<noteq> CHR 0x22 \<and> c \<noteq> CHR 0x5C) r"
    using assms by (auto simp: list_all_iff)
  then show ?thesis by (auto simp: esc_rune_def junquote_raw unicode_escape_examples)
qed

theorem junquote_jescape: "junquote (jescape s @ CHR 0x22 # x) = Some (toValidUtf8 s, x)"
proof (induction s rule: jescape.induct)
  case (2 c cs)
  show ?case
  proof (cases "byte_of c < 128")
    case True
    then have "utf8_size (c # cs) = 1" by (simp add: utf8_size_def)
    with True 2 show ?thesis by (simp add: junquote_esc_ascii)
  next
    case high: False
    let ?k = "utf8_size (c # cs)"
    show ?thesis
    proof (cases "?k = 0")
      case True
      with high 2 show ?thesis by (simp add: Let_def unicode_escape_examples)
    next
      case False
      with high 2 have "junquote (jescape (drop (?k - 1) cs) @ CHR 0x22 # x) = Some (toValidUtf8 (drop (?k - 1) cs), x)"
        by simp
      with False high junquote_esc_rune [OF utf8_size_high [OF high, of cs]]
      show ?thesis by (simp add: Let_def)
    qed
  qed
qed simp

corollary jescape_unique:
  "jescape s @ CHR 0x22 # x = jescape t @ CHR 0x22 # y \<Longrightarrow> toValidUtf8 s = toValidUtf8 t \<and> x = y"
  by (metis Pair_inject junquote_jescape option.inject)

corollary jquote_unique: "jquote s @ x = jquote t @ y \<Longrightarrow> toValidUtf8 s = toValidUtf8 t \<and> x = y"
  using jescape_unique [of s x t y] by (simp add: jquote_def)

subsection \<open>Values\<close>

datatype json =
  JStr string | JNum nat | JBool bool | JArr "json list" | JObj "(string \<times> json) list"

fun dec :: "nat \<Rightarrow> string" where
  "dec n = (if n < 10 then [char_of (0x30 + n)] else dec (n div 10) @ [char_of (0x30 + n mod 10)])"

declare dec.simps [simp del]

fun jenc :: "json \<Rightarrow> string"
  and jenc_list :: "json list \<Rightarrow> string"
  and jenc_members :: "(string \<times> json) list \<Rightarrow> string" where
  "jenc (JStr s) = jquote s"
| "jenc (JNum n) = dec n"
| "jenc (JBool b) = (if b then ''true'' else ''false'')"
| "jenc (JArr vs) = CHR ''['' # jenc_list vs @ [CHR '']'']"
| "jenc (JObj kvs) = CHR ''{'' # jenc_members kvs @ [CHR ''}'']"
| "jenc_list [] = []"
| "jenc_list [v] = jenc v"
| "jenc_list (v # w # vs) = jenc v @ CHR '','' # jenc_list (w # vs)"
| "jenc_members [] = []"
| "jenc_members [(k, v)] = jquote k @ CHR '':'' # jenc v"
| "jenc_members ((k, v) # m # kvs) = jquote k @ CHR '':'' # jenc v @ CHR '','' # jenc_members (m # kvs)"

text \<open>What is left of a value once malformed bytes are replaced.\<close>

fun jnorm :: "json \<Rightarrow> json" where
  "jnorm (JStr s) = JStr (toValidUtf8 s)"
| "jnorm (JNum n) = JNum n"
| "jnorm (JBool b) = JBool b"
| "jnorm (JArr vs) = JArr (map jnorm vs)"
| "jnorm (JObj kvs) = JObj (map (\<lambda>(k, v). (toValidUtf8 k, jnorm v)) kvs)"

subsubsection \<open>Numbers\<close>

lemma dec_nonempty [simp]: "dec n \<noteq> []"
  by (subst dec.simps) simp

lemma dec_digits: "list_all is_digit (dec n)"
proof (induction n rule: dec.induct)
  case (1 n)
  have d: "is_digit (char_of (48 + m))" if "m < 10" for m :: nat
    using that by (simp add: is_digit_def in_range_def)
  show ?case
  proof (cases "n < 10")
    case True
    then show ?thesis by (subst dec.simps) (simp add: d)
  next
    case False
    with 1 show ?thesis by (subst dec.simps) (simp add: d)
  qed
qed

definition undec :: "string \<Rightarrow> nat" where
  "undec s = foldl (\<lambda>a c. 10 * a + (byte_of c - 0x30)) 0 s"

lemma undec_dec: "undec (dec n) = n"
proof (induction n rule: dec.induct)
  case (1 n)
  show ?case
  proof (cases "n < 10")
    case True
    then show ?thesis by (subst dec.simps) (simp add: undec_def)
  next
    case False
    with 1 have "undec (dec (n div 10)) = n div 10" by simp
    then have "foldl (\<lambda>a c. 10 * a + (byte_of c - 0x30)) 0 (dec (n div 10)) = n div 10"
      by (simp add: undec_def)
    moreover have "n mod 10 < 10" by simp
    ultimately show ?thesis using False
      by (subst dec.simps) (simp add: undec_def)
  qed
qed

definition nodigit :: "string \<Rightarrow> bool" where
  "nodigit r \<longleftrightarrow> (case r of [] \<Rightarrow> True | c # _ \<Rightarrow> \<not> is_digit c)"

lemma takeWhile_dec: "nodigit r \<Longrightarrow> takeWhile is_digit (dec n @ r) = dec n"
  using dec_digits [of n]
  by (cases r) (simp_all add: nodigit_def list_all_iff takeWhile_append)

lemma dec_unique:
  assumes "dec m @ x = dec n @ y" "nodigit x" "nodigit y"
  shows "m = n \<and> x = y"
proof -
  have "dec m = dec n" using assms takeWhile_dec by metis
  then show ?thesis using assms(1) undec_dec by (metis same_append_eq)
qed

subsubsection \<open>Unique decoding\<close>

lemma dec_hd: "\<exists>c r. dec n = c # r \<and> is_digit c"
  using dec_digits [of n] dec_nonempty [of n] by (cases "dec n") auto

text \<open>The first character of an encoding tells the kind of value.\<close>

fun json_kind :: "json \<Rightarrow> nat" where
  "json_kind (JStr s) = 0"
| "json_kind (JNum n) = 1"
| "json_kind (JBool b) = 2"
| "json_kind (JArr vs) = 3"
| "json_kind (JObj kvs) = 4"

definition char_kind :: "char \<Rightarrow> nat" where
  "char_kind c =
     (if c = CHR 0x22 then 0 else if is_digit c then 1
      else if c = CHR ''t'' \<or> c = CHR ''f'' then 2
      else if c = CHR ''['' then 3 else if c = CHR ''{'' then 4 else 5)"

lemma jenc_kind: "\<exists>c r. jenc v = c # r \<and> char_kind c = json_kind v"
proof (cases v)
  case (JNum n)
  obtain c r where c: "dec n = c # r" "is_digit c" using dec_hd by blast
  then have "c \<noteq> CHR 0x22" by (auto simp: is_digit_def in_range_def)
  with JNum c show ?thesis by (simp add: char_kind_def)
qed (auto simp: jquote_def char_kind_def is_digit_def in_range_def)

lemma json_kind_less: "json_kind v < 5"
  by (cases v) auto

lemma jenc_same_kind: "jenc v @ x = jenc w @ y \<Longrightarrow> json_kind w = json_kind v"
  using jenc_kind [of v] jenc_kind [of w] by auto

lemma json_kind_eq:
  "json_kind w = 0 \<longleftrightarrow> (\<exists>s. w = JStr s)" "json_kind w = Suc 0 \<longleftrightarrow> (\<exists>n. w = JNum n)"
  "json_kind w = 2 \<longleftrightarrow> (\<exists>b. w = JBool b)" "json_kind w = 3 \<longleftrightarrow> (\<exists>vs. w = JArr vs)"
  "json_kind w = 4 \<longleftrightarrow> (\<exists>kvs. w = JObj kvs)"
  by (cases w; simp)+

lemma jenc_not_bracket: "jenc v @ x \<noteq> CHR '']'' # y" "CHR '']'' # y \<noteq> jenc v @ x"
  using jenc_kind [of v] json_kind_less [of v]
  by (auto simp: char_kind_def is_digit_def in_range_def)

lemma jquote_not_brace: "jquote k @ x \<noteq> CHR ''}'' # y" "CHR ''}'' # y \<noteq> jquote k @ x"
  by (simp_all add: jquote_def)

lemma nodigit_simps [simp]:
  "nodigit (CHR '','' # x)" "nodigit (CHR '']'' # x)" "nodigit (CHR ''}'' # x)" "nodigit []"
  by (simp_all add: nodigit_def is_digit_def in_range_def)

abbreviation norm_member :: "string \<times> json \<Rightarrow> string \<times> json" where
  "norm_member \<equiv> \<lambda>(k, v). (toValidUtf8 k, jnorm v)"

lemma list_shapes [case_names Nil One More]:
  obtains "xs = []" | x where "xs = [x]" | x y ys where "xs = x # y # ys"
  by (metis list.exhaust)

theorem jenc_unique:
  "jenc v @ x = jenc w @ y \<Longrightarrow> nodigit x \<Longrightarrow> nodigit y \<Longrightarrow> jnorm v = jnorm w \<and> x = y"
  "jenc_list vs @ CHR '']'' # x = jenc_list ws @ CHR '']'' # y \<Longrightarrow>
     map jnorm vs = map jnorm ws \<and> x = y"
  "jenc_members ms @ CHR ''}'' # x = jenc_members ns @ CHR ''}'' # y \<Longrightarrow>
     map norm_member ms = map norm_member ns \<and> x = y"
proof (induction v and vs and ms arbitrary: w x y and ws x y and ns x y
    rule: jenc_jenc_list_jenc_members.induct)
  case (1 s)
  from jenc_same_kind [OF 1(1)] obtain t where "w = JStr t" by (auto simp: json_kind_eq)
  with 1 show ?case using jquote_unique [of s x t y] by simp
next
  case (2 n)
  from jenc_same_kind [OF 2(1)] obtain m where "w = JNum m" by (auto simp: json_kind_eq)
  with 2 show ?case using dec_unique [of n x m y] by simp
next
  case (3 b)
  from jenc_same_kind [OF 3(1)] obtain c where "w = JBool c" by (auto simp: json_kind_eq)
  with 3 show ?case by (simp split: if_splits)
next
  case (4 vs)
  from jenc_same_kind [OF 4(2)] obtain us where "w = JArr us" by (auto simp: json_kind_eq)
  with 4(2) 4(1) [of x us y] show ?case by simp
next
  case (5 kvs)
  from jenc_same_kind [OF 5(2)] obtain us where "w = JObj us" by (auto simp: json_kind_eq)
  with 5(2) 5(1) [of x us y] show ?case by simp
next
  case 6
  then show ?case by (cases ws rule: list_shapes) (auto simp: jenc_not_bracket)
next
  case (7 v)
  show ?case
  proof (cases ws rule: list_shapes)
    case Nil
    with 7(2) show ?thesis by (simp add: jenc_not_bracket)
  next
    case (One u)
    with 7(2) 7(1) [of "CHR '']'' # x" u "CHR '']'' # y"] show ?thesis by simp
  next
    case (More u u' us)
    with 7(2) 7(1) [of "CHR '']'' # x" u "CHR '','' # jenc_list (u' # us) @ CHR '']'' # y"]
    show ?thesis by simp
  qed
next
  case (8 v v' vs)
  show ?case
  proof (cases ws rule: list_shapes)
    case Nil
    with 8(3) show ?thesis by (simp add: jenc_not_bracket)
  next
    case (One u)
    with 8(3) 8(1) [of "CHR '','' # jenc_list (v' # vs) @ CHR '']'' # x" u "CHR '']'' # y"]
    show ?thesis by simp
  next
    case (More u u' us)
    with 8(3) 8(1) [of "CHR '','' # jenc_list (v' # vs) @ CHR '']'' # x" u
        "CHR '','' # jenc_list (u' # us) @ CHR '']'' # y"]
    have *: "jnorm v = jnorm u" "jenc_list (v' # vs) @ CHR '']'' # x = jenc_list (u' # us) @ CHR '']'' # y"
      by simp_all
    from 8(2) [OF *(2)] *(1) More show ?thesis by simp
  qed
next
  case 9
  then show ?case by (cases ns rule: list_shapes) (auto simp: jquote_not_brace)
next
  case (10 k v)
  show ?case
  proof (cases ns rule: list_shapes)
    case Nil
    with 10(2) show ?thesis by (simp add: jquote_not_brace)
  next
    case (One m')
    obtain k' u where m': "m' = (k', u)" by (cases m')
    with One 10(2) jquote_unique [of k "CHR '':'' # jenc v @ CHR ''}'' # x" k' "CHR '':'' # jenc u @ CHR ''}'' # y"]
      10(1) [of "CHR ''}'' # x" u "CHR ''}'' # y"]
    show ?thesis by simp
  next
    case (More m' m us)
    obtain k' u where m': "m' = (k', u)" by (cases m')
    let ?t = "CHR '','' # jenc_members (m # us) @ CHR ''}'' # y"
    from More m' 10(2) jquote_unique [of k "CHR '':'' # jenc v @ CHR ''}'' # x" k' "CHR '':'' # jenc u @ ?t"]
      10(1) [of "CHR ''}'' # x" u ?t]
    show ?thesis by simp
  qed
next
  case (11 k v m kvs)
  let ?s = "CHR '','' # jenc_members (m # kvs) @ CHR ''}'' # x"
  show ?case
  proof (cases ns rule: list_shapes)
    case Nil
    with 11(3) show ?thesis by (simp add: jquote_not_brace)
  next
    case (One m')
    obtain k' u where m': "m' = (k', u)" by (cases m')
    with One 11(3) jquote_unique [of k "CHR '':'' # jenc v @ ?s" k' "CHR '':'' # jenc u @ CHR ''}'' # y"]
      11(1) [of ?s u "CHR ''}'' # y"]
    show ?thesis by simp
  next
    case (More n m' us)
    obtain k' u where n: "n = (k', u)" by (cases n)
    let ?t = "CHR '','' # jenc_members (m' # us) @ CHR ''}'' # y"
    from More n 11(3) jquote_unique [of k "CHR '':'' # jenc v @ ?s" k' "CHR '':'' # jenc u @ ?t"]
      11(1) [of ?s u ?t]
    have *: "toValidUtf8 k = toValidUtf8 k'" "jnorm v = jnorm u"
      "jenc_members (m # kvs) @ CHR ''}'' # x = jenc_members (m' # us) @ CHR ''}'' # y"
      by simp_all
    from 11(2) [OF *(3)] *(1,2) More n show ?thesis by simp
  qed
qed

corollary jenc_inj: "jenc v = jenc w \<Longrightarrow> jnorm v = jnorm w"
  using jenc_unique(1) [of v "[]" w "[]"] by simp

text \<open>Values all of whose strings are well-formed are determined by their encoding.\<close>

fun json_valid :: "json \<Rightarrow> bool" where
  "json_valid (JStr s) = validUtf8 s"
| "json_valid (JNum n) = True"
| "json_valid (JBool b) = True"
| "json_valid (JArr vs) = list_all json_valid vs"
| "json_valid (JObj kvs) = list_all (\<lambda>(k, v). validUtf8 k \<and> json_valid v) kvs"

lemma jnorm_valid: "json_valid v \<Longrightarrow> jnorm v = v"
proof (induction v rule: jnorm.induct)
  case (4 vs)
  then show ?case by (simp add: list_all_iff map_idI)
next
  case (5 kvs)
  then show ?case by (auto simp: list_all_iff toValidUtf8_id intro!: map_idI)
qed (simp_all add: toValidUtf8_id)

corollary jenc_valid_inj: "json_valid v \<Longrightarrow> json_valid w \<Longrightarrow> jenc v = jenc w \<longleftrightarrow> v = w"
  using jenc_inj [of v w] by (auto simp: jnorm_valid)

subsection \<open>Sizes\<close>

fun jweight :: "json \<Rightarrow> nat"
  and jweight_list :: "json list \<Rightarrow> nat"
  and jweight_members :: "(string \<times> json) list \<Rightarrow> nat" where
  "jweight (JStr s) = 6 * length s + 2"
| "jweight (JNum n) = length (dec n)"
| "jweight (JBool b) = 5"
| "jweight (JArr vs) = 2 + jweight_list vs"
| "jweight (JObj ms) = 2 + jweight_members ms"
| "jweight_list [] = 0"
| "jweight_list (v # vs) = jweight v + 1 + jweight_list vs"
| "jweight_members [] = 0"
| "jweight_members ((k, v) # ms) = 6 * length k + jweight v + 4 + jweight_members ms"

lemma length_esc_ascii: "length (esc_ascii c) \<le> 6"
  by (simp add: esc_ascii_def)

lemma length_jescape: "length (jescape s) \<le> 6 * length s"
proof (induction s rule: jescape.induct)
  case (2 c cs)
  show ?case
  proof (cases "byte_of c < 128")
    case True
    with 2(1) length_esc_ascii [of c] show ?thesis by simp
  next
    case False
    let ?k = "utf8_size (c # cs)"
    have k: "?k \<le> Suc (length cs)" using utf8_size_le [of "c # cs"] by simp
    have r: "length (esc_rune (take ?k (c # cs))) \<le> 6 * ?k"
      if "?k \<noteq> 0" using that k by (auto simp: esc_rune_def)
    show ?thesis
    proof (cases "?k = 0")
      case True
      with False 2 show ?thesis by simp
    next
      case nz: False
      have l: "6 * length (drop (?k - 1) cs) + 6 * ?k = 6 * Suc (length cs)" using nz k by simp
      from False nz 2 have "length (jescape (drop (?k - 1) cs)) \<le> 6 * length (drop (?k - 1) cs)" by (simp add: Let_def)
      with r [OF nz] l False nz show ?thesis by (simp add: Let_def)
    qed
  qed
qed simp

lemma length_jquote: "length (jquote s) \<le> 6 * length s + 2"
  using length_jescape [of s] by (simp add: jquote_def)

lemma length_jenc:
  "length (jenc v) \<le> jweight v" "length (jenc_list vs) \<le> jweight_list vs" "length (jenc_members ms) \<le> jweight_members ms"
proof (induction v and vs and ms rule: jenc_jenc_list_jenc_members.induct)
  case (1 s)
  then show ?case using length_jquote [of s] by simp
next
  case (10 k v)
  with length_jquote [of k] show ?case by simp
next
  case (11 k v m kvs)
  with length_jquote [of k] show ?case by (cases m) simp
qed auto

text \<open>One member of an object in context: the rest of the text does not depend on its value.\<close>

lemma jenc_member_context:
  "\<exists>pre post. \<forall>v. jenc (JObj (ms @ (k, v) # ns)) = pre @ jenc v @ post"
proof -
  have tail: "\<exists>post. \<forall>v. jenc_members ((k, v) # ns) = jquote k @ CHR '':'' # jenc v @ post"
    by (cases ns) auto
  have "\<exists>pre post. \<forall>v. jenc_members (ms @ (k, v) # ns) = pre @ jenc v @ post"
  proof (induction ms)
    case Nil
    from tail obtain post where "\<forall>v. jenc_members ((k, v) # ns) = (jquote k @ [CHR '':'']) @ jenc v @ post" by auto
    then show ?case unfolding append_Nil by blast
  next
    case (Cons m ms)
    obtain j w where m: "m = (j, w)" by force
    from Cons obtain pre post where IH: "\<And>v. jenc_members (ms @ (k, v) # ns) = pre @ jenc v @ post" by auto
    have "jenc_members ((m # ms) @ (k, v) # ns) = (jquote j @ CHR '':'' # jenc w @ CHR '','' # pre) @ jenc v @ post" for v
    proof -
      obtain x xs where "ms @ (k, v) # ns = x # xs" by (cases ms) auto
      then show ?thesis using IH [of v] by (simp add: m)
    qed
    then show ?case by blast
  qed
  then obtain pre post where "\<And>v. jenc_members (ms @ (k, v) # ns) = pre @ jenc v @ post" by blast
  then have "jenc (JObj (ms @ (k, v) # ns)) = (CHR ''{'' # pre) @ jenc v @ (post @ [CHR ''}''])" for v by simp
  then show ?thesis by blast
qed

lemma jenc_member_eq: "jenc (JObj (ms @ (k, JStr a) # ns)) = jenc (JObj (ms @ (k, JStr b) # ns)) \<longleftrightarrow> jescape a = jescape b"
proof -
  from jenc_member_context [of ms k ns] obtain pre post
    where "\<And>v. jenc (JObj (ms @ (k, v) # ns)) = pre @ jenc v @ post" by blast
  then show ?thesis by (simp add: jquote_def)
qed

end
