(* ===== verification/QC_Time.thy ===== *)
theory QC_Time
  imports QC_Json
begin

text \<open>
  Instants and their text form: \<^verbatim>\<open>t.UTC().Format(time.RFC3339Nano)\<close>, which the plan and audit
  digests are computed over, and \<^verbatim>\<open>t.Sub(u)\<close> with its saturation at the 64-bit duration bounds.
  The calendar arithmetic follows Go's \<^verbatim>\<open>absDate\<close> (400-, 100-, 4- and 1-year cycles). The main
  result is that the text form determines the instant (\<open>rfc3339nano_inj\<close>) for every time that
  JSON can carry from the zero time on, that is the years 1 to 9999.
\<close>

definition max_duration :: duration where "max_duration = 2 ^ 63 - 1"
definition min_duration :: duration where "min_duration = - (2 ^ 63)"

definition time_sub :: "gotime \<Rightarrow> gotime \<Rightarrow> duration" where
  "time_sub t u = max min_duration (min max_duration (t - u))"

lemma time_sub_gt: "0 \<le> d \<Longrightarrow> d < max_duration \<Longrightarrow> time_sub t u > d \<longleftrightarrow> t - u > d"
  by (auto simp: time_sub_def max_duration_def min_duration_def)

subsection \<open>Calendar\<close>

definition is_leap :: "int \<Rightarrow> bool" where
  "is_leap y \<longleftrightarrow> y mod 4 = 0 \<and> (y mod 100 \<noteq> 0 \<or> y mod 400 = 0)"

definition days_before :: "int list" where
  "days_before = [0, 31, 59, 90, 120, 151, 181, 212, 243, 273, 304, 334, 365]"

text \<open>Year and day of the year of a day number, day 0 being January 1 of year 1.\<close>

definition year_day :: "int \<Rightarrow> int \<times> int" where
  "year_day d =
     (let n400 = d div 146097; d1 = d mod 146097;
          n100 = min 3 (d1 div 36524); d2 = d1 - 36524 * n100;
          n4 = d2 div 1461; d3 = d2 mod 1461;
          n1 = min 3 (d3 div 365)
      in (400 * n400 + 100 * n100 + 4 * n4 + n1 + 1, d3 - 365 * n1))"

definition month_day :: "bool \<Rightarrow> int \<Rightarrow> int \<times> int" where
  "month_day leap yday =
     (if leap \<and> yday = 59 then (2, 29)
      else let day = (if leap \<and> yday > 59 then yday - 1 else yday);
               m = day div 31;
               end_m = days_before ! nat (m + 1)
           in if day \<ge> end_m then (m + 2, day - end_m + 1)
              else (m + 1, day - days_before ! nat m + 1))"

definition pad :: "nat \<Rightarrow> int \<Rightarrow> string" where
  "pad w n =
     (let s = dec (nat \<bar>n\<bar>) in (if n < 0 then ''-'' else '''') @ replicate (w - length s) (CHR ''0'') @ s)"

definition rstrip0 :: "string \<Rightarrow> string" where
  "rstrip0 s = rev (dropWhile (\<lambda>c. c = CHR ''0'') (rev s))"

definition frac :: "int \<Rightarrow> string" where
  "frac n = (if n = 0 then '''' else ''.'' @ rstrip0 (pad 9 n))"

definition rfc3339nano :: "gotime \<Rightarrow> string" where
  "rfc3339nano t =
     (let s = t div 1000000000; (y, yd) = year_day (s div 86400); (m, d) = month_day (is_leap y) yd;
          sod = s mod 86400
      in pad 4 y @ ''-'' @ pad 2 m @ ''-'' @ pad 2 d @ ''T'' @ pad 2 (sod div 3600) @ '':''
         @ pad 2 (sod div 60 mod 60) @ '':'' @ pad 2 (sod mod 60) @ frac (t mod 1000000000) @ ''Z'')"

subsection \<open>Padded numbers\<close>

lemma length_dec_le: "n < 10 ^ Suc k \<Longrightarrow> length (dec n) \<le> Suc k"
proof (induction k arbitrary: n)
  case 0
  then show ?case by (subst dec.simps) simp
next
  case (Suc k)
  show ?case
  proof (cases "n < 10")
    case True
    then show ?thesis by (subst dec.simps) simp
  next
    case False
    from Suc.prems have "n div 10 < 10 ^ Suc k" by (simp add: less_mult_imp_div_less mult.commute)
    with Suc.IH have "length (dec (n div 10)) \<le> Suc k" .
    with False show ?thesis by (subst dec.simps) simp
  qed
qed

lemma length_pad: "0 \<le> n \<Longrightarrow> n < 10 ^ Suc k \<Longrightarrow> length (pad (Suc k) n) = Suc k"
proof -
  assume n: "0 \<le> n" "n < 10 ^ Suc k"
  then have "int (nat n) < int (10 ^ Suc k)" by simp
  then have "nat n < 10 ^ Suc k" by (simp only: of_nat_less_iff)
  from length_dec_le [OF this] n show ?thesis by (simp add: pad_def Let_def)
qed

lemma undec_replicate: "undec (replicate k (CHR ''0'') @ s) = undec s"
  by (induction k) (simp_all add: undec_def)

lemma pad_inj: "0 \<le> m \<Longrightarrow> 0 \<le> n \<Longrightarrow> pad w m = pad w n \<Longrightarrow> m = n"
proof -
  assume "0 \<le> m" "0 \<le> n" "pad w m = pad w n"
  then have "undec (dec (nat m)) = undec (dec (nat n))"
    by (simp add: pad_def Let_def) (metis undec_replicate)
  with \<open>0 \<le> m\<close> \<open>0 \<le> n\<close> show "m = n" by (simp add: undec_dec)
qed

lemma rstrip0_split: "\<exists>k. s = rstrip0 s @ replicate k (CHR ''0'')"
proof -
  have "rev s = takeWhile (\<lambda>c. c = CHR ''0'') (rev s) @ dropWhile (\<lambda>c. c = CHR ''0'') (rev s)"
    by simp
  then have "s = rstrip0 s @ rev (takeWhile (\<lambda>c. c = CHR ''0'') (rev s))"
    unfolding rstrip0_def by (metis rev_append rev_rev_ident)
  moreover have "takeWhile (\<lambda>c. c = CHR ''0'') t = replicate (length (takeWhile (\<lambda>c. c = CHR ''0'') t)) (CHR ''0'')"
    for t by (induction t) auto
  ultimately show ?thesis by (metis rev_replicate)
qed

lemma rstrip0_inj:
  assumes "length s = length t" "rstrip0 s = rstrip0 t"
  shows "s = t"
proof -
  obtain k l where k: "s = rstrip0 s @ replicate k (CHR ''0'')" and l: "t = rstrip0 t @ replicate l (CHR ''0'')"
    using rstrip0_split by blast
  have "length s = length (rstrip0 s) + k" "length t = length (rstrip0 t) + l"
    by (subst k, simp) (subst l, simp)
  with assms have "k = l" by simp
  with k l assms(2) show ?thesis by metis
qed

lemma frac_inj:
  assumes "0 \<le> m" "m < 10 ^ 9" "0 \<le> n" "n < 10 ^ 9" "frac m @ ''Z'' = frac n @ ''Z''"
  shows "m = n"
proof -
  from assms(5) have f: "frac m = frac n" by simp
  have "length (pad (Suc 8) m) = Suc 8" "length (pad (Suc 8) n) = Suc 8"
    by (rule length_pad; use assms in simp)+
  then have l: "length (pad 9 m) = length (pad 9 n)" by simp
  show ?thesis
  proof (cases "m = 0 \<or> n = 0")
    case True
    with f show ?thesis by (auto simp: frac_def split: if_splits)
  next
    case False
    with f have "rstrip0 (pad 9 m) = rstrip0 (pad 9 n)" by (simp add: frac_def)
    with l have "pad 9 m = pad 9 n" by (rule rstrip0_inj)
    with assms show ?thesis by (metis pad_inj)
  qed
qed

subsection \<open>The calendar is injective\<close>

text \<open>The day number from the cycles.\<close>

lemma year_day_props:
  assumes "year_day d = (y, yd)"
  shows "d = 365 * (y - 1) + (y - 1) div 4 - (y - 1) div 100 + (y - 1) div 400 + yd"
    and "0 \<le> yd" and "yd < (if is_leap y then 366 else 365)"
    and "0 \<le> d \<Longrightarrow> 1 \<le> y" and "d < 3652059 \<Longrightarrow> y \<le> 9999"
proof -
  define a d1 where "a = d div 146097" and "d1 = d mod 146097"
  define b where "b = min 3 (d1 div 36524)"
  define d2 where "d2 = d1 - 36524 * b"
  define c d3 where "c = d2 div 1461" and "d3 = d2 mod 1461"
  define e where "e = min 3 (d3 div 365)"
  note defs = a_def d1_def b_def d2_def c_def d3_def e_def
  have y: "y - 1 = 400 * a + 100 * b + 4 * c + e" and yd: "yd = d3 - 365 * e"
    using assms unfolding year_day_def Let_def
    unfolding a_def [symmetric] d1_def [symmetric] unfolding b_def [symmetric] unfolding d2_def [symmetric]
    unfolding c_def [symmetric] d3_def [symmetric] unfolding e_def [symmetric] by auto
  have d1: "d = 146097 * a + d1" "0 \<le> d1" "d1 < 146097" by (simp_all add: defs)
  have b: "0 \<le> b" "b \<le> 3" "0 \<le> d2" "d2 \<le> 36524" "b < 3 \<longrightarrow> d2 < 36524"
    using d1(2,3) unfolding b_def d2_def by linarith+
  have d3: "d2 = 1461 * c + d3" "0 \<le> d3" "d3 < 1461" by (simp_all add: defs)
  with b have c: "0 \<le> c" "c \<le> 24" by linarith+
  have e: "0 \<le> e" "e \<le> 3" "0 \<le> yd" "yd \<le> 365" "yd = 365 \<longrightarrow> e = 3 \<and> d3 = 1460"
    using d3(2,3) unfolding e_def yd by linarith+
  have q: "(y - 1) div 4 = 100 * a + 25 * b + c" "(y - 1) div 100 = 4 * a + b" "(y - 1) div 400 = a"
    using y b c e by linarith+
  have "d = 146097 * a + 36524 * b + 1461 * c + 365 * e + yd"
    using d1(1) d3(1) by (simp add: yd d2_def)
  note d_eq = this
  then show "d = 365 * (y - 1) + (y - 1) div 4 - (y - 1) div 100 + (y - 1) div 400 + yd"
    unfolding q unfolding y by simp
  show "0 \<le> yd" by (rule e)
  show "1 \<le> y" if "0 \<le> d"
  proof -
    have "0 \<le> a" using that by (simp add: a_def pos_imp_zdiv_nonneg_iff)
    with y b c e show ?thesis by linarith
  qed
  show "y \<le> 9999" if "d < 3652059"
  proof (rule ccontr)
    assume "\<not> y \<le> 9999"
    then have big: "9999 \<le> 400 * a + 100 * b + 4 * c + e" using y by linarith
    with b c e have "24 \<le> a" by linarith
    then consider "a = 24" | "25 \<le> a" by linarith
    then show False
    proof cases
      case 1
      with big b c e have "b = 3" "c = 24" "e = 3" by linarith+
      with 1 d_eq e that show False by simp
    next
      case 2
      with d_eq b c e that show False by linarith
    qed
  qed
  show "yd < (if is_leap y then 366 else 365)"
  proof (cases "yd = 365")
    case True
    with e have e3: "e = 3" "d3 = 1460" by simp_all
    have y4: "y = 400 * a + 100 * b + 4 * (c + 1)" using y e3 by simp
    have "is_leap y"
    proof (cases "c = 24")
      case True
      with d3(1) e3 b have "b = 3" by auto
      with y4 True have "y = 400 * (a + 1)" by simp
      then show ?thesis by (simp add: is_leap_def)
    next
      case False
      from y4 have "y = 4 * (100 * a + 25 * b + c + 1)" by simp
      then have "y mod 4 = 0" by (metis mod_mult_self1_is_0)
      moreover have "y mod 100 = 4 * (c + 1)"
      proof -
        from y4 have "y = 4 * (c + 1) + 100 * (4 * a + b)" by simp
        then have "y mod 100 = 4 * (c + 1) mod 100" by (metis mod_mult_self2)
        with c False show ?thesis by simp
      qed
      ultimately show ?thesis using c by (simp add: is_leap_def)
    qed
    with True show ?thesis by simp
  next
    case False
    with e show ?thesis by auto
  qed
qed

lemma month_day_inv:
  assumes "0 \<le> yd" "yd < (if leap then 366 else 365)" "month_day leap yd = (m, d)"
  shows "1 \<le> m \<and> m \<le> 12 \<and> 1 \<le> d \<and> d \<le> 31 \<and>
    yd = days_before ! nat (m - 1) + d - 1 + (if leap \<and> m > 2 then 1 else 0)"
proof (cases "leap \<and> yd = 59")
  case True
  with assms show ?thesis by (auto simp: month_day_def days_before_def)
next
  case False
  define day where "day = (if leap \<and> yd > 59 then yd - 1 else yd)"
  define k where "k = day div 31"
  have day: "0 \<le> day" "day < 365" using assms(1,2) False by (auto simp: day_def split: if_splits)
  then have k: "0 \<le> k" "k \<le> 11" "31 * k \<le> day" "day < 31 * k + 31"
    unfolding k_def by linarith+
  have md: "month_day leap yd = (if day \<ge> days_before ! nat (k + 1) then (k + 2, day - days_before ! nat (k + 1) + 1)
      else (k + 1, day - days_before ! nat k + 1))"
    unfolding month_day_def Let_def if_not_P [OF False] day_def [symmetric] k_def [symmetric] by (rule refl)
  have yd: "yd = day + (if leap \<and> day \<ge> 59 then 1 else 0)"
    using False by (auto simp: day_def split: if_splits)
  have "k \<in> set [0..11]" using k(1,2) by simp
  then have "k \<in> {0, 1, 2, 3, 4, 5, 6, 7, 8, 9, 10, 11}" by (simp add: upto.simps)
  then show ?thesis
    using md assms(3) k(3,4) day yd
    by (elim insertE emptyE) (auto simp: days_before_def nat_add_distrib split: if_splits)
qed

subsection \<open>The text form determines the instant\<close>

definition json_time :: "gotime \<Rightarrow> bool" where
  "json_time t \<longleftrightarrow> 0 \<le> t \<and> t < 3652059 * 86400 * 1000000000"

lemma append_inj: "length a = length b \<Longrightarrow> a @ x = b @ y \<Longrightarrow> a = b \<and> x = y"
  by simp

lemma pad_step:
  assumes "0 \<le> m" "m < 10 ^ Suc k" "0 \<le> n" "n < 10 ^ Suc k" "pad (Suc k) m @ x = pad (Suc k) n @ y"
  shows "m = n \<and> x = y"
proof -
  have "length (pad (Suc k) m) = length (pad (Suc k) n)"
    using assms by (simp add: length_pad)
  with assms(5) have "pad (Suc k) m = pad (Suc k) n" "x = y" by auto
  with assms pad_inj show ?thesis by blast
qed

lemma div_mod_inj: "x div k = y div k \<Longrightarrow> x mod k = y mod k \<Longrightarrow> x = y" for x y k :: int
  by (metis div_mult_mod_eq)

lemma clock_inj:
  assumes "(s::int) div 3600 = r div 3600" "s div 60 mod 60 = r div 60 mod 60" "s mod 60 = r mod 60"
  shows "s = r"
proof -
  have "x div 3600 = x div 60 div 60" for x :: int by (simp add: zdiv_zmult2_eq [of 60 x 60, symmetric])
  with assms(1,2) have "s div 60 = r div 60" by (metis div_mod_inj)
  with assms(3) show ?thesis by (metis div_mod_inj)
qed

lemma date_inj:
  assumes "year_day d = (y, yd)" "month_day (is_leap y) yd = md"
    and "year_day e = (y, yd')" "month_day (is_leap y) yd' = md"
  shows "d = e"
proof -
  obtain m k where md: "md = (m, k)" by (cases md)
  have "yd = yd'"
    using month_day_inv [OF year_day_props(2,3) [OF assms(1)], of m k]
      month_day_inv [OF year_day_props(2,3) [OF assms(3)], of m k] assms(2,4) md by simp
  then show ?thesis using year_day_props(1) [OF assms(1)] year_day_props(1) [OF assms(3)] by simp
qed

theorem rfc3339nano_inj:
  assumes "json_time t" "json_time u" "rfc3339nano t = rfc3339nano u"
  shows "t = u"
proof -
  let ?s = "t div 1000000000 mod 86400" and ?r = "u div 1000000000 mod 86400"
  obtain y yd m d where t: "year_day (t div 1000000000 div 86400) = (y, yd)" "month_day (is_leap y) yd = (m, d)"
    by (metis surj_pair)
  obtain y' yd' m' d' where u: "year_day (u div 1000000000 div 86400) = (y', yd')" "month_day (is_leap y') yd' = (m', d')"
    by (metis surj_pair)
  have day: "0 \<le> v div 1000000000 div 86400" "v div 1000000000 div 86400 < 3652059" if "json_time v" for v
    using that by (auto simp: json_time_def)
  have y: "0 \<le> y" "y < 10 ^ Suc 3" "0 \<le> y'" "y' < 10 ^ Suc 3"
    using year_day_props(4,5) [OF t(1)] year_day_props(4,5) [OF u(1)] day assms(1,2) by simp_all
  have md: "0 \<le> m" "m < 10 ^ Suc 1" "0 \<le> m'" "m' < 10 ^ Suc 1" "0 \<le> d" "d < 10 ^ Suc 1" "0 \<le> d'" "d' < 10 ^ Suc 1"
    using month_day_inv [OF year_day_props(2,3) [OF t(1)] t(2)] month_day_inv [OF year_day_props(2,3) [OF u(1)] u(2)]
    by simp_all
  have hms: "0 \<le> x div 3600" "x div 3600 < 10 ^ Suc 1" "0 \<le> x div 60 mod 60" "x div 60 mod 60 < 10 ^ Suc 1"
      "0 \<le> x mod 60" "x mod 60 < 10 ^ Suc 1" if "0 \<le> x" "x < 86400" for x :: int
    using that pos_mod_bound [of 60 "x div 60"] pos_mod_bound [of 60 x] by (auto simp: pos_imp_zdiv_nonneg_iff)
  have s: "0 \<le> ?s" "?s < 86400" "0 \<le> ?r" "?r < 86400" by simp_all
  have "pad (Suc 3) y @ ''-'' @ pad (Suc 1) m @ ''-'' @ pad (Suc 1) d @ ''T'' @ pad (Suc 1) (?s div 3600) @ '':''
         @ pad (Suc 1) (?s div 60 mod 60) @ '':'' @ pad (Suc 1) (?s mod 60) @ frac (t mod 1000000000) @ ''Z''
      = pad (Suc 3) y' @ ''-'' @ pad (Suc 1) m' @ ''-'' @ pad (Suc 1) d' @ ''T'' @ pad (Suc 1) (?r div 3600) @ '':''
         @ pad (Suc 1) (?r div 60 mod 60) @ '':'' @ pad (Suc 1) (?r mod 60) @ frac (u mod 1000000000) @ ''Z''"
    using assms(3) t u by (simp add: rfc3339nano_def Let_def numeral_2_eq_2 eval_nat_numeral)
  note E1 = pad_step [OF y this]
  note E2 = pad_step [OF md(1-4) E1 [THEN conjunct2, unfolded append_Cons append_Nil list.inject, THEN conjunct2]]
  note E3 = pad_step [OF md(5-8) E2 [THEN conjunct2, unfolded append_Cons append_Nil list.inject, THEN conjunct2]]
  note E4 = pad_step [OF hms(1,2) [OF s(1,2)] hms(1,2) [OF s(3,4)] E3 [THEN conjunct2, unfolded append_Cons append_Nil list.inject, THEN conjunct2]]
  note E5 = pad_step [OF hms(3,4) [OF s(1,2)] hms(3,4) [OF s(3,4)] E4 [THEN conjunct2, unfolded append_Cons append_Nil list.inject, THEN conjunct2]]
  note E6 = pad_step [OF hms(5,6) [OF s(1,2)] hms(5,6) [OF s(3,4)] E5 [THEN conjunct2, unfolded append_Cons append_Nil list.inject, THEN conjunct2]]
  have sec: "?s = ?r" using clock_inj E4 E5 E6 by blast
  have "frac (t mod 1000000000) @ ''Z'' = frac (u mod 1000000000) @ ''Z''" using E6 by blast
  then have nano: "t mod 1000000000 = u mod 1000000000" by (intro frac_inj) simp_all
  note eq = E1 [THEN conjunct1] E2 [THEN conjunct1] E3 [THEN conjunct1]
  have "year_day (u div 1000000000 div 86400) = (y, yd')" "month_day (is_leap y) yd' = (m, d)"
    unfolding eq by (rule u)+
  with t have date: "t div 1000000000 div 86400 = u div 1000000000 div 86400" by (metis date_inj)
  from date sec have "t div 1000000000 = u div 1000000000" by (rule div_mod_inj)
  from this nano show ?thesis by (rule div_mod_inj)
qed

subsection \<open>The text of an instant is ASCII\<close>

lemma list_all_pad: "list_all ascii (pad w n)"
proof -
  have "list_all ascii (dec k)" for k
    using dec_digits [of k] by (auto simp: list_all_iff ascii_def is_digit_def in_range_def)
  then show ?thesis by (auto simp: pad_def Let_def list_all_iff ascii_def)
qed

lemma list_all_frac: "list_all ascii (frac n)"
proof -
  have "set (rstrip0 s) \<subseteq> set s" for s
    using set_dropWhileD [of _ _ "rev s"] by (auto simp: rstrip0_def)
  then show ?thesis using list_all_pad [of 9 n] by (auto simp: frac_def list_all_iff ascii_def)
qed

lemma rfc3339nano_ascii: "list_all ascii (rfc3339nano t)"
  using list_all_pad list_all_frac
  by (simp add: rfc3339nano_def Let_def split: prod.splits) (simp add: ascii_def)

lemma rfc3339nano_utf8 [simp]: "validUtf8 (rfc3339nano t)"
  by (simp add: validUtf8_ascii rfc3339nano_ascii)

end
