(* ===== verification/QC_Plans.thy ===== *)
theory QC_Plans
  imports QC_Actors QC_Json QC_Time "HOL-Library.Multiset"
begin

text \<open>
  The protocol types exchanged with the broker (\<^verbatim>\<open>internal/protocol/types.go\<close>) and immutable operation
  plans (\<^verbatim>\<open>internal/security/plan.go\<close>): building a plan, its canonical JSON digest, and the expiring
  plan cache of the control server.

  Randomness and the clock are arguments: \<open>rnd\<close> is what \<^verbatim>\<open>rand.Read\<close> delivered (\<open>None\<close> when it
  failed) and \<open>now\<close> what \<^verbatim>\<open>time.Now\<close> returned. \<^verbatim>\<open>json.Marshal\<close> of the canonical structures cannot
  fail (they hold strings, booleans, numbers, arrays and objects only), so \<open>planDigest\<close> is total.
  A digest is the concrete SHA-256 of the concrete JSON text, so "bound by the digest" is stated as:
  equal, or here are two texts that form a SHA-256 collision.
\<close>

subsection \<open>Protocol types\<close>

definition RiskReadOnly :: string where "RiskReadOnly = ''read-only''"
definition RiskLow :: string where "RiskLow = ''low''"
definition RiskHigh :: string where "RiskHigh = ''high''"
definition RiskDestructive :: string where "RiskDestructive = ''destructive''"

record parameter_definition =
  pd_name :: string
  pd_description :: string
  pd_required :: bool
  pd_pattern :: string
  pd_allowed_values :: "string list option"

record operation_definition =
  def_action :: string
  def_summary :: string
  def_risk :: string
  def_requires_confirmation :: bool
  def_implemented :: bool
  def_parameters :: "parameter_definition list"

record operation_request =
  req_id :: string
  req_action :: string
  req_actor :: string
  req_parameters :: smap
  req_confirmation :: string

record problem =
  prob_code :: string
  prob_message :: string

record operation_response =
  resp_request_id :: string
  resp_action :: string
  resp_status :: string
  resp_risk :: string
  resp_started_at :: gotime
  resp_finished_at :: gotime
  resp_audit_id :: string
  resp_result :: anymap
  resp_error :: "problem option"

record broker_plan =
  bp_request :: operation_request
  bp_definition :: operation_definition
  bp_valid :: bool
  bp_requires_confirmation :: bool
  bp_warnings :: "string list"
  bp_error :: "problem option"

subsection \<open>Security plans\<close>

definition PlanSchema :: string where "PlanSchema = ''quantum.control/operation-plan/v1alpha1''"

record parameter =
  param_name :: string
  param_value :: string

record operation_plan =
  plan_schema :: string
  plan_id :: string
  plan_digest :: string
  plan_request_id :: string
  plan_session_id :: string
  plan_actor :: actor
  plan_action :: string
  plan_parameters :: "parameter list"
  plan_risk :: string
  plan_requires_confirmation :: bool
  plan_valid :: bool
  plan_created_at :: gotime
  plan_expires_at :: gotime
  plan_error_code :: string

text \<open>\<^verbatim>\<open>%d\<close> of an integer, and nanoseconds since the Unix epoch.\<close>

definition printInt :: "int \<Rightarrow> string" where
  "printInt n = (if n < 0 then ''-'' @ dec (nat (- n)) else dec (nat n))"

definition unixNano :: "gotime \<Rightarrow> int" where
  "unixNano t = t - 62135596800 * second"

definition newSecurityID :: "string \<Rightarrow> bytes option \<Rightarrow> gotime \<Rightarrow> string" where
  "newSecurityID pre rnd now =
     (case rnd of None \<Rightarrow> pre @ ''-'' @ printInt (unixNano now) | Some v \<Rightarrow> pre @ ''-'' @ hexEncode v)"

definition clonePlan :: "operation_plan \<Rightarrow> operation_plan" where
  "clonePlan p = p\<lparr>plan_actor := cloneActor (plan_actor p), plan_parameters := [] @ plan_parameters p\<rparr>"

definition canonicalParameter :: "parameter \<Rightarrow> json" where
  "canonicalParameter p = JObj [(''name'', JStr (param_name p)), (''value'', JStr (param_value p))]"

text \<open>
  \<^verbatim>\<open>sort.Slice\<close> promises no order for equal names; the model keeps it, as the insertion sort used for up to twelve elements does.
\<close>

definition canonicalPlan :: "operation_plan \<Rightarrow> json" where
  "canonicalPlan p = JObj
     ([(''schema'', JStr (plan_schema p)),
       (''id'', JStr (plan_id p)),
       (''request_id'', JStr (plan_request_id p)),
       (''session_id'', JStr (plan_session_id p)),
       (''actor_id'', JStr (actor_id (plan_actor p))),
       (''actor_kind'', JStr (kind (plan_actor p))),
       (''action'', JStr (plan_action p)),
       (''parameters'', JArr (map canonicalParameter (sort_key param_name (plan_parameters p)))),
       (''risk'', JStr (plan_risk p)),
       (''requires_confirmation'', JBool (plan_requires_confirmation p)),
       (''valid'', JBool (plan_valid p)),
       (''created_at'', JStr (rfc3339nano (plan_created_at p))),
       (''expires_at'', JStr (rfc3339nano (plan_expires_at p)))] @
      (if plan_error_code p = [] then [] else [(''error_code'', JStr (plan_error_code p))]))"

definition planDigest :: "operation_plan \<Rightarrow> string" where
  "planDigest p = sha256_hex (jenc (canonicalPlan p))"

definition verifyPlanDigest :: "operation_plan \<Rightarrow> bool" where
  "verifyPlanDigest p =
     (let expected = planDigest p in
      if length expected \<noteq> length (plan_digest p) then False else equalFold expected (plan_digest p))"

datatype plan_error = PlanActorRequired

text \<open>The plan as assembled, before its digest is set.\<close>

definition draftPlan :: "duration \<Rightarrow> gotime \<Rightarrow> bytes option \<Rightarrow> actor \<Rightarrow> string \<Rightarrow> broker_plan \<Rightarrow> operation_plan" where
  "draftPlan ttl now rnd a sessionID bp =
     \<lparr>plan_schema = PlanSchema, plan_id = newSecurityID ''plan'' rnd now, plan_digest = [],
      plan_request_id = req_id (bp_request bp), plan_session_id = trimSpace sessionID,
      plan_actor = cloneActor a, plan_action = trimSpace (req_action (bp_request bp)),
      plan_parameters = sort_key param_name
        (map (\<lambda>(name, v). \<lparr>param_name = name, param_value = v\<rparr>) (req_parameters (bp_request bp))),
      plan_risk = def_risk (bp_definition bp),
      plan_requires_confirmation = bp_requires_confirmation bp, plan_valid = bp_valid bp,
      plan_created_at = now, plan_expires_at = now + ttl,
      plan_error_code = (case bp_error bp of None \<Rightarrow> [] | Some e \<Rightarrow> prob_code e)\<rparr>"

definition buildPlan ::
  "duration \<Rightarrow> gotime \<Rightarrow> bytes option \<Rightarrow> actor \<Rightarrow> string \<Rightarrow> broker_plan \<Rightarrow> plan_error + operation_plan" where
  "buildPlan ttl0 now rnd a sessionID bp =
     (let ttl = (if ttl0 \<le> 0 then 5 * minute else ttl0) in
      if trimSpace (actor_id a) = [] then Inl PlanActorRequired
      else
        (let plan = draftPlan ttl now rnd a sessionID bp
         in Inr (plan\<lparr>plan_digest := planDigest plan\<rparr>)))"

definition planParametersMap :: "operation_plan \<Rightarrow> smap" where
  "planParametersMap p = foldl (\<lambda>m q. AList.update (param_name q) (param_value q) m) [] (plan_parameters p)"

subsection \<open>The plan cache\<close>

type_synonym plan_cache = "(string \<times> operation_plan) list"

definition newPlanCache :: plan_cache where "newPlanCache = []"

definition purgeExpired :: "gotime \<Rightarrow> plan_cache \<Rightarrow> plan_cache" where
  "purgeExpired now c = filter (\<lambda>(i, p). plan_expires_at p > now) c"

definition cachePut :: "gotime \<Rightarrow> operation_plan \<Rightarrow> plan_cache \<Rightarrow> plan_cache" where
  "cachePut now p c = AList.update (plan_id p) (clonePlan p) (purgeExpired now c)"

definition cacheGet :: "gotime \<Rightarrow> string \<Rightarrow> plan_cache \<Rightarrow> operation_plan option \<times> plan_cache" where
  "cacheGet now i c =
     (let c' = purgeExpired now c in
      case map_of c' i of None \<Rightarrow> (None, c') | Some p \<Rightarrow> (Some (clonePlan p), c'))"

subsection \<open>Digests\<close>

lemma clonePlan_id [simp]: "clonePlan p = p"
  by (simp add: clonePlan_def)

lemma planDigest_ignores [simp]: "planDigest (p\<lparr>plan_digest := d\<rparr>) = planDigest p"
  by (simp add: planDigest_def canonicalPlan_def)

lemma length_planDigest [simp]: "length (planDigest p) = 64"
  by (simp add: planDigest_def)

lemma verifyPlanDigest_iff:
  "verifyPlanDigest p \<longleftrightarrow> length (plan_digest p) = 64 \<and> equalFold (planDigest p) (plan_digest p)"
  by (auto simp: verifyPlanDigest_def Let_def)

lemma verify_own_digest [simp]: "verifyPlanDigest (p\<lparr>plan_digest := planDigest p\<rparr>)"
  by (simp add: verifyPlanDigest_iff)

text \<open>The fields a digest binds, and the part of them that survives JSON encoding unchanged.\<close>

definition digested_fields where
  "digested_fields p =
     (plan_schema p, plan_id p, plan_request_id p, plan_session_id p, actor_id (plan_actor p), kind (plan_actor p),
      plan_action p, sort_key param_name (plan_parameters p), plan_risk p, plan_requires_confirmation p, plan_valid p,
      plan_created_at p, plan_expires_at p, plan_error_code p)"

definition parameter_text_ok :: "parameter \<Rightarrow> bool" where
  "parameter_text_ok q \<longleftrightarrow> validUtf8 (param_name q) \<and> validUtf8 (param_value q)"

definition plan_text_ok :: "operation_plan \<Rightarrow> bool" where
  "plan_text_ok p \<longleftrightarrow>
     validUtf8 (plan_schema p) \<and> validUtf8 (plan_id p) \<and> validUtf8 (plan_request_id p) \<and>
     validUtf8 (plan_session_id p) \<and> validUtf8 (actor_id (plan_actor p)) \<and> validUtf8 (kind (plan_actor p)) \<and>
     validUtf8 (plan_action p) \<and> list_all parameter_text_ok (plan_parameters p) \<and> validUtf8 (plan_risk p) \<and>
     json_time (plan_created_at p) \<and> json_time (plan_expires_at p) \<and> validUtf8 (plan_error_code p)"

lemma validUtf8_ascii_Cons: "byte_of c < 128 \<Longrightarrow> validUtf8 (c # cs) = validUtf8 cs"
  by (simp add: utf8_size_def)

declare validUtf8.simps(2) [simp del]
lemmas utf8_literal = validUtf8_ascii_Cons validUtf8.simps(1)

lemma canonicalPlan_valid: "plan_text_ok p \<Longrightarrow> json_valid (canonicalPlan p)"
  by (simp add: canonicalPlan_def plan_text_ok_def canonicalParameter_def list_all_iff parameter_text_ok_def
      utf8_literal)

lemma canonicalParameter_inj: "canonicalParameter q = canonicalParameter r \<Longrightarrow> q = r"
  by (simp add: canonicalParameter_def)

lemma canonicalPlan_inj:
  assumes "plan_text_ok p" "plan_text_ok q" "canonicalPlan p = canonicalPlan q"
  shows "digested_fields p = digested_fields q"
proof -
  have "map canonicalParameter (sort_key param_name (plan_parameters p)) =
      map canonicalParameter (sort_key param_name (plan_parameters q)) \<Longrightarrow>
      sort_key param_name (plan_parameters p) = sort_key param_name (plan_parameters q)"
    by (rule map_injective) (auto intro: injI canonicalParameter_inj)
  moreover have "plan_created_at p = plan_created_at q" "plan_expires_at p = plan_expires_at q"
    using assms by (auto simp: canonicalPlan_def plan_text_ok_def intro!: rfc3339nano_inj)
  ultimately show ?thesis
    using assms(3) by (simp add: canonicalPlan_def digested_fields_def split: if_splits)
qed

lemma planDigest_binds:
  assumes "plan_text_ok p" "plan_text_ok q" "equalFold (planDigest p) (planDigest q)"
  shows "digested_fields p = digested_fields q \<or> sha_collision (jenc (canonicalPlan p)) (jenc (canonicalPlan q))"
proof -
  from assms(3) have "jenc (canonicalPlan p) = jenc (canonicalPlan q) \<or>
      sha_collision (jenc (canonicalPlan p)) (jenc (canonicalPlan q))"
    by (simp add: planDigest_def sha256_hex_fold)
  with assms(1,2) show ?thesis
    by (auto simp: jenc_valid_inj canonicalPlan_valid dest: canonicalPlan_inj)
qed

lemma canonicalPlan_fields:
  "digested_fields p = digested_fields q \<Longrightarrow> canonicalPlan p = canonicalPlan q"
  by (simp add: digested_fields_def canonicalPlan_def)

subsection \<open>Building\<close>

lemma draftPlan_sel [simp]:
  "plan_schema (draftPlan ttl now rnd a sid bp) = PlanSchema" "plan_actor (draftPlan ttl now rnd a sid bp) = a"
  "plan_id (draftPlan ttl now rnd a sid bp) = newSecurityID ''plan'' rnd now"
  "plan_created_at (draftPlan ttl now rnd a sid bp) = now"
  "plan_expires_at (draftPlan ttl now rnd a sid bp) = now + ttl"
  by (simp_all add: draftPlan_def)

lemma buildPlan_Inr:
  "buildPlan ttl now rnd a sid bp = Inr p \<longleftrightarrow> trimSpace (actor_id a) \<noteq> [] \<and>
     p = (let d = draftPlan (if ttl \<le> 0 then 5 * minute else ttl) now rnd a sid bp in d\<lparr>plan_digest := planDigest d\<rparr>)"
  by (auto simp: buildPlan_def Let_def)

lemma buildPlan_verifies: "buildPlan ttl now rnd a sid bp = Inr p \<Longrightarrow> verifyPlanDigest p \<and> plan_digest p = planDigest p"
  by (auto simp: buildPlan_Inr Let_def verifyPlanDigest_iff)

lemma map_of_foldl_update:
  "map_of (foldl (\<lambda>m q. AList.update (param_name q) (param_value q) m) m ps) =
     map_of m ++ map_of (rev (map (\<lambda>q. (param_name q, param_value q)) ps))"
proof (induction ps arbitrary: m)
  case (Cons q ps)
  have "(map_of m)(param_name q \<mapsto> param_value q) = map_of m ++ [param_name q \<mapsto> param_value q]" by simp
  then show ?case unfolding foldl_Cons Cons.IH by (simp del: map_add_upd)
qed simp

lemma map_of_planParametersMap:
  assumes "distinct (map param_name (plan_parameters p))"
  shows "map_of (planParametersMap p) = map_of (map (\<lambda>q. (param_name q, param_value q)) (plan_parameters p))"
proof -
  have "distinct (map fst (map (\<lambda>q. (param_name q, param_value q)) (plan_parameters p)))"
    using assms by (simp add: comp_def)
  then have "map_of (rev (map (\<lambda>q. (param_name q, param_value q)) (plan_parameters p))) =
      map_of (map (\<lambda>q. (param_name q, param_value q)) (plan_parameters p))"
    by (subst map_of_inject_set) (simp_all add: rev_map [symmetric])
  then show ?thesis by (simp add: planParametersMap_def map_of_foldl_update)
qed

subsection \<open>The interface of an expiring store\<close>

text \<open>
  The control server only stores plans and looks them up later. The laws it relies on: a lookup finds
  what was last stored under that key and only until it expires, and looking up changes no later
  answer although both operations purge.
\<close>

datatype 'v store_op = StorePut gotime 'v | StoreGet gotime string

fun op_time :: "'v store_op \<Rightarrow> gotime" where
  "op_time (StorePut t v) = t"
| "op_time (StoreGet t k) = t"

fun run_store ::
  "(gotime \<Rightarrow> 'v \<Rightarrow> 's \<Rightarrow> 's) \<Rightarrow> (gotime \<Rightarrow> string \<Rightarrow> 's \<Rightarrow> 'v option \<times> 's) \<Rightarrow> 'v store_op list \<Rightarrow> 's \<Rightarrow> 's" where
  "run_store put get [] s = s"
| "run_store put get (StorePut t v # ops) s = run_store put get ops (put t v s)"
| "run_store put get (StoreGet t k # ops) s = run_store put get ops (snd (get t k s))"

fun last_put :: "('v \<Rightarrow> string) \<Rightarrow> string \<Rightarrow> 'v store_op list \<Rightarrow> 'v option" where
  "last_put key k [] = None"
| "last_put key k (StorePut t v # ops) =
     (case last_put key k ops of Some w \<Rightarrow> Some w | None \<Rightarrow> if key v = k then Some v else None)"
| "last_put key k (StoreGet t j # ops) = last_put key k ops"

locale expiring_store =
  fixes invar :: "'s \<Rightarrow> bool"
    and put :: "gotime \<Rightarrow> 'v \<Rightarrow> 's \<Rightarrow> 's"
    and get :: "gotime \<Rightarrow> string \<Rightarrow> 's \<Rightarrow> 'v option \<times> 's"
    and key :: "'v \<Rightarrow> string" and expiry :: "'v \<Rightarrow> gotime"
  assumes put_invar: "invar s \<Longrightarrow> invar (put t v s)"
    and get_invar: "invar s \<Longrightarrow> invar (snd (get t k s))"
    and get_put_same: "invar s \<Longrightarrow> fst (get u (key v) (put t v s)) = (if u < expiry v then Some v else None)"
    and get_put_other: "invar s \<Longrightarrow> t \<le> u \<Longrightarrow> k \<noteq> key v \<Longrightarrow> fst (get u k (put t v s)) = fst (get u k s)"
    and get_get: "invar s \<Longrightarrow> t \<le> u \<Longrightarrow> fst (get u k (snd (get t j s))) = fst (get u k s)"
begin

lemma lookup_after_run:
  assumes "invar s" "\<forall>x \<in> set ops. op_time x \<le> u"
  shows "fst (get u k (run_store put get ops s)) =
    (case last_put key k ops of
       Some v \<Rightarrow> if u < expiry v then Some v else None
     | None \<Rightarrow> fst (get u k s))"
  using assms
proof (induction ops arbitrary: s)
  case (Cons x ops)
  show ?case
  proof (cases x)
    case (StorePut t v)
    with Cons.prems Cons.IH [of "put t v s"] show ?thesis
      by (cases "key v = k") (auto simp: put_invar get_put_same get_put_other split: option.splits)
  next
    case (StoreGet t j)
    with Cons.prems Cons.IH [of "snd (get t j s)"] show ?thesis by (simp add: get_invar get_get split: option.splits)
  qed
qed simp

end

subsection \<open>The plan cache is such a store\<close>

definition cache_ok :: "plan_cache \<Rightarrow> bool" where
  "cache_ok c \<longleftrightarrow> distinct (map fst c)"

lemma purgeExpired_purge: "t \<le> u \<Longrightarrow> purgeExpired u (purgeExpired t c) = purgeExpired u c"
  by (induction c) (auto simp: purgeExpired_def)

lemma cache_ok_purge: "cache_ok c \<Longrightarrow> cache_ok (purgeExpired t c)"
  by (induction c) (auto simp: purgeExpired_def cache_ok_def)

lemma map_of_purgeExpired:
  "cache_ok c \<Longrightarrow> map_of (purgeExpired t c) i =
     (case map_of c i of None \<Rightarrow> None | Some p \<Rightarrow> if t < plan_expires_at p then Some p else None)"
proof (induction c)
  case (Cons x c)
  then have "map_of c i = None" if "i = fst x"
    using that by (simp add: cache_ok_def map_of_eq_None_iff)
  with Cons show ?case by (cases x) (auto simp: purgeExpired_def cache_ok_def split: option.splits)
qed (simp add: purgeExpired_def)

lemma cacheGet_eq: "cacheGet t i c = (map_of (purgeExpired t c) i, purgeExpired t c)"
  by (simp add: cacheGet_def Let_def split: option.splits)

lemma cache_ok_put: "cache_ok c \<Longrightarrow> cache_ok (cachePut t p c)"
  using cache_ok_purge [of c t] by (simp add: cache_ok_def cachePut_def distinct_update)

interpretation plan_cache: expiring_store cache_ok cachePut cacheGet plan_id plan_expires_at
proof
  fix s :: plan_cache and t u :: gotime and v k j
  assume s: "cache_ok s"
  show "cache_ok (cachePut t v s)" using s by (rule cache_ok_put)
  show "cache_ok (snd (cacheGet t k s))" using s by (simp add: cacheGet_eq cache_ok_purge)
  note put = map_of_purgeExpired [OF cache_ok_put [OF s]]
  show "fst (cacheGet u (plan_id v) (cachePut t v s)) = (if u < plan_expires_at v then Some v else None)"
    using put by (simp add: cacheGet_eq) (simp add: cachePut_def)
  assume tu: "t \<le> u"
  show "fst (cacheGet u k (snd (cacheGet t j s))) = fst (cacheGet u k s)"
    using tu by (simp add: cacheGet_eq purgeExpired_purge)
  assume k: "k \<noteq> plan_id v"
  have "map_of (cachePut t v s) k = map_of (purgeExpired t s) k" using k by (simp add: cachePut_def)
  then show "fst (cacheGet u k (cachePut t v s)) = fst (cacheGet u k s)"
    using k tu s put by (auto simp: cacheGet_eq map_of_purgeExpired split: option.splits)
qed


subsection \<open>Properties\<close>

lemma sorted_params: "sort_key param_name (map (\<lambda>(n, v). \<lparr>param_name = n, param_value = v\<rparr>) m) = ps \<Longrightarrow>
    sorted (map param_name ps) \<and> mset (map (\<lambda>q. (param_name q, param_value q)) ps) = mset m"
proof -
  assume ps: "sort_key param_name (map (\<lambda>(n, v). \<lparr>param_name = n, param_value = v\<rparr>) m) = ps"
  have "mset ps = mset (map (\<lambda>(n, v). \<lparr>param_name = n, param_value = v\<rparr>) m)" by (simp flip: ps)
  then have "image_mset (\<lambda>q. (param_name q, param_value q)) (mset ps) = mset m"
    by (simp add: multiset.map_comp comp_def case_prod_unfold)
  then show ?thesis by (simp flip: ps)
qed

lemma built_parameters:
  assumes "buildPlan ttl now rnd a sid bp = Inr p" "smap_ok (req_parameters (bp_request bp))"
  shows "map_of (planParametersMap p) = map_of (req_parameters (bp_request bp))"
proof -
  let ?m = "req_parameters (bp_request bp)"
  have ps: "mset (map (\<lambda>q. (param_name q, param_value q)) (plan_parameters p)) = mset ?m"
    using assms(1) sorted_params [of ?m, OF refl] by (simp add: buildPlan_Inr Let_def draftPlan_def)
  have "mset (map fst (map (\<lambda>q. (param_name q, param_value q)) (plan_parameters p))) = mset (map fst ?m)"
    unfolding mset_map using ps by simp
  then have "distinct (map fst (map (\<lambda>q. (param_name q, param_value q)) (plan_parameters p)))"
    using assms(2) mset_eq_imp_distinct_iff unfolding smap_ok_def by metis
  then have d: "distinct (map param_name (plan_parameters p))" by (simp add: comp_def)
  then have "map_of (map (\<lambda>q. (param_name q, param_value q)) (plan_parameters p)) = map_of ?m"
    using assms(2) ps by (subst map_of_inject_set) (simp_all add: comp_def smap_ok_def flip: set_mset_mset)
  with map_of_planParametersMap [OF d] show ?thesis by simp
qed

definition exampleBrokerPlan :: broker_plan where
  "exampleBrokerPlan =
     \<lparr>bp_request = \<lparr>req_id = ''r-1'', req_action = ''core.service.restart'', req_actor = ''human:ada'',
        req_parameters = [(''unit'', ''quantum-runtime.service''), (''reason'', ''drill'')], req_confirmation = []\<rparr>,
      bp_definition = \<lparr>def_action = ''core.service.restart'', def_summary = ''Restart'', def_risk = RiskHigh,
        def_requires_confirmation = True, def_implemented = True, def_parameters = []\<rparr>,
      bp_valid = True, bp_requires_confirmation = True, bp_warnings = [], bp_error = None\<rparr>"

definition exampleNow :: gotime where
  "exampleNow = 63900000000 * second"

definition examplePlan :: operation_plan where
  "examplePlan = (let d = draftPlan (5 * minute) exampleNow (Some ''0123456789abcdef'') exampleNormal ''s-1'' exampleBrokerPlan
     in d\<lparr>plan_digest := planDigest d\<rparr>)"

lemma examplePlan_built:
  "buildPlan (5 * minute) exampleNow (Some ''0123456789abcdef'') exampleNormal ''s-1'' exampleBrokerPlan = Inr examplePlan"
proof -
  have "(trimSpace (actor_id exampleNormal) = []) = False" by code_simp
  then show ?thesis by (simp add: buildPlan_Inr examplePlan_def minute_def)
qed

lemma examplePlan_sel [simp]:
  "plan_schema examplePlan = PlanSchema" "plan_actor examplePlan = exampleNormal" "plan_valid examplePlan"
  "plan_requires_confirmation examplePlan" "plan_expires_at examplePlan = exampleNow + 5 * minute"
  "plan_created_at examplePlan = exampleNow" "plan_risk examplePlan = RiskHigh" "plan_error_code examplePlan = []"
  "plan_request_id examplePlan = ''r-1''"
  by (simp_all add: examplePlan_def Let_def draftPlan_def exampleBrokerPlan_def)

lemma examplePlan_text [simp]:
  "plan_session_id examplePlan = ''s-1''" "plan_action examplePlan = ''core.service.restart''"
  "plan_parameters examplePlan = [\<lparr>param_name = ''reason'', param_value = ''drill''\<rparr>,
     \<lparr>param_name = ''unit'', param_value = ''quantum-runtime.service''\<rparr>]"
  "plan_id examplePlan = ''plan-30313233343536373839616263646566''"
proof -
  have "trimSpace ''s-1'' = ''s-1''" "trimSpace ''core.service.restart'' = ''core.service.restart''"
    "hexEncode ''0123456789abcdef'' = ''30313233343536373839616263646566''" by code_simp+
  then show "plan_session_id examplePlan = ''s-1''" "plan_action examplePlan = ''core.service.restart''"
    "plan_id examplePlan = ''plan-30313233343536373839616263646566''"
    by (simp_all add: examplePlan_def Let_def draftPlan_def exampleBrokerPlan_def newSecurityID_def)
  have "sort_key param_name [\<lparr>param_name = ''unit'', param_value = ''quantum-runtime.service''\<rparr>,
      \<lparr>param_name = ''reason'', param_value = ''drill''\<rparr>] =
    [\<lparr>param_name = ''reason'', param_value = ''drill''\<rparr>, \<lparr>param_name = ''unit'', param_value = ''quantum-runtime.service''\<rparr>]"
    by code_simp
  then show "plan_parameters examplePlan = [\<lparr>param_name = ''reason'', param_value = ''drill''\<rparr>,
     \<lparr>param_name = ''unit'', param_value = ''quantum-runtime.service''\<rparr>]"
    by (simp add: examplePlan_def Let_def draftPlan_def exampleBrokerPlan_def)
qed

lemma examplePlan_text_ok: "plan_text_ok examplePlan"
  by (simp add: plan_text_ok_def utf8_literal PlanSchema_def exampleNormal_def ActorHuman_def parameter_text_ok_def
      RiskHigh_def exampleNow_def json_time_def duration_defs)

text \<open>
  C17. A built plan is self-verifying and faithful to the request. \<^verbatim>\<open>PlanBuilder.Build\<close> refuses exactly an actor
  with a blank ID. Otherwise it succeeds; the plan's digest has 64 digits and verifies; the actor is the one
  given; the action is the request's action without surrounding blanks, the session ID the session's, the
  request ID the request's; validity, confirmation requirement, risk and error code are the broker's (no code
  where the broker reports no error); the plan ID carries the random bytes drawn; the parameters are the
  request's, sorted by name, and \<^verbatim>\<open>PlanParametersMap\<close> gives the request's parameter map back; and the plan
  expires its lifetime, which is positive, after it was created.
\<close>

theorem build_plan_verifies:
  assumes "smap_ok (req_parameters (bp_request bp))"
  shows "if trimSpace (actor_id a) = [] then buildPlan ttl now rnd a sid bp = Inl PlanActorRequired
    else \<exists>p. buildPlan ttl now rnd a sid bp = Inr p \<and> verifyPlanDigest p \<and> length (plan_digest p) = 64 \<and>
      plan_schema p = PlanSchema \<and> plan_actor p = a \<and> plan_action p = trimSpace (req_action (bp_request bp)) \<and>
      plan_request_id p = req_id (bp_request bp) \<and> plan_session_id p = trimSpace sid \<and>
      (\<forall>b. rnd = Some b \<longrightarrow> plan_id p = ''plan-'' @ hexEncode b) \<and>
      plan_valid p = bp_valid bp \<and> plan_requires_confirmation p = bp_requires_confirmation bp \<and>
      plan_risk p = def_risk (bp_definition bp) \<and>
      (bp_error bp = None \<longrightarrow> plan_error_code p = []) \<and> (\<forall>e. bp_error bp = Some e \<longrightarrow> plan_error_code p = prob_code e) \<and>
      sorted (map param_name (plan_parameters p)) \<and>
      map_of (planParametersMap p) = map_of (req_parameters (bp_request bp)) \<and>
      plan_created_at p = now \<and> now < plan_expires_at p \<and>
      plan_expires_at p = now + (if ttl \<le> 0 then 5 * minute else ttl)"
proof (cases "trimSpace (actor_id a) = []")
  case True
  then show ?thesis by (simp add: buildPlan_def Let_def)
next
  case False
  let ?t = "if ttl \<le> 0 then 5 * minute else ttl"
  let ?d = "draftPlan ?t now rnd a sid bp"
  have b: "buildPlan ttl now rnd a sid bp = Inr (?d\<lparr>plan_digest := planDigest ?d\<rparr>)"
    using False by (simp add: buildPlan_Inr Let_def)
  have "sorted (map param_name (plan_parameters ?d))" "0 < ?t"
    "plan_valid ?d = bp_valid bp" "plan_requires_confirmation ?d = bp_requires_confirmation bp"
    "plan_risk ?d = def_risk (bp_definition bp)" "plan_schema ?d = PlanSchema"
    "plan_action ?d = trimSpace (req_action (bp_request bp))" "plan_request_id ?d = req_id (bp_request bp)"
    "plan_session_id ?d = trimSpace sid" "plan_error_code ?d = (case bp_error bp of None \<Rightarrow> [] | Some e \<Rightarrow> prob_code e)"
    by (simp_all add: draftPlan_def minute_def)
  moreover have "plan_id ?d = ''plan-'' @ hexEncode r" if "rnd = Some r" for r
    using that by (simp add: draftPlan_def newSecurityID_def)
  moreover have "length (planDigest ?d) = 64" by (simp add: planDigest_def)
  ultimately show ?thesis using built_parameters [OF b assms] b False by simp
qed

theorem build_plan_verifies_witness:
  "\<exists>p. buildPlan 0 exampleNow (Some ''0123456789abcdef'') exampleNormal '' s-1 '' exampleBrokerPlan = Inr p \<and> verifyPlanDigest p \<and>
     plan_action p = ''core.service.restart'' \<and> plan_request_id p = ''r-1'' \<and> plan_session_id p = ''s-1'' \<and>
     plan_id p = ''plan-30313233343536373839616263646566'' \<and> plan_error_code p = [] \<and>
     plan_expires_at p = exampleNow + 5 * minute"
proof -
  have ok: "smap_ok (req_parameters (bp_request exampleBrokerPlan))" by code_simp
  have e: "(trimSpace (actor_id exampleNormal) = []) = False" "trimSpace '' s-1 '' = ''s-1''"
    "trimSpace (req_action (bp_request exampleBrokerPlan)) = ''core.service.restart''"
    "''plan-'' @ hexEncode ''0123456789abcdef'' = ''plan-30313233343536373839616263646566''" by code_simp+
  have r: "req_id (bp_request exampleBrokerPlan) = ''r-1''" "bp_error exampleBrokerPlan = None" by (simp_all add: exampleBrokerPlan_def)
  from build_plan_verifies [OF ok, of exampleNormal 0 exampleNow "Some ''0123456789abcdef''" "'' s-1 ''", unfolded e(1) if_False]
  obtain p where "buildPlan 0 exampleNow (Some ''0123456789abcdef'') exampleNormal '' s-1 '' exampleBrokerPlan = Inr p"
    "verifyPlanDigest p" "plan_action p = trimSpace (req_action (bp_request exampleBrokerPlan))"
    "plan_request_id p = req_id (bp_request exampleBrokerPlan)" "plan_session_id p = trimSpace '' s-1 ''"
    "plan_id p = ''plan-'' @ hexEncode ''0123456789abcdef''" "plan_error_code p = []"
    "plan_expires_at p = exampleNow + (if (0::int) \<le> 0 then 5 * minute else 0)"
    using r(2) by auto
  then show ?thesis unfolding e r by (intro exI [of _ p]) simp
qed

text \<open>
  C18. The digest binds the operation. If two plans with well-formed text both verify and carry the same
  digest, they agree on schema, ID, request, session, actor ID and kind, action, parameters (as sorted
  lists), risk, confirmation requirement, validity, creation and expiry instants (to the nanosecond) and
  error code, unless their canonical JSON texts are a SHA-256 collision.
\<close>

theorem plan_digest_binds:
  assumes "plan_text_ok p" "plan_text_ok q" "verifyPlanDigest p" "verifyPlanDigest q"
    and "equalFold (plan_digest p) (plan_digest q)"
  shows "digested_fields p = digested_fields q \<or> sha_collision (jenc (canonicalPlan p)) (jenc (canonicalPlan q))"
proof -
  have "equalFold (planDigest p) (planDigest q)"
    using assms(3-5) unfolding verifyPlanDigest_iff by (metis equalFold_sym equalFold_trans)
  with assms(1,2) show ?thesis by (rule planDigest_binds)
qed

theorem plan_digest_binds_witness:
  "\<exists>q. q \<noteq> examplePlan \<and> plan_text_ok q \<and> verifyPlanDigest q \<and> plan_digest q = plan_digest examplePlan \<and>
   (digested_fields examplePlan = digested_fields q \<or>
    sha_collision (jenc (canonicalPlan examplePlan)) (jenc (canonicalPlan q)))"
proof -
  let ?q = "examplePlan\<lparr>plan_actor := exampleNormal\<lparr>display_name := ''Eve''\<rparr>\<rparr>"
  have v: "verifyPlanDigest examplePlan" using buildPlan_verifies [OF examplePlan_built] by simp
  then have w: "verifyPlanDigest ?q" by (simp add: verifyPlanDigest_iff planDigest_def canonicalPlan_def)
  have t: "plan_text_ok ?q" using examplePlan_text_ok by (simp add: plan_text_ok_def)
  have "plan_actor ?q \<noteq> plan_actor examplePlan" by (simp add: exampleNormal_def)
  then have "?q \<noteq> examplePlan" by metis
  with plan_digest_binds [OF examplePlan_text_ok t v w] t w show ?thesis by (intro exI [of _ ?q]) simp
qed

text \<open>
  What the digest does not bind: the actor's display name, roles and permissions can be replaced
  without invalidating a plan's digest.
\<close>

theorem plan_digest_omits_actor_rights:
  "verifyPlanDigest (p\<lparr>plan_actor := (plan_actor p)\<lparr>display_name := n, roles := rs, permissions := ps\<rparr>\<rparr>) =
   verifyPlanDigest p"
  by (simp add: verifyPlanDigest_iff planDigest_def canonicalPlan_def)

text \<open>
  C19. The plan cache is an expiring map. After any sequence of \<^verbatim>\<open>Put\<close> and \<^verbatim>\<open>Get\<close> calls made no later
  than \<open>u\<close>, on a cache that starts empty, a lookup at \<open>u\<close> returns the plan last put under that ID if it
  has not expired by \<open>u\<close>, and nothing otherwise, although every call purges.
\<close>

theorem plan_cache_lookup:
  assumes "\<forall>x \<in> set ops. op_time x \<le> u"
  shows "fst (cacheGet u i (run_store cachePut cacheGet ops newPlanCache)) =
    (case last_put plan_id i ops of
       Some p \<Rightarrow> if u < plan_expires_at p then Some p else None
     | None \<Rightarrow> None)"
proof -
  have "cache_ok newPlanCache" by (simp add: cache_ok_def newPlanCache_def)
  from plan_cache.lookup_after_run [OF this assms, of i] show ?thesis
    by (simp add: cacheGet_eq purgeExpired_def newPlanCache_def split: option.splits)
qed

theorem plan_cache_lookup_witness:
  "fst (cacheGet (exampleNow + 1) (plan_id examplePlan)
     (run_store cachePut cacheGet [StorePut exampleNow examplePlan, StoreGet exampleNow ''x''] newPlanCache)) = Some examplePlan"
  using plan_cache_lookup [of "[StorePut exampleNow examplePlan, StoreGet exampleNow ''x'']" "exampleNow + 1" "plan_id examplePlan"]
  by (simp add: duration_defs)

end
