(* ===== verification/QC_Grants.thy ===== *)
theory QC_Grants
  imports QC_Plans
begin

text \<open>
  Confirmation grants: \<^verbatim>\<open>internal/security/grants.go\<close> with the grant types of \<^verbatim>\<open>types.go\<close>.

  The store keeps its state in memory and in one JSON file that \<^verbatim>\<open>persistLocked\<close> replaces through a
  temporary file. The file system is modelled by the target file and the temporary file; each system
  call of \<^verbatim>\<open>persistLocked\<close> is a stage, any of which may fail, and the process may die after any of them.
  A JSON document on disk is the decoded value with the length of its text: writing and reading a
  string back makes \<open>toValidUtf8\<close> of it (theorem \<open>junquote_jescape\<close>), and an instant reads back unchanged.

  The clock, the two random values and the failing stage, if any, are the fields of \<open>grant_env\<close>.
\<close>

subsection \<open>Data\<close>

definition GrantSchema :: string where "GrantSchema = ''quantum.control/confirmation-grant/v1alpha1''"
definition grantStoreSchema :: string where "grantStoreSchema = ''quantum.control/confirmation-store/v1alpha1''"

record confirmation_grant =
  grant_schema :: string
  grant_id :: string
  grant_plan_id :: string
  grant_plan_digest :: string
  grant_subject :: string
  grant_session_id :: string
  grant_approver :: actor
  grant_action :: string
  grant_issued_at :: gotime
  grant_expires_at :: gotime
  grant_used_at :: gotime

record grant_response =
  gr_grant :: confirmation_grant
  gr_token :: string

record stored_grant =
  sg_grant :: confirmation_grant
  sg_token_sha256 :: string

record grant_state =
  gs_schema :: string
  gs_grants :: "stored_grant list"

record grant_store =
  store_ttl :: duration
  store_data :: grant_state

subsection \<open>The JSON document\<close>

text \<open>\<^verbatim>\<open>json.MarshalIndent\<close> with an empty prefix and two spaces.\<close>

definition newline_indent :: "nat \<Rightarrow> string" where
  "newline_indent d = CHR 0x0A # replicate (2 * d) (CHR '' '')"

fun jindent :: "nat \<Rightarrow> json \<Rightarrow> string"
  and jindent_list :: "nat \<Rightarrow> json list \<Rightarrow> string"
  and jindent_members :: "nat \<Rightarrow> (string \<times> json) list \<Rightarrow> string" where
  "jindent d (JStr s) = jquote s"
| "jindent d (JNum n) = dec n"
| "jindent d (JBool b) = (if b then ''true'' else ''false'')"
| "jindent d (JArr vs) = (if vs = [] then ''[]'' else ''['' @ jindent_list (Suc d) vs @ newline_indent d @ '']'')"
| "jindent d (JObj ms) = (if ms = [] then ''{}'' else ''{'' @ jindent_members (Suc d) ms @ newline_indent d @ ''}'')"
| "jindent_list d [] = []"
| "jindent_list d (v # vs) = newline_indent d @ jindent d v @ (if vs = [] then [] else '','') @ jindent_list d vs"
| "jindent_members d [] = []"
| "jindent_members d ((k, v) # ms) =
     newline_indent d @ jquote k @ '': '' @ jindent d v @ (if ms = [] then [] else '','') @ jindent_members d ms"

definition actorJson :: "actor \<Rightarrow> json" where
  "actorJson a = JObj
     [(''id'', JStr (actor_id a)), (''kind'', JStr (kind a)), (''display_name'', JStr (display_name a)),
      (''roles'', JArr (map JStr (roles a))), (''permissions'', JArr (map JStr (permissions a)))]"

definition grantJson :: "confirmation_grant \<Rightarrow> json" where
  "grantJson g = JObj
     [(''schema'', JStr (grant_schema g)), (''id'', JStr (grant_id g)), (''plan_id'', JStr (grant_plan_id g)),
      (''plan_digest'', JStr (grant_plan_digest g)), (''subject_actor_id'', JStr (grant_subject g)),
      (''session_id'', JStr (grant_session_id g)), (''approver'', actorJson (grant_approver g)),
      (''action'', JStr (grant_action g)), (''issued_at'', JStr (rfc3339nano (grant_issued_at g))),
      (''expires_at'', JStr (rfc3339nano (grant_expires_at g))), (''used_at'', JStr (rfc3339nano (grant_used_at g)))]"

definition grantStateJson :: "grant_state \<Rightarrow> json" where
  "grantStateJson st = JObj
     [(''schema'', JStr (gs_schema st)),
      (''grants'', JArr (map (\<lambda>sg. JObj [(''grant'', grantJson (sg_grant sg)),
         (''token_sha256'', JStr (sg_token_sha256 sg))]) (gs_grants st)))]"

text \<open>\<^verbatim>\<open>Time.MarshalJSON\<close> refuses years outside 0 to 9999.\<close>

definition marshalable :: "gotime \<Rightarrow> bool" where
  "marshalable t = (let y = fst (year_day (t div 1000000000 div 86400)) in 0 \<le> y \<and> y \<le> 9999)"

definition grant_marshalable :: "confirmation_grant \<Rightarrow> bool" where
  "grant_marshalable g \<longleftrightarrow> marshalable (grant_issued_at g) \<and> marshalable (grant_expires_at g) \<and> marshalable (grant_used_at g)"

text \<open>What decoding gives back.\<close>

definition readActor :: "actor \<Rightarrow> actor" where
  "readActor a = \<lparr>actor_id = toValidUtf8 (actor_id a), kind = toValidUtf8 (kind a),
     display_name = toValidUtf8 (display_name a), roles = map toValidUtf8 (roles a),
     permissions = map toValidUtf8 (permissions a)\<rparr>"

definition readGrant :: "confirmation_grant \<Rightarrow> confirmation_grant" where
  "readGrant g = \<lparr>grant_schema = toValidUtf8 (grant_schema g), grant_id = toValidUtf8 (grant_id g),
     grant_plan_id = toValidUtf8 (grant_plan_id g), grant_plan_digest = toValidUtf8 (grant_plan_digest g),
     grant_subject = toValidUtf8 (grant_subject g), grant_session_id = toValidUtf8 (grant_session_id g),
     grant_approver = readActor (grant_approver g), grant_action = toValidUtf8 (grant_action g),
     grant_issued_at = grant_issued_at g, grant_expires_at = grant_expires_at g, grant_used_at = grant_used_at g\<rparr>"

definition readStored :: "stored_grant \<Rightarrow> stored_grant" where
  "readStored sg = \<lparr>sg_grant = readGrant (sg_grant sg), sg_token_sha256 = toValidUtf8 (sg_token_sha256 sg)\<rparr>"

definition readState :: "grant_state \<Rightarrow> grant_state" where
  "readState st = \<lparr>gs_schema = toValidUtf8 (gs_schema st), gs_grants = map readStored (gs_grants st)\<rparr>"

definition stateFile :: "grant_state \<Rightarrow> grant_state disk_file" where
  "stateFile st = FileContents (Suc (length (jindent 0 (grantStateJson st)))) (Some (readState st))"

subsection \<open>\<^verbatim>\<open>persistLocked\<close>\<close>

record store_fs =
  fs_target :: "grant_state disk_file"
  fs_temp :: "grant_state disk_file option"

datatype persist_stage =
  StageMkdir | StageCreateTemp | StageChmod | StageWrite | StageSync | StageClose | StageRename

definition persistStages :: "persist_stage list" where
  "persistStages = [StageCreateTemp, StageChmod, StageWrite, StageSync, StageClose, StageRename]"

fun stageEffect :: "grant_state \<Rightarrow> persist_stage \<Rightarrow> store_fs \<Rightarrow> store_fs" where
  "stageEffect st StageCreateTemp fs = fs\<lparr>fs_temp := Some (FileContents 0 None)\<rparr>"
| "stageEffect st StageWrite fs = fs\<lparr>fs_temp := Some (stateFile st)\<rparr>"
| "stageEffect st StageRename fs =
     (case fs_temp fs of None \<Rightarrow> fs | Some f \<Rightarrow> fs\<lparr>fs_target := f, fs_temp := None\<rparr>)"
| "stageEffect st _ fs = fs"

datatype grant_error =
    GrantStorePath | GrantTTL | StoreUnreadable | StoreTooLarge | StoreUndecodable | StoreSchema
  | StoreInvalidGrant | StoreDuplicateGrant | StoreInvalidDigest
  | PlanNotConfirmable | PlanDigestMismatch | PlanExpired | PlanSessionRequired | NotHumanApprover
  | ApproverIsSubject | GrantExists | TokenGeneration | EncodeStore | PersistFailed persist_stage
  | TokenRequired | GrantConsumed | GrantExpired | GrantNotBound | GrantNotFound

text \<open>
  The states of the file system after each call, most recent last, and the stage that failed. The
  deferred \<^verbatim>\<open>os.Remove\<close> of the temporary file runs on every return.
\<close>

fun runStages :: "persist_stage option \<Rightarrow> grant_state \<Rightarrow> persist_stage list \<Rightarrow> store_fs \<Rightarrow> persist_stage option \<times> store_fs list" where
  "runStages fault st [] fs = (None, [fs])"
| "runStages fault st (s # ss) fs =
     (if fault = Some s then (Some s, [fs])
      else (case runStages fault st ss (stageEffect st s fs) of (r, fss) \<Rightarrow> (r, fs # fss)))"

definition persistLocked :: "persist_stage option \<Rightarrow> grant_state \<Rightarrow> store_fs \<Rightarrow> grant_error option \<times> store_fs" where
  "persistLocked fault st fs =
     (if fault = Some StageMkdir then (Some (PersistFailed StageMkdir), fs)
      else if \<not> list_all (\<lambda>sg. grant_marshalable (sg_grant sg)) (gs_grants st) then (Some EncodeStore, fs)
      else (case runStages fault st persistStages fs of
         (r, fss) \<Rightarrow> (map_option PersistFailed r, (last fss)\<lparr>fs_temp := None\<rparr>)))"

text \<open>The file-system states in which the process may be interrupted while persisting.\<close>

definition persistTrace :: "persist_stage option \<Rightarrow> grant_state \<Rightarrow> store_fs \<Rightarrow> store_fs list" where
  "persistTrace fault st fs =
     (if \<not> list_all (\<lambda>sg. grant_marshalable (sg_grant sg)) (gs_grants st) then [fs]
      else snd (runStages fault st persistStages fs))"

subsection \<open>Opening the store\<close>

fun checkStored :: "string list \<Rightarrow> stored_grant list \<Rightarrow> grant_error option" where
  "checkStored seen [] = None"
| "checkStored seen (sg # rest) =
     (let g = sg_grant sg in
      if grant_schema g \<noteq> GrantSchema \<or> grant_id g = [] \<or> grant_plan_id g = [] \<or> grant_plan_digest g = [] \<or>
         grant_subject g = [] \<or> grant_session_id g = [] \<or> grant_action g = [] then Some StoreInvalidGrant
      else if grant_id g \<in> set seen then Some StoreDuplicateGrant
      else if decodeSHA256 (sg_token_sha256 sg) = None then Some StoreInvalidDigest
      else checkStored (grant_id g # seen) rest)"

definition loadStore :: "grant_state disk_file \<Rightarrow> grant_state \<Rightarrow> grant_error + grant_state" where
  "loadStore f initial =
     (case f of
        FileMissing \<Rightarrow> Inr initial
      | FileUnreadable \<Rightarrow> Inl StoreUnreadable
      | FileContents len doc \<Rightarrow>
          if len > 8388608 then Inl StoreTooLarge
          else (case doc of
             None \<Rightarrow> Inl StoreUndecodable
           | Some st \<Rightarrow>
               if gs_schema st \<noteq> grantStoreSchema then Inl StoreSchema
               else (case checkStored [] (gs_grants st) of Some e \<Rightarrow> Inl e | None \<Rightarrow> Inr st)))"

definition openGrantStore :: "string \<Rightarrow> duration \<Rightarrow> store_fs \<Rightarrow> grant_error + grant_store" where
  "openGrantStore path ttl fs =
     (if trimSpace path = [] then Inl GrantStorePath
      else if ttl \<le> 0 \<or> ttl > 15 * minute then Inl GrantTTL
      else (case loadStore (fs_target fs) \<lparr>gs_schema = grantStoreSchema, gs_grants = []\<rparr> of
         Inl e \<Rightarrow> Inl e
       | Inr st \<Rightarrow> Inr \<lparr>store_ttl = ttl, store_data = st\<rparr>))"

subsection \<open>\<^verbatim>\<open>Issue\<close> and \<^verbatim>\<open>Consume\<close>\<close>

record grant_env =
  env_now :: gotime
  env_token :: "bytes option"
  env_id :: "bytes option"
  env_clock :: gotime
  env_fault :: "persist_stage option"

definition cloneGrant :: "confirmation_grant \<Rightarrow> confirmation_grant" where
  "cloneGrant g = g\<lparr>grant_approver := cloneActor (grant_approver g)\<rparr>"

definition newGrant :: "grant_env \<Rightarrow> duration \<Rightarrow> operation_plan \<Rightarrow> actor \<Rightarrow> confirmation_grant" where
  "newGrant env ttl plan approver =
     (let expires = env_now env + ttl in
      \<lparr>grant_schema = GrantSchema, grant_id = newSecurityID ''grant'' (env_id env) (env_clock env),
       grant_plan_id = plan_id plan, grant_plan_digest = plan_digest plan,
       grant_subject = actor_id (plan_actor plan), grant_session_id = plan_session_id plan,
       grant_approver = cloneActor approver, grant_action = plan_action plan,
       grant_issued_at = env_now env,
       grant_expires_at = (if plan_expires_at plan < expires then plan_expires_at plan else expires),
       grant_used_at = 0\<rparr>)"

definition issueChecks :: "gotime \<Rightarrow> grant_state \<Rightarrow> operation_plan \<Rightarrow> actor \<Rightarrow> grant_error option" where
  "issueChecks now data plan approver =
     (if plan_schema plan \<noteq> PlanSchema \<or> \<not> plan_valid plan \<or> \<not> plan_requires_confirmation plan then Some PlanNotConfirmable
      else if \<not> verifyPlanDigest plan then Some PlanDigestMismatch
      else if \<not> plan_expires_at plan > now then Some PlanExpired
      else if trimSpace (plan_session_id plan) = [] then Some PlanSessionRequired
      else if kind approver \<noteq> ActorHuman \<or> \<not> hasPermission approver PermissionConfirm then Some NotHumanApprover
      else if actor_id (plan_actor plan) = actor_id approver then Some ApproverIsSubject
      else if list_ex (\<lambda>sg. grant_plan_id (sg_grant sg) = plan_id plan \<and>
                equalFold (grant_plan_digest (sg_grant sg)) (plan_digest plan)) (gs_grants data) then Some GrantExists
      else None)"

definition issue ::
  "grant_env \<Rightarrow> operation_plan \<Rightarrow> actor \<Rightarrow> grant_store \<Rightarrow> store_fs \<Rightarrow> (grant_error + grant_response) \<times> grant_store \<times> store_fs" where
  "issue env plan approver s fs =
     (case issueChecks (env_now env) (store_data s) plan approver of
        Some e \<Rightarrow> (Inl e, s, fs)
      | None \<Rightarrow>
          (case env_token env of
             None \<Rightarrow> (Inl TokenGeneration, s, fs)
           | Some raw \<Rightarrow>
               (let token = hexEncode raw;
                    grant = newGrant env (store_ttl s) plan approver;
                    data = (store_data s)\<lparr>gs_grants := gs_grants (store_data s) @
                      [\<lparr>sg_grant = grant, sg_token_sha256 = sha256_hex token\<rparr>]\<rparr>
                in (case persistLocked (env_fault env) data fs of
                      (Some e, fs') \<Rightarrow> (Inl e, s\<lparr>store_data := data\<lparr>gs_grants := butlast (gs_grants data)\<rparr>\<rparr>, fs')
                    | (None, fs') \<Rightarrow> (Inr \<lparr>gr_grant = grant, gr_token = token\<rparr>, s\<lparr>store_data := data\<rparr>, fs')))))"

definition token_matches :: "bytes \<Rightarrow> stored_grant \<Rightarrow> bool" where
  "token_matches provided sg \<longleftrightarrow> decodeSHA256 (sg_token_sha256 sg) = Some provided"

definition setUsed :: "nat \<Rightarrow> gotime \<Rightarrow> grant_state \<Rightarrow> grant_state" where
  "setUsed i t data = data\<lparr>gs_grants := (gs_grants data)
     [i := (gs_grants data ! i)\<lparr>sg_grant := (sg_grant (gs_grants data ! i))\<lparr>grant_used_at := t\<rparr>\<rparr>]\<rparr>"

definition consumeChecks :: "gotime \<Rightarrow> confirmation_grant \<Rightarrow> operation_plan \<Rightarrow> string \<Rightarrow> string \<Rightarrow> grant_error option" where
  "consumeChecks now g plan subject action =
     (if grant_used_at g \<noteq> 0 then Some GrantConsumed
      else if \<not> grant_expires_at g > now then Some GrantExpired
      else if grant_plan_id g \<noteq> plan_id plan \<or> \<not> equalFold (grant_plan_digest g) (plan_digest plan) \<or>
        grant_subject g \<noteq> subject \<or> grant_session_id g \<noteq> plan_session_id plan \<or> grant_action g \<noteq> action
      then Some GrantNotBound
      else None)"

definition consumePlanChecks :: "gotime \<Rightarrow> string \<Rightarrow> operation_plan \<Rightarrow> grant_error option" where
  "consumePlanChecks now token plan =
     (if trimSpace token = [] then Some TokenRequired
      else if plan_schema plan \<noteq> PlanSchema \<or> \<not> plan_valid plan \<or> \<not> plan_requires_confirmation plan then Some PlanNotConfirmable
      else if \<not> verifyPlanDigest plan then Some PlanDigestMismatch
      else if \<not> plan_expires_at plan > now then Some PlanExpired
      else None)"

definition consume ::
  "grant_env \<Rightarrow> string \<Rightarrow> operation_plan \<Rightarrow> string \<Rightarrow> string \<Rightarrow> grant_store \<Rightarrow> store_fs
    \<Rightarrow> (grant_error + confirmation_grant) \<times> grant_store \<times> store_fs" where
  "consume env token plan subject action s fs =
     (case consumePlanChecks (env_now env) token plan of
        Some e \<Rightarrow> (Inl e, s, fs)
      | None \<Rightarrow>
          (case first_index (token_matches (sha256 token)) (gs_grants (store_data s)) of
             None \<Rightarrow> (Inl GrantNotFound, s, fs)
           | Some i \<Rightarrow>
               (case consumeChecks (env_now env) (sg_grant (gs_grants (store_data s) ! i)) plan subject action of
                  Some e \<Rightarrow> (Inl e, s, fs)
                | None \<Rightarrow>
                    (let data = setUsed i (env_now env) (store_data s) in
                     case persistLocked (env_fault env) data fs of
                       (Some e, fs') \<Rightarrow> (Inl e, s\<lparr>store_data := setUsed i 0 data\<rparr>, fs')
                     | (None, fs') \<Rightarrow>
                         (Inr (cloneGrant (sg_grant (gs_grants data ! i))), s\<lparr>store_data := data\<rparr>, fs')))))"

subsection \<open>Persistence is all or nothing\<close>

lemma runStages_fault:
  "runStages fault st ss fs = (r, fss) \<Longrightarrow> r = (if fault \<in> Some ` set ss then fault else None)"
  by (induction fault st ss fs arbitrary: r fss rule: runStages.induct) (auto split: prod.splits if_splits)

lemma persistLocked_eq:
  "persistLocked fault st fs =
     (if fault = Some StageMkdir then (Some (PersistFailed StageMkdir), fs)
      else if \<not> list_all (\<lambda>sg. grant_marshalable (sg_grant sg)) (gs_grants st) then (Some EncodeStore, fs)
      else (case fault of
         Some s \<Rightarrow> (Some (PersistFailed s), fs\<lparr>fs_temp := None\<rparr>)
       | None \<Rightarrow> (None, fs\<lparr>fs_target := stateFile st, fs_temp := None\<rparr>)))"
proof (cases fault)
  case None
  then show ?thesis by (simp add: persistLocked_def persistStages_def)
next
  case (Some s)
  then show ?thesis by (cases s) (simp_all add: persistLocked_def persistStages_def)
qed

lemma persistLocked_target:
  assumes "persistLocked fault st fs = (r, fs')"
  shows "fs_target fs' = (if r = None then stateFile st else fs_target fs)"
  using assms by (auto simp: persistLocked_eq split: if_splits option.splits)

lemma persistTrace_target:
  "x \<in> set (persistTrace fault st fs) \<Longrightarrow> fs_target x = fs_target fs \<or> fs_target x = stateFile st"
  by (cases fault; auto simp: persistTrace_def persistStages_def split: if_splits)

subsection \<open>Effects of the two operations\<close>

lemma setUsed_undo:
  assumes "i < length (gs_grants d)" "grant_used_at (sg_grant (gs_grants d ! i)) = 0"
  shows "setUsed i 0 (setUsed i t d) = d"
proof -
  have "(sg_grant (gs_grants d ! i))\<lparr>grant_used_at := 0\<rparr> = sg_grant (gs_grants d ! i)"
    using assms(2) by (cases "sg_grant (gs_grants d ! i)") simp
  then show ?thesis using assms(1) by (simp add: setUsed_def)
qed

lemma cloneGrant_id [simp]: "cloneGrant g = g"
  by (simp add: cloneGrant_def)

text \<open>Either a call fails and neither memory nor the file changes, or it succeeds and both hold the new state.\<close>

definition issuedData :: "grant_env \<Rightarrow> operation_plan \<Rightarrow> actor \<Rightarrow> bytes \<Rightarrow> grant_store \<Rightarrow> grant_state" where
  "issuedData env plan approver raw s = (store_data s)\<lparr>gs_grants := gs_grants (store_data s) @
     [\<lparr>sg_grant = newGrant env (store_ttl s) plan approver, sg_token_sha256 = sha256_hex (hexEncode raw)\<rparr>]\<rparr>"

lemma issue_cases:
  assumes "issue env plan approver s fs = (r, s', fs')"
  obtains (Failed) e where "r = Inl e" "s' = s" "fs_target fs' = fs_target fs"
  | (Issued) raw where "env_token env = Some raw"
      "r = Inr \<lparr>gr_grant = newGrant env (store_ttl s) plan approver, gr_token = hexEncode raw\<rparr>"
      "issueChecks (env_now env) (store_data s) plan approver = None"
      "s' = s\<lparr>store_data := issuedData env plan approver raw s\<rparr>"
      "fs_target fs' = stateFile (issuedData env plan approver raw s)"
proof -
  show thesis
  proof (cases "issueChecks (env_now env) (store_data s) plan approver")
    case (Some e)
    with assms show ?thesis by (intro Failed) (auto simp: issue_def)
  next
    case None
    show ?thesis
    proof (cases "env_token env")
      case None
      with assms \<open>issueChecks _ _ _ _ = None\<close> show ?thesis by (intro Failed) (auto simp: issue_def)
    next
      case (Some raw)
      obtain pr pf where p: "persistLocked (env_fault env) (issuedData env plan approver raw s) fs = (pr, pf)" by force
      note target = persistLocked_target [OF p]
      show ?thesis
      proof (cases pr)
        case None
        with assms \<open>issueChecks _ _ _ _ = None\<close> Some p target show ?thesis
          by (intro Issued [of raw]) (auto simp: issue_def Let_def issuedData_def)
      next
        case (Some e)
        with assms \<open>issueChecks _ _ _ _ = None\<close> \<open>env_token env = _\<close> p target show ?thesis
          by (intro Failed [of e]) (auto simp: issue_def Let_def issuedData_def)
      qed
    qed
  qed
qed

lemma consume_cases:
  assumes "consume env token plan subject action s fs = (r, s', fs')"
  obtains (Failed) e where "r = Inl e" "s' = s" "fs_target fs' = fs_target fs"
  | (Consumed) i where
      "first_index (token_matches (sha256 token)) (gs_grants (store_data s)) = Some i"
      "consumePlanChecks (env_now env) token plan = None"
      "consumeChecks (env_now env) (sg_grant (gs_grants (store_data s) ! i)) plan subject action = None"
      "r = Inr ((sg_grant (gs_grants (store_data s) ! i))\<lparr>grant_used_at := env_now env\<rparr>)"
      "s' = s\<lparr>store_data := setUsed i (env_now env) (store_data s)\<rparr>"
      "fs_target fs' = stateFile (setUsed i (env_now env) (store_data s))"
proof -
  show thesis
  proof (cases "consumePlanChecks (env_now env) token plan")
    case (Some e)
    with assms show ?thesis by (intro Failed) (auto simp: consume_def)
  next
    case plan: None
    show ?thesis
    proof (cases "first_index (token_matches (sha256 token)) (gs_grants (store_data s))")
      case None
      with assms plan show ?thesis by (intro Failed) (auto simp: consume_def)
    next
      case i: (Some i)
      then have len: "i < length (gs_grants (store_data s))" using first_index_Some by blast
      let ?g = "sg_grant (gs_grants (store_data s) ! i)"
      let ?d = "setUsed i (env_now env) (store_data s)"
      obtain pr pf where p: "persistLocked (env_fault env) ?d fs = (pr, pf)" by force
      note target = persistLocked_target [OF p]
      show ?thesis
      proof (cases "consumeChecks (env_now env) ?g plan subject action")
        case (Some e)
        with assms plan i show ?thesis by (intro Failed) (auto simp: consume_def)
      next
        case ok: None
        then have unused: "grant_used_at ?g = 0" by (simp add: consumeChecks_def split: if_splits)
        have got: "sg_grant (gs_grants ?d ! i) = ?g\<lparr>grant_used_at := env_now env\<rparr>"
          using len by (simp add: setUsed_def)
        show ?thesis
        proof (cases pr)
          case None
          with assms plan i ok p target got show ?thesis
            by (intro Consumed [of i]) (auto simp: consume_def Let_def)
        next
          case (Some e)
          with assms plan i ok p target setUsed_undo [OF len unused] show ?thesis
            by (intro Failed [of e]) (auto simp: consume_def Let_def)
        qed
      qed
    qed
  qed
qed

subsection \<open>Runs of a store\<close>

text \<open>Finite runs of a labelled step relation.\<close>

inductive steps :: "('s \<Rightarrow> 'e \<Rightarrow> 's \<Rightarrow> bool) \<Rightarrow> 's \<Rightarrow> 'e list \<Rightarrow> 's \<Rightarrow> bool" for step where
  steps_nil: "steps step s [] s"
| steps_cons: "step s e s' \<Longrightarrow> steps step s' es s'' \<Longrightarrow> steps step s (e # es) s''"

inductive_cases steps_NilE: "steps step s [] s'"
inductive_cases steps_ConsE: "steps step s (e # es) s''"

lemma steps_append: "steps step s es s' \<Longrightarrow> steps step s' es' s'' \<Longrightarrow> steps step s (es @ es') s''"
  by (induction rule: steps.induct) (auto intro: steps.intros)

text \<open>
  A service holding a single-use ledger: some steps use a key, using a key spends it, spent keys stay
  spent, and a spent key cannot be used. Then no key is used twice in any run.
\<close>

locale single_use =
  fixes step :: "'s \<Rightarrow> 'e \<Rightarrow> 's \<Rightarrow> bool" and inv :: "'s \<Rightarrow> bool" and key_used :: "'e \<Rightarrow> 'k option" and spent :: "'s \<Rightarrow> 'k \<Rightarrow> bool"
  assumes inv_step: "inv s \<Longrightarrow> step s e s' \<Longrightarrow> inv s'"
    and spent_step: "inv s \<Longrightarrow> step s e s' \<Longrightarrow> spent s k \<Longrightarrow> spent s' k"
    and used_fresh: "inv s \<Longrightarrow> step s e s' \<Longrightarrow> key_used e = Some k \<Longrightarrow> \<not> spent s k"
    and used_spent: "inv s \<Longrightarrow> step s e s' \<Longrightarrow> key_used e = Some k \<Longrightarrow> spent s' k"
begin

lemma keys_used_once:
  "steps step s es s' \<Longrightarrow> inv s \<Longrightarrow>
     inv s' \<and> distinct (List.map_filter key_used es) \<and> (\<forall>k \<in> set (List.map_filter key_used es). \<not> spent s k)"
proof (induction rule: steps.induct)
  case (steps_cons s e s' es s'')
  then have inv: "inv s'" by (blast intro: inv_step)
  show ?case
  proof (cases "key_used e")
    case None
    with steps_cons inv spent_step show ?thesis by (auto simp: map_filter_simps)
  next
    case (Some k)
    with steps_cons inv spent_step used_fresh used_spent show ?thesis by (auto simp: map_filter_simps)
  qed
qed (simp add: map_filter_simps)

end

record grant_world =
  w_store :: grant_store
  w_fs :: store_fs

datatype grant_event =
  EvIssue grant_response | EvIssueLost grant_response | EvConsume string confirmation_grant | EvQuiet

text \<open>
  What reaches \<^verbatim>\<open>Issue\<close> has been decoded from JSON and authenticated, so its text is well-formed.
\<close>

definition request_text_ok :: "operation_plan \<Rightarrow> actor \<Rightarrow> bool" where
  "request_text_ok plan approver \<longleftrightarrow> plan_text_ok plan \<and> validUtf8 (plan_digest plan) \<and> readActor approver = approver"

text \<open>
  One call, a restart, or a crash while persisting followed by a restart from what the disk then holds.
  The clock never shows Go's zero instant.
\<close>

inductive grant_step :: "grant_world \<Rightarrow> grant_event \<Rightarrow> grant_world \<Rightarrow> bool" where
  issued: "issue env plan a (w_store w) (w_fs w) = (Inr r, s', fs') \<Longrightarrow> request_text_ok plan a \<Longrightarrow>
     grant_step w (EvIssue r) \<lparr>w_store = s', w_fs = fs'\<rparr>"
| issue_rejected: "issue env plan a (w_store w) (w_fs w) = (Inl e, s', fs') \<Longrightarrow>
     grant_step w EvQuiet \<lparr>w_store = s', w_fs = fs'\<rparr>"
| consumed: "consume env token plan subject action (w_store w) (w_fs w) = (Inr g, s', fs') \<Longrightarrow> env_now env \<noteq> 0 \<Longrightarrow>
     grant_step w (EvConsume token g) \<lparr>w_store = s', w_fs = fs'\<rparr>"
| consume_rejected: "consume env token plan subject action (w_store w) (w_fs w) = (Inl e, s', fs') \<Longrightarrow>
     grant_step w EvQuiet \<lparr>w_store = s', w_fs = fs'\<rparr>"
| restart: "openGrantStore path ttl (w_fs w) = Inr s' \<Longrightarrow> grant_step w EvQuiet \<lparr>w_store = s', w_fs = w_fs w\<rparr>"
| crash_issue: "issueChecks (env_now env) (store_data (w_store w)) plan a = None \<Longrightarrow> env_token env = Some raw \<Longrightarrow>
     request_text_ok plan a \<Longrightarrow>
     x \<in> set (persistTrace fault (issuedData env plan a raw (w_store w)) (w_fs w)) \<Longrightarrow>
     openGrantStore path ttl x = Inr s' \<Longrightarrow>
     grant_step w (EvIssueLost \<lparr>gr_grant = newGrant env (store_ttl (w_store w)) plan a, gr_token = hexEncode raw\<rparr>)
       \<lparr>w_store = s', w_fs = x\<rparr>"
| crash_consume: "first_index (token_matches (sha256 token)) (gs_grants (store_data (w_store w))) = Some i \<Longrightarrow>
     consumeChecks (now) (sg_grant (gs_grants (store_data (w_store w)) ! i)) plan subject action = None \<Longrightarrow>
     now \<noteq> 0 \<Longrightarrow>
     x \<in> set (persistTrace fault (setUsed i (now) (store_data (w_store w))) (w_fs w)) \<Longrightarrow>
     openGrantStore path ttl x = Inr s' \<Longrightarrow> grant_step w EvQuiet \<lparr>w_store = s', w_fs = x\<rparr>"

text \<open>A ledger of spent token digests.\<close>

definition spent_in :: "grant_state \<Rightarrow> bytes \<Rightarrow> bool" where
  "spent_in data d = (case first_index (token_matches d) (gs_grants data) of
     None \<Rightarrow> False | Some i \<Rightarrow> grant_used_at (sg_grant (gs_grants data ! i)) \<noteq> 0)"

definition tokens_text_ok :: "grant_state \<Rightarrow> bool" where
  "tokens_text_ok data \<longleftrightarrow> list_all (\<lambda>sg. validUtf8 (sg_token_sha256 sg)) (gs_grants data)"

definition on_disk :: "grant_state disk_file \<Rightarrow> grant_state \<Rightarrow> bool" where
  "on_disk f data \<longleftrightarrow> f = FileMissing \<and> gs_grants data = [] \<or> (\<exists>n. f = FileContents n (Some (readState data)))"

definition grant_inv :: "grant_world \<Rightarrow> bool" where
  "grant_inv w \<longleftrightarrow> on_disk (fs_target (w_fs w)) (store_data (w_store w)) \<and> tokens_text_ok (store_data (w_store w))"

lemma spent_in_append: "spent_in data d \<Longrightarrow> spent_in (data\<lparr>gs_grants := gs_grants data @ xs\<rparr>) d"
  by (auto simp: spent_in_def first_index_append nth_append dest: first_index_Some split: option.splits)

lemma length_setUsed [simp]: "length (gs_grants (setUsed i t data)) = length (gs_grants data)"
  by (simp add: setUsed_def)

lemma setUsed_nth:
  "j < length (gs_grants data) \<Longrightarrow> gs_grants (setUsed i t data) ! j =
     (if i = j then (gs_grants data ! j)\<lparr>sg_grant := (sg_grant (gs_grants data ! j))\<lparr>grant_used_at := t\<rparr>\<rparr>
      else gs_grants data ! j)"
  by (auto simp: setUsed_def nth_list_update)

lemma first_index_setUsed:
  "first_index (token_matches d) (gs_grants (setUsed i t data)) = first_index (token_matches d) (gs_grants data)"
  by (rule first_index_cong) (simp_all add: setUsed_nth token_matches_def)

lemma spent_in_setUsed:
  assumes "t \<noteq> 0" "spent_in data d \<or> first_index (token_matches d) (gs_grants data) = Some i"
  shows "spent_in (setUsed i t data) d"
proof (cases "first_index (token_matches d) (gs_grants data)")
  case None
  with assms show ?thesis by (simp add: spent_in_def)
next
  case (Some j)
  then have "j < length (gs_grants data)" using first_index_Some by blast
  with assms Some show ?thesis by (auto simp: spent_in_def first_index_setUsed setUsed_nth)
qed

lemma token_matches_read: "validUtf8 (sg_token_sha256 sg) \<Longrightarrow> token_matches d (readStored sg) = token_matches d sg"
  by (simp add: token_matches_def readStored_def toValidUtf8_id)

lemma first_index_readState:
  assumes "tokens_text_ok data"
  shows "first_index (token_matches d) (gs_grants (readState data)) = first_index (token_matches d) (gs_grants data)"
  by (rule first_index_cong)
    (use assms in \<open>auto simp: readState_def tokens_text_ok_def list_all_length token_matches_read\<close>)

lemma spent_in_readState: "tokens_text_ok data \<Longrightarrow> spent_in (readState data) d = spent_in data d"
proof -
  assume "tokens_text_ok data"
  note first_index_readState [OF this]
  moreover have "grant_used_at (sg_grant (gs_grants (readState data) ! i)) = grant_used_at (sg_grant (gs_grants data ! i))"
    if "i < length (gs_grants data)" for i
    using that by (simp add: readState_def readStored_def readGrant_def)
  ultimately show ?thesis by (auto simp: spent_in_def dest: first_index_Some split: option.splits)
qed

lemma readState_idem [simp]: "readState (readState data) = readState data"
  by (simp add: readState_def readStored_def readGrant_def readActor_def comp_def)

lemma tokens_text_ok_read [simp]: "tokens_text_ok (readState data)"
  by (simp add: tokens_text_ok_def readState_def readStored_def list_all_iff validUtf8_toValidUtf8)

lemma on_disk_stateFile [simp]: "on_disk (stateFile data) data"
  by (simp add: on_disk_def stateFile_def)

text \<open>Opening what is on disk gives back what was in memory, read through JSON.\<close>

lemma openGrantStore_on_disk:
  assumes "on_disk (fs_target fs) data" "openGrantStore path ttl fs = Inr s"
  shows "(store_data s = readState data \<or> gs_grants data = [] \<and> gs_grants (store_data s) = []) \<and>
    on_disk (fs_target fs) (store_data s) \<and> tokens_text_ok (store_data s) \<and> 0 < store_ttl s \<and> store_ttl s \<le> 15 * minute"
proof -
  from assms(2) obtain st where st: "loadStore (fs_target fs) \<lparr>gs_schema = grantStoreSchema, gs_grants = []\<rparr> = Inr st"
    and s: "s = \<lparr>store_ttl = ttl, store_data = st\<rparr>" and ttl: "0 < ttl" "ttl \<le> 15 * minute"
    by (auto simp: openGrantStore_def split: if_splits sum.splits)
  from assms(1) consider "fs_target fs = FileMissing" "gs_grants data = []"
    | n where "fs_target fs = FileContents n (Some (readState data))" by (auto simp: on_disk_def)
  then show ?thesis
  proof cases
    case 1
    with st s ttl show ?thesis by (auto simp: loadStore_def on_disk_def tokens_text_ok_def)
  next
    case 2
    with st have "st = readState data" by (auto simp: loadStore_def split: if_splits option.splits)
    with 2 s ttl show ?thesis by (simp add: on_disk_def)
  qed
qed

lemma spent_in_empty: "gs_grants data = [] \<Longrightarrow> \<not> spent_in data d"
  by (simp add: spent_in_def)

lemma spent_after_open:
  assumes "on_disk (fs_target fs) data" "tokens_text_ok data" "openGrantStore path ttl fs = Inr s" "spent_in data d"
  shows "spent_in (store_data s) d"
  using openGrantStore_on_disk [OF assms(1,3)] assms(2,4) spent_in_empty by (auto simp: spent_in_readState)

lemma tokens_text_ok_issued: "tokens_text_ok (store_data s) \<Longrightarrow> tokens_text_ok (issuedData env plan a raw s)"
  by (simp add: tokens_text_ok_def issuedData_def sha256_hex_def hexEncode_validUtf8)

lemma tokens_text_ok_setUsed: "tokens_text_ok data \<Longrightarrow> tokens_text_ok (setUsed i t data)"
  by (auto simp: tokens_text_ok_def list_all_length setUsed_nth)

lemma crash_on_disk:
  assumes "on_disk (fs_target fs) data" "x \<in> set (persistTrace fault data' fs)"
  shows "on_disk (fs_target x) data \<or> on_disk (fs_target x) data'"
  using persistTrace_target [OF assms(2)] assms(1) by auto

lemma grant_step_inv:
  assumes "grant_step w e w'" "grant_inv w"
  shows "grant_inv w'"
  using assms
proof (cases rule: grant_step.cases)
  case (issued env plan a r s' fs')
  with assms(2) show ?thesis
    by (elim issue_cases) (auto simp: grant_inv_def tokens_text_ok_issued)
next
  case (issue_rejected env plan a e s' fs')
  with assms(2) show ?thesis by (elim issue_cases) (auto simp: grant_inv_def)
next
  case (consumed env token plan subject action g s' fs')
  with assms(2) show ?thesis by (elim consume_cases) (auto simp: grant_inv_def tokens_text_ok_setUsed)
next
  case (consume_rejected env token plan subject action e s' fs')
  with assms(2) show ?thesis by (elim consume_cases) (auto simp: grant_inv_def)
next
  case (restart path ttl s')
  with assms(2) openGrantStore_on_disk show ?thesis unfolding grant_inv_def by fastforce
next
  case (crash_issue env plan a raw x fault path ttl s')
  with assms(2) crash_on_disk openGrantStore_on_disk show ?thesis unfolding grant_inv_def by fastforce
next
  case (crash_consume token i now plan subject action x fault path ttl s')
  with assms(2) crash_on_disk openGrantStore_on_disk show ?thesis unfolding grant_inv_def by fastforce
qed

lemma grant_step_spent:
  assumes "grant_step w e w'" "grant_inv w" "spent_in (store_data (w_store w)) d"
  shows "spent_in (store_data (w_store w')) d"
  using assms(1)
proof (cases rule: grant_step.cases)
  case (issued env plan a r s' fs')
  from issued(3) assms(3) show ?thesis
    by (elim issue_cases) (auto simp: issued(2) issuedData_def spent_in_append)
next
  case (issue_rejected env plan a e s' fs')
  from issue_rejected(3) assms(3) show ?thesis by (elim issue_cases) (auto simp: issue_rejected(2))
next
  case (consumed env token plan subject action g s' fs')
  from consumed(3,4) assms(3) show ?thesis
    by (elim consume_cases) (auto simp: consumed(2) spent_in_setUsed)
next
  case (consume_rejected env token plan subject action e s' fs')
  from consume_rejected(3) assms(3) show ?thesis by (elim consume_cases) (auto simp: consume_rejected(2))
next
  case (restart path ttl s')
  with assms(2,3) show ?thesis by (auto simp: grant_inv_def intro: spent_after_open)
next
  case (crash_issue env plan a raw x fault path ttl s')
  have "spent_in (issuedData env plan a raw (w_store w)) d"
    using assms(3) by (simp add: issuedData_def spent_in_append)
  with crash_issue assms(2,3) crash_on_disk spent_after_open tokens_text_ok_issued show ?thesis
    unfolding grant_inv_def by (metis select_convs(1))
next
  case (crash_consume token i now plan subject action x fault path ttl s')
  have "spent_in (setUsed i now (store_data (w_store w))) d"
    using assms(3) crash_consume by (simp add: spent_in_setUsed)
  with crash_consume assms(2,3) crash_on_disk spent_after_open tokens_text_ok_setUsed show ?thesis
    unfolding grant_inv_def by (metis select_convs(1))
qed

fun event_key :: "grant_event \<Rightarrow> bytes option" where
  "event_key (EvConsume token g) = Some (sha256 token)"
| "event_key _ = None"

interpretation ledger: single_use grant_step grant_inv event_key "\<lambda>w. spent_in (store_data (w_store w))"
proof
  fix w e w' k
  assume w: "grant_inv w" and step: "grant_step w e w'"
  show "grant_inv w'" using step w by (rule grant_step_inv)
  show "spent_in (store_data (w_store w')) k" if "spent_in (store_data (w_store w)) k"
    using step w that by (rule grant_step_spent)
  assume "event_key e = Some k"
  then obtain token g where e: "e = EvConsume token g" "k = sha256 token" by (cases e) auto
  with step obtain env plan subject action s' fs'
    where c: "consume env token plan subject action (w_store w) (w_fs w) = (Inr g, s', fs')" "env_now env \<noteq> 0"
      and w': "w' = \<lparr>w_store = s', w_fs = fs'\<rparr>"
    by (auto elim: grant_step.cases)
  from c(1) show "\<not> spent_in (store_data (w_store w)) k"
    by (elim consume_cases) (auto simp: e spent_in_def consumeChecks_def split: if_splits)
  from c show "spent_in (store_data (w_store w')) k"
    by (elim consume_cases) (auto simp: e w' spent_in_setUsed)
qed

subsection \<open>Where a consumed grant comes from\<close>

fun responses :: "grant_event list \<Rightarrow> grant_response list" where
  "responses [] = []"
| "responses (EvIssue r # es) = r # responses es"
| "responses (EvIssueLost r # es) = r # responses es"
| "responses (_ # es) = responses es"

lemma set_responses: "r \<in> set (responses es) \<longleftrightarrow> EvIssue r \<in> set es \<or> EvIssueLost r \<in> set es"
  by (induction es rule: responses.induct) auto

text \<open>What the approval of a grant must have been: by a human approver other than the subject, for at most 15 minutes.\<close>

definition grant_authentic :: "confirmation_grant \<Rightarrow> bool" where
  "grant_authentic g \<longleftrightarrow> kind (grant_approver g) = ActorHuman \<and> PermissionConfirm \<in> set (permissions (grant_approver g)) \<and>
     actor_id (grant_approver g) \<noteq> grant_subject g \<and> grant_expires_at g \<le> grant_issued_at g + 15 * minute"

definition recorded :: "grant_response list \<Rightarrow> stored_grant \<Rightarrow> bool" where
  "recorded rs sg \<longleftrightarrow> readGrant (sg_grant sg) = sg_grant sg \<and>
     (\<exists>r \<in> set rs. sg_token_sha256 sg = sha256_hex (gr_token r) \<and>
        (sg_grant sg)\<lparr>grant_used_at := 0\<rparr> = gr_grant r \<and> grant_authentic (gr_grant r))"

definition provenance :: "grant_response list \<Rightarrow> grant_world \<Rightarrow> bool" where
  "provenance rs w \<longleftrightarrow> grant_inv w \<and> store_ttl (w_store w) \<le> 15 * minute \<and>
     list_all (recorded rs) (gs_grants (store_data (w_store w)))"

lemma printInt_ascii: "list_all ascii (printInt n)"
proof -
  have "list_all ascii (dec k)" for k
    using dec_digits [of k] by (auto simp: list_all_iff ascii_def is_digit_def in_range_def)
  then show ?thesis by (simp add: printInt_def ascii_def)
qed

lemma newSecurityID_utf8: "list_all ascii pre \<Longrightarrow> validUtf8 (newSecurityID pre rnd now)"
  by (rule validUtf8_ascii) (simp add: newSecurityID_def printInt_ascii hexEncode_ascii ascii_def split: option.splits)

lemma readGrant_newGrant:
  assumes "request_text_ok plan a"
  shows "readGrant (newGrant env ttl plan a) = newGrant env ttl plan a"
proof -
  have "validUtf8 GrantSchema" by (simp add: GrantSchema_def utf8_literal)
  moreover have "validUtf8 (newSecurityID ''grant'' r t)" for r t
    by (rule newSecurityID_utf8) (simp add: ascii_def)
  ultimately show ?thesis using assms
    by (simp add: request_text_ok_def plan_text_ok_def newGrant_def Let_def readGrant_def toValidUtf8_id)
qed

lemma newGrant_authentic:
  "issueChecks now data plan a = None \<Longrightarrow> ttl \<le> 15 * minute \<Longrightarrow> grant_authentic (newGrant env ttl plan a)"
  by (auto simp: issueChecks_def grant_authentic_def newGrant_def Let_def split: if_splits)

lemma recorded_mono: "recorded rs sg \<Longrightarrow> set rs \<subseteq> set rs' \<Longrightarrow> recorded rs' sg"
  by (auto simp: recorded_def)

lemma recorded_issued:
  assumes "list_all (recorded rs) (gs_grants (store_data s))" "issueChecks now (store_data s) plan a = None"
    "store_ttl s \<le> 15 * minute" "request_text_ok plan a"
  shows "list_all (recorded (rs @ [\<lparr>gr_grant = newGrant env (store_ttl s) plan a, gr_token = hexEncode raw\<rparr>]))
    (gs_grants (issuedData env plan a raw s))"
proof -
  have "(newGrant env (store_ttl s) plan a)\<lparr>grant_used_at := 0\<rparr> = newGrant env (store_ttl s) plan a"
    by (simp add: newGrant_def Let_def)
  with assms(2-) have "recorded (rs @ [\<lparr>gr_grant = newGrant env (store_ttl s) plan a, gr_token = hexEncode raw\<rparr>])
      \<lparr>sg_grant = newGrant env (store_ttl s) plan a, sg_token_sha256 = sha256_hex (hexEncode raw)\<rparr>"
    by (simp add: recorded_def readGrant_newGrant newGrant_authentic)
  with assms(1) show ?thesis by (auto simp: issuedData_def list_all_iff intro: recorded_mono)
qed

lemma readGrant_used: "readGrant (g\<lparr>grant_used_at := t\<rparr>) = (readGrant g)\<lparr>grant_used_at := t\<rparr>"
  by (simp add: readGrant_def)

lemma recorded_setUsed:
  "list_all (recorded rs) (gs_grants data) \<Longrightarrow> list_all (recorded rs) (gs_grants (setUsed i t data))"
  by (auto simp: list_all_length setUsed_nth recorded_def readGrant_used)

lemma recorded_read:
  assumes "list_all (recorded rs) (gs_grants data)"
  shows "gs_grants (readState data) = gs_grants data"
proof -
  have "readStored sg = sg" if "recorded rs sg" for sg
    using that by (auto simp: recorded_def readStored_def sha256_hex_def toValidUtf8_id hexEncode_validUtf8)
  with assms show ?thesis by (auto simp: readState_def list_all_iff intro: map_idI)
qed

lemma recorded_open:
  assumes "on_disk (fs_target fs) data" "list_all (recorded rs) (gs_grants data)" "openGrantStore path ttl fs = Inr s"
  shows "list_all (recorded rs) (gs_grants (store_data s)) \<and> store_ttl s \<le> 15 * minute"
  using openGrantStore_on_disk [OF assms(1,3)] recorded_read [OF assms(2)] assms(2) by auto

lemma provenance_step:
  assumes "grant_step w e w'" "provenance rs w"
  shows "provenance (rs @ responses [e]) w'"
proof -
  have inv': "grant_inv w'" using assms by (auto simp: provenance_def intro: grant_step_inv)
  let ?old = "gs_grants (store_data (w_store w))"
  from assms(2) have w: "grant_inv w" "store_ttl (w_store w) \<le> 15 * minute" "list_all (recorded rs) ?old"
    by (simp_all add: provenance_def)
  have disk: "on_disk (fs_target (w_fs w)) (store_data (w_store w))" using w(1) by (simp add: grant_inv_def)
  have keep: "list_all (recorded (rs @ responses [e])) ?old"
    using w(3) by (auto simp: list_all_iff intro: recorded_mono)
  have "list_all (recorded (rs @ responses [e])) (gs_grants (store_data (w_store w'))) \<and> store_ttl (w_store w') \<le> 15 * minute"
    using assms(1)
  proof (cases rule: grant_step.cases)
    case (issued env plan a r s' fs')
    from issued(3) w(2,3) issued(4) show ?thesis
      by (elim issue_cases) (auto simp: issued(1,2) intro: recorded_issued)
  next
    case (issue_rejected env plan a e s' fs')
    from issue_rejected(3) w keep show ?thesis by (elim issue_cases) (auto simp: issue_rejected(2))
  next
    case (consumed env token plan subject action g s' fs')
    from consumed(3) w(2) keep show ?thesis by (elim consume_cases) (auto simp: consumed(2) recorded_setUsed)
  next
    case (consume_rejected env token plan subject action e s' fs')
    from consume_rejected(3) w keep show ?thesis by (elim consume_cases) (auto simp: consume_rejected(2))
  next
    case (restart path ttl s')
    with recorded_open [OF disk keep restart(3)] show ?thesis by simp
  next
    case (crash_issue env plan a raw x fault path ttl s')
    from crash_on_disk [OF disk crash_issue(6)] show ?thesis
    proof
      assume "on_disk (fs_target x) (store_data (w_store w))"
      with recorded_open [OF _ keep crash_issue(7)] crash_issue(2) show ?thesis by simp
    next
      assume "on_disk (fs_target x) (issuedData env plan a raw (w_store w))"
      from recorded_open [OF this recorded_issued [OF w(3) crash_issue(3) w(2) crash_issue(5)] crash_issue(7)]
      show ?thesis by (simp add: crash_issue(1,2))
    qed
  next
    case (crash_consume token i now plan subject action x fault path ttl s')
    from crash_on_disk [OF disk crash_consume(6)] recorded_open [OF _ keep crash_consume(7)]
      recorded_open [OF _ recorded_setUsed [OF keep] crash_consume(7)] crash_consume(2) show ?thesis by auto
  qed
  with inv' show ?thesis by (simp add: provenance_def)
qed

lemma consume_recorded:
  assumes "consume env token plan subject action (w_store w) (w_fs w) = (Inr g, s', fs')" "provenance rs w"
  shows "\<exists>r \<in> set rs. sha256 (gr_token r) = sha256 token \<and> g\<lparr>grant_used_at := 0\<rparr> = gr_grant r \<and>
    grant_authentic g \<and> grant_used_at g = env_now env \<and> env_now env < grant_expires_at g \<and>
    grant_plan_id g = plan_id plan \<and> equalFold (grant_plan_digest g) (plan_digest plan) \<and>
    grant_subject g = subject \<and> grant_session_id g = plan_session_id plan \<and> grant_action g = action"
  using assms(1)
proof (cases rule: consume_cases)
  case (Consumed i)
  let ?sg = "gs_grants (store_data (w_store w)) ! i"
  from first_index_Some [OF Consumed(1)] have i: "i < length (gs_grants (store_data (w_store w)))" "token_matches (sha256 token) ?sg"
    by auto
  with assms(2) have "recorded rs ?sg" by (simp add: provenance_def list_all_length)
  then obtain r where r: "r \<in> set rs" "sg_token_sha256 ?sg = sha256_hex (gr_token r)"
      "(sg_grant ?sg)\<lparr>grant_used_at := 0\<rparr> = gr_grant r" "grant_authentic (gr_grant r)"
    by (auto simp: recorded_def)
  have g: "g = (sg_grant ?sg)\<lparr>grant_used_at := env_now env\<rparr>" using Consumed(4) by simp
  have "grant_authentic g" using r(4) unfolding r(3) [symmetric] g by (simp add: grant_authentic_def)
  moreover have "sha256 (gr_token r) = sha256 token"
    using i(2) unfolding token_matches_def r(2) sha256_hex_def by simp
  moreover have "g\<lparr>grant_used_at := 0\<rparr> = gr_grant r" using r(3) by (simp add: g)
  ultimately show ?thesis
    using r(1) Consumed(3) by (intro bexI [of _ r]) (auto simp: g consumeChecks_def split: if_splits)
qed simp

subsection \<open>Properties\<close>

definition exampleApprover :: actor where
  "exampleApprover = \<lparr>actor_id = ''human:bob'', kind = ActorHuman, display_name = ''Bob'', roles = [''approver''],
     permissions = [PermissionAuditRead, PermissionControlRead, PermissionInventoryRead, PermissionOperationCatalog,
       PermissionConfirm, PermissionOperationExecute, PermissionOperationPlan]\<rparr>"

definition exampleEnv :: grant_env where
  "exampleEnv = \<lparr>env_now = exampleNow + second, env_token = Some (replicate 32 (CHR ''t'')), env_id = Some (replicate 16 (CHR ''g'')),
     env_clock = exampleNow, env_fault = None\<rparr>"

definition emptyStore :: grant_store where
  "emptyStore = \<lparr>store_ttl = 5 * minute, store_data = \<lparr>gs_schema = grantStoreSchema, gs_grants = []\<rparr>\<rparr>"

definition emptyFs :: store_fs where
  "emptyFs = \<lparr>fs_target = FileMissing, fs_temp = None\<rparr>"

definition exampleGrant :: confirmation_grant where
  "exampleGrant = newGrant exampleEnv (5 * minute) examplePlan exampleApprover"

definition exampleToken :: string where
  "exampleToken = hexEncode (replicate 32 (CHR ''t''))"

definition issuedState :: grant_state where
  "issuedState = \<lparr>gs_schema = grantStoreSchema, gs_grants = [\<lparr>sg_grant = exampleGrant, sg_token_sha256 = sha256_hex exampleToken\<rparr>]\<rparr>"

definition issuedStore :: grant_store where
  "issuedStore = \<lparr>store_ttl = 5 * minute, store_data = issuedState\<rparr>"

definition issuedFs :: store_fs where
  "issuedFs = \<lparr>fs_target = stateFile issuedState, fs_temp = None\<rparr>"

definition consumedState :: grant_state where
  "consumedState = setUsed 0 (exampleNow + second) issuedState"

definition consumedWorld :: grant_world where
  "consumedWorld = \<lparr>w_store = \<lparr>store_ttl = 5 * minute, store_data = consumedState\<rparr>,
     w_fs = \<lparr>fs_target = stateFile consumedState, fs_temp = None\<rparr>\<rparr>"

definition exampleUsed :: confirmation_grant where
  "exampleUsed = exampleGrant\<lparr>grant_used_at := exampleNow + second\<rparr>"

lemma exampleTimes: "marshalable (exampleNow + second)" "marshalable (exampleNow + 5 * minute)" "marshalable 0"
  by code_simp+

lemma exampleGrant_sel [simp]:
  "grant_used_at exampleGrant = 0" "grant_plan_id exampleGrant = plan_id examplePlan"
  "grant_plan_digest exampleGrant = plan_digest examplePlan" "grant_subject exampleGrant = actor_id exampleNormal"
  "grant_session_id exampleGrant = ''s-1''" "grant_action exampleGrant = plan_action examplePlan"
  "grant_issued_at exampleGrant = exampleNow + second" "grant_expires_at exampleGrant = exampleNow + 5 * minute"
  "grant_approver exampleGrant = exampleApprover"
  by (simp_all add: exampleGrant_def newGrant_def Let_def exampleEnv_def duration_defs)

lemma examplePlan_verifies: "verifyPlanDigest examplePlan"
  using buildPlan_verifies [OF examplePlan_built] by simp

lemma example_issueChecks:
  "issueChecks (exampleNow + second) \<lparr>gs_schema = grantStoreSchema, gs_grants = []\<rparr> examplePlan exampleApprover = None"
proof -
  have "trimSpace ''s-1'' \<noteq> []" by code_simp
  moreover have "actor_id exampleNormal \<noteq> actor_id exampleApprover" by (simp add: exampleNormal_def exampleApprover_def)
  ultimately show ?thesis using examplePlan_verifies
    by (simp add: issueChecks_def exampleApprover_def duration_defs)
qed

lemma example_issue:
  "issue exampleEnv examplePlan exampleApprover emptyStore emptyFs =
     (Inr \<lparr>gr_grant = exampleGrant, gr_token = exampleToken\<rparr>, issuedStore, issuedFs)"
proof -
  have "grant_marshalable exampleGrant" using exampleTimes by (simp add: grant_marshalable_def)
  then show ?thesis using example_issueChecks
    by (simp add: issue_def exampleEnv_def emptyStore_def emptyFs_def issuedStore_def issuedFs_def issuedState_def
        persistLocked_eq exampleGrant_def exampleToken_def Let_def)
qed

lemma example_consume:
  "consume exampleEnv exampleToken examplePlan (actor_id exampleNormal) (plan_action examplePlan) issuedStore issuedFs =
     (Inr exampleUsed, w_store consumedWorld, w_fs consumedWorld)"
proof -
  have "trimSpace exampleToken \<noteq> []" by (simp add: exampleToken_def)
  moreover have "grant_marshalable (exampleGrant\<lparr>grant_used_at := exampleNow + second\<rparr>)"
    using exampleTimes by (simp add: grant_marshalable_def)
  ultimately show ?thesis using examplePlan_verifies
    by (simp add: consume_def consumePlanChecks_def consumeChecks_def exampleEnv_def issuedStore_def issuedFs_def
        issuedState_def consumedWorld_def consumedState_def persistLocked_eq token_matches_def sha256_hex_def
        setUsed_def exampleUsed_def Let_def duration_defs)
qed

lemma example_request_text: "request_text_ok examplePlan exampleApprover"
proof -
  have "plan_digest examplePlan = planDigest examplePlan" using buildPlan_verifies [OF examplePlan_built] by simp
  then have "validUtf8 (plan_digest examplePlan)" by (simp add: planDigest_def sha256_hex_def hexEncode_validUtf8)
  moreover have "readActor exampleApprover = exampleApprover" by code_simp
  ultimately show ?thesis by (simp add: request_text_ok_def examplePlan_text_ok)
qed

lemma example_run:
  "steps grant_step \<lparr>w_store = emptyStore, w_fs = emptyFs\<rparr>
     [EvIssue \<lparr>gr_grant = exampleGrant, gr_token = exampleToken\<rparr>, EvConsume exampleToken exampleUsed] consumedWorld"
proof (intro steps_cons steps_nil)
  show "grant_step \<lparr>w_store = emptyStore, w_fs = emptyFs\<rparr> (EvIssue \<lparr>gr_grant = exampleGrant, gr_token = exampleToken\<rparr>)
      \<lparr>w_store = issuedStore, w_fs = issuedFs\<rparr>"
    by (rule grant_step.issued [OF _ example_request_text, of exampleEnv]) (simp add: example_issue)
  have now: "env_now exampleEnv \<noteq> 0" by (simp add: exampleEnv_def exampleNow_def duration_defs)
  have c: "consume exampleEnv exampleToken examplePlan (actor_id exampleNormal) (plan_action examplePlan)
      (w_store \<lparr>w_store = issuedStore, w_fs = issuedFs\<rparr>) (w_fs \<lparr>w_store = issuedStore, w_fs = issuedFs\<rparr>) =
      (Inr exampleUsed, w_store consumedWorld, w_fs consumedWorld)"
    unfolding grant_world.select_convs by (rule example_consume)
  from grant_step.consumed [OF c now]
  show "grant_step \<lparr>w_store = issuedStore, w_fs = issuedFs\<rparr> (EvConsume exampleToken exampleUsed) consumedWorld"
    by (simp add: consumedWorld_def)
qed (rule steps_nil)

lemma empty_world_inv: "grant_inv \<lparr>w_store = emptyStore, w_fs = emptyFs\<rparr>" "provenance [] \<lparr>w_store = emptyStore, w_fs = emptyFs\<rparr>"
  by (simp_all add: grant_inv_def provenance_def on_disk_def tokens_text_ok_def emptyStore_def emptyFs_def duration_defs)

text \<open>
  A grant token is good for one execution. In every run of the grant store, through any sequence of
  successful and rejected calls, restarts, and crashes at any point of persisting, the SHA-256 digests of
  the tokens consumed are pairwise different; in particular no token is consumed twice.
\<close>

theorem grant_single_use:
  assumes "steps grant_step w es w'" "grant_inv w"
  shows "distinct (List.map_filter event_key es) \<and> grant_inv w'"
  using ledger.keys_used_once [OF assms] by blast

theorem grant_single_use_witness:
  "steps grant_step \<lparr>w_store = emptyStore, w_fs = emptyFs\<rparr>
     [EvIssue \<lparr>gr_grant = exampleGrant, gr_token = exampleToken\<rparr>, EvConsume exampleToken exampleUsed] consumedWorld \<and>
   grant_inv consumedWorld"
  using grant_single_use [OF example_run empty_world_inv(1)] example_run by blast

text \<open>
  C20. Nothing is consumed that was not approved. In every run that starts from an empty store, a consumed
  grant was issued earlier in the run (by a call that returned, or whose answer was lost in a crash) for a
  token with the same SHA-256 digest; apart from the use time it is exactly the grant issued; its approver
  is a human with the confirm permission other than the subject; it lives at most 15 minutes and was used
  before it expired.
\<close>

theorem consumed_grant_was_approved:
  assumes "steps grant_step w es w'" "provenance rs w" "k < length es" "es ! k = EvConsume token g"
  shows "\<exists>r. (r \<in> set rs \<or> EvIssue r \<in> set (take k es) \<or> EvIssueLost r \<in> set (take k es)) \<and>
    sha256 (gr_token r) = sha256 token \<and> g\<lparr>grant_used_at := 0\<rparr> = gr_grant r \<and>
    kind (grant_approver g) = ActorHuman \<and> PermissionConfirm \<in> set (permissions (grant_approver g)) \<and>
    actor_id (grant_approver g) \<noteq> grant_subject g \<and> grant_expires_at g \<le> grant_issued_at g + 15 * minute \<and>
    grant_used_at g < grant_expires_at g"
  using assms
proof (induction arbitrary: k rs rule: steps.induct)
  case (steps_cons w e w' es w'')
  show ?case
  proof (cases k)
    case 0
    with steps_cons.prems have e: "e = EvConsume token g" by simp
    with steps_cons.hyps(1) obtain env plan subject action s' fs'
      where c: "consume env token plan subject action (w_store w) (w_fs w) = (Inr g, s', fs')"
      by (auto elim: grant_step.cases)
    from consume_recorded [OF c steps_cons.prems(1)] 0 show ?thesis by (auto simp: grant_authentic_def)
  next
    case (Suc j)
    from steps_cons.IH [OF provenance_step [OF steps_cons.hyps(1) steps_cons.prems(1)], of j] steps_cons.prems(2,3) Suc
    obtain r where "(r \<in> set (rs @ responses [e]) \<or> EvIssue r \<in> set (take j es) \<or> EvIssueLost r \<in> set (take j es)) \<and>
      sha256 (gr_token r) = sha256 token \<and> g\<lparr>grant_used_at := 0\<rparr> = gr_grant r \<and>
      kind (grant_approver g) = ActorHuman \<and> PermissionConfirm \<in> set (permissions (grant_approver g)) \<and>
      actor_id (grant_approver g) \<noteq> grant_subject g \<and> grant_expires_at g \<le> grant_issued_at g + 15 * minute \<and>
      grant_used_at g < grant_expires_at g" by auto
    with Suc show ?thesis by (intro exI [of _ r]) (auto simp: set_responses)
  qed
qed simp

theorem consumed_grant_was_approved_witness:
  "steps grant_step \<lparr>w_store = emptyStore, w_fs = emptyFs\<rparr>
     [EvIssue \<lparr>gr_grant = exampleGrant, gr_token = exampleToken\<rparr>, EvConsume exampleToken exampleUsed] consumedWorld \<and>
   (\<exists>r. EvIssue r \<in> set [EvIssue \<lparr>gr_grant = exampleGrant, gr_token = exampleToken\<rparr>] \<and> sha256 (gr_token r) = sha256 exampleToken \<and>
     exampleUsed\<lparr>grant_used_at := 0\<rparr> = gr_grant r \<and> kind (grant_approver exampleUsed) = ActorHuman \<and>
     PermissionConfirm \<in> set (permissions (grant_approver exampleUsed)) \<and>
     actor_id (grant_approver exampleUsed) \<noteq> grant_subject exampleUsed \<and> grant_used_at exampleUsed < grant_expires_at exampleUsed)"
  using consumed_grant_was_approved [OF example_run empty_world_inv(2), of 1 exampleToken exampleUsed] example_run by auto

text \<open>
  C22. Grant operations are all or nothing. If \<^verbatim>\<open>Issue\<close> or \<^verbatim>\<open>Consume\<close> returns an error, the grants in
  memory and the file are as before, whichever guard or system call failed; if it returns a result, the
  file holds exactly the new state in memory. And at every moment while a new state is being persisted,
  the file holds either the old document or the complete new one.
\<close>

theorem grant_operations_atomic:
  "(case issue env plan a s fs of
      (Inl _, s', fs') \<Rightarrow> s' = s \<and> fs_target fs' = fs_target fs
    | (Inr r, s', fs') \<Rightarrow> fs_target fs' = stateFile (store_data s') \<and>
        gs_grants (store_data s') = gs_grants (store_data s) @
          [\<lparr>sg_grant = gr_grant r, sg_token_sha256 = sha256_hex (gr_token r)\<rparr>]) \<and>
   (case consume env token plan subject action s fs of
      (Inl _, s', fs') \<Rightarrow> s' = s \<and> fs_target fs' = fs_target fs
    | (Inr g, s', fs') \<Rightarrow> fs_target fs' = stateFile (store_data s') \<and>
        (\<exists>i < length (gs_grants (store_data s)). store_data s' = setUsed i (env_now env) (store_data s))) \<and>
   list_all (\<lambda>x. fs_target x \<in> {fs_target fs, stateFile st}) (persistTrace fault st fs)"
proof (intro conjI)
  obtain r s' fs' where i: "issue env plan a s fs = (r, s', fs')" by (metis prod_cases3)
  then show "case issue env plan a s fs of
      (Inl _, s', fs') \<Rightarrow> s' = s \<and> fs_target fs' = fs_target fs
    | (Inr r, s', fs') \<Rightarrow> fs_target fs' = stateFile (store_data s') \<and>
        gs_grants (store_data s') = gs_grants (store_data s) @
          [\<lparr>sg_grant = gr_grant r, sg_token_sha256 = sha256_hex (gr_token r)\<rparr>]"
    by (cases rule: issue_cases) (simp_all add: i issuedData_def)
  obtain q t' gs' where c: "consume env token plan subject action s fs = (q, t', gs')" by (metis prod_cases3)
  then show "case consume env token plan subject action s fs of
      (Inl _, s', fs') \<Rightarrow> s' = s \<and> fs_target fs' = fs_target fs
    | (Inr g, s', fs') \<Rightarrow> fs_target fs' = stateFile (store_data s') \<and>
        (\<exists>i < length (gs_grants (store_data s)). store_data s' = setUsed i (env_now env) (store_data s))"
    by (cases rule: consume_cases) (auto simp: c dest: first_index_Some)
  show "list_all (\<lambda>x. fs_target x \<in> {fs_target fs, stateFile st}) (persistTrace fault st fs)"
    using persistTrace_target by (auto simp: list_all_iff)
qed

lemma readState_fix:
  "readState d = d \<longleftrightarrow> toValidUtf8 (gs_schema d) = gs_schema d \<and> map readStored (gs_grants d) = gs_grants d"
  by (cases d) (simp add: readState_def)

lemma checkStored_snoc:
  "checkStored seen xs = None \<Longrightarrow> checkStored (rev (map (grant_id \<circ> sg_grant) xs) @ seen) [y] = None \<Longrightarrow>
     checkStored seen (xs @ [y]) = None"
  by (induction seen xs rule: checkStored.induct) (auto simp: Let_def split: if_splits)

text \<open>
  C23. What was issued survives a restart. If a grant is issued for a plan with well-formed text and
  non-empty ID, subject and action into a store that itself loads, and its ID is new, then opening the store
  again from the file yields exactly the grants that were in memory, or fails because the document has grown
  beyond the 8 MiB the loader accepts (grants are never removed from the store).
\<close>

theorem issued_grants_reload:
  assumes "issue env plan a s fs = (Inr r, s', fs')" "request_text_ok plan a"
    and "plan_id plan \<noteq> []" "actor_id (plan_actor plan) \<noteq> []" "plan_action plan \<noteq> []"
    and "gs_schema (store_data s) = grantStoreSchema" "readState (store_data s) = store_data s"
    and "checkStored [] (gs_grants (store_data s)) = None"
    and "grant_id (gr_grant r) \<notin> grant_id ` sg_grant ` set (gs_grants (store_data s))"
    and "trimSpace path \<noteq> []" "0 < ttl" "ttl \<le> 15 * minute"
  shows "openGrantStore path ttl fs' =
    (if length (jindent 0 (grantStateJson (store_data s'))) \<ge> 8388608 then Inl StoreTooLarge
     else Inr \<lparr>store_ttl = ttl, store_data = store_data s'\<rparr>)"
  using assms(1)
proof (cases rule: issue_cases)
  case (Issued raw)
  let ?g = "newGrant env (store_ttl s) plan a"
  let ?sg = "\<lparr>sg_grant = ?g, sg_token_sha256 = sha256_hex (hexEncode raw)\<rparr>"
  have data: "store_data s' = issuedData env plan a raw s" using Issued(4) by simp
  have "plan_session_id plan \<noteq> []" "plan_digest plan \<noteq> []"
    using Issued(3) by (auto simp: issueChecks_def verifyPlanDigest_iff split: if_splits)
  moreover have "newSecurityID ''grant'' x y \<noteq> []" for x y by (simp add: newSecurityID_def split: option.splits)
  moreover have "grant_id ?g \<notin> set (map (grant_id \<circ> sg_grant) (gs_grants (store_data s)))"
    using assms(9) Issued(2) by auto
  ultimately have "checkStored (rev (map (grant_id \<circ> sg_grant) (gs_grants (store_data s))) @ []) [?sg] = None"
    using assms(3-5) by (simp add: newGrant_def Let_def decodeSHA256_def sha256_hex_def)
  from checkStored_snoc [OF assms(8) this] have "checkStored [] (gs_grants (store_data s')) = None"
    by (simp add: data issuedData_def)
  moreover have "readState (store_data s') = store_data s'"
    using assms(7) readGrant_newGrant [OF assms(2)]
    by (simp add: data issuedData_def readState_fix)
      (simp add: readStored_def sha256_hex_def toValidUtf8_id hexEncode_validUtf8)
  ultimately show ?thesis
    using assms(6,10-) Issued(5) data
    by (simp add: openGrantStore_def loadStore_def stateFile_def issuedData_def)
qed simp

theorem issued_grants_reload_witness:
  "openGrantStore ''/var/lib/q'' second issuedFs =
    (if length (jindent 0 (grantStateJson issuedState)) \<ge> 8388608 then Inl StoreTooLarge
     else Inr \<lparr>store_ttl = second, store_data = issuedState\<rparr>)"
proof -
  have "trimSpace ''/var/lib/q'' \<noteq> []" "readState (store_data emptyStore) = store_data emptyStore" by code_simp+
  then show ?thesis
    using issued_grants_reload [OF example_issue example_request_text, of "''/var/lib/q''" second]
    by (simp add: emptyStore_def issuedStore_def exampleNormal_def duration_defs)
qed

lemma issue_marshalable:
  assumes "issue env plan approver s fs = (Inr resp, s', fs')"
  shows "list_all (\<lambda>sg. grant_marshalable (sg_grant sg)) (gs_grants (store_data s'))"
proof -
  from assms obtain raw where "env_token env = Some raw" "issueChecks (env_now env) (store_data s) plan approver = None"
    "s' = s\<lparr>store_data := issuedData env plan approver raw s\<rparr>"
    by (rule issue_cases) auto
  with assms show ?thesis
    by (auto simp: issue_def Let_def issuedData_def persistLocked_eq split: prod.splits option.splits if_splits)
qed

lemma setUsed_marshalable:
  "list_all (\<lambda>sg. grant_marshalable (sg_grant sg)) (gs_grants data) \<Longrightarrow> marshalable t \<Longrightarrow> i < length (gs_grants data) \<Longrightarrow>
   list_all (\<lambda>sg. grant_marshalable (sg_grant sg)) (gs_grants (setUsed i t data))"
  by (auto simp: setUsed_def list_all_length nth_list_update grant_marshalable_def)

text \<open>
  C21. A confirmation that was given can be used. After \<^verbatim>\<open>Issue\<close> has returned a grant and its token, \<^verbatim>\<open>Consume\<close> with this token
  for the same plan, its actor and its action succeeds at every moment before the grant expires, provided that the store can be
  written and the random token is new to it; it returns the grant, marked as used at that moment.
\<close>

theorem issued_grant_consumable:
  assumes "issue env plan approver s fs = (Inr resp, s1, fs1)"
    and "list_all (\<lambda>sg. \<not> token_matches (sha256 (gr_token resp)) sg) (gs_grants (store_data s))" "gr_token resp \<noteq> []"
    and "env_now env2 < grant_expires_at (gr_grant resp)" "env_fault env2 = None" "marshalable (env_now env2)"
  shows "\<exists>s2 fs2. consume env2 (gr_token resp) plan (actor_id (plan_actor plan)) (plan_action plan) s1 fs1 =
    (Inr ((gr_grant resp)\<lparr>grant_used_at := env_now env2\<rparr>), s2, fs2) \<and>
    fs_target fs2 = stateFile (store_data s2)"
proof -
  let ?g = "newGrant env (store_ttl s) plan approver" and ?n = "length (gs_grants (store_data s))"
  from assms(1) obtain raw where resp: "resp = \<lparr>gr_grant = ?g, gr_token = hexEncode raw\<rparr>"
    and checks: "issueChecks (env_now env) (store_data s) plan approver = None"
    and s1: "s1 = s\<lparr>store_data := issuedData env plan approver raw s\<rparr>"
    by (rule issue_cases) auto
  have "first_index (token_matches (sha256 (hexEncode raw))) (gs_grants (store_data s)) = None"
    using assms(2) by (simp add: first_index_None resp list_all_iff)
  then have idx: "first_index (token_matches (sha256 (hexEncode raw))) (gs_grants (store_data s1)) = Some ?n"
    by (simp add: s1 issuedData_def first_index_append token_matches_def sha256_hex_def)
  have nth: "sg_grant (gs_grants (store_data s1) ! ?n) = ?g" by (simp add: s1 issuedData_def)
  have "env_now env2 < plan_expires_at plan" using assms(4) by (simp add: resp newGrant_def Let_def split: if_splits)
  then have "consumePlanChecks (env_now env2) (hexEncode raw) plan = None"
    using checks assms(3) by (simp add: consumePlanChecks_def issueChecks_def resp split: if_splits)
  moreover have "consumeChecks (env_now env2) ?g plan (actor_id (plan_actor plan)) (plan_action plan) = None"
    using assms(4) by (simp add: consumeChecks_def resp newGrant_def Let_def)
  moreover have "list_all (\<lambda>sg. grant_marshalable (sg_grant sg)) (gs_grants (setUsed ?n (env_now env2) (store_data s1)))"
    using issue_marshalable [OF assms(1)] assms(6) by (rule setUsed_marshalable) (simp add: s1 issuedData_def)
  moreover have "sg_grant (gs_grants (setUsed ?n (env_now env2) (store_data s1)) ! ?n) = ?g\<lparr>grant_used_at := env_now env2\<rparr>"
    using nth by (simp add: setUsed_def) (simp add: s1 issuedData_def)
  ultimately show ?thesis using idx nth assms(5)
    by (simp add: consume_def resp persistLocked_eq Let_def)
qed

theorem issued_grant_consumable_witness:
  "\<exists>s2 fs2. consume exampleEnv exampleToken examplePlan (actor_id exampleNormal) (plan_action examplePlan) issuedStore issuedFs =
     (Inr exampleUsed, s2, fs2) \<and> fs_target fs2 = stateFile (store_data s2)"
proof -
  have "exampleToken \<noteq> []" by (simp add: exampleToken_def)
  with issued_grant_consumable [OF example_issue, of exampleEnv] exampleTimes(1) show ?thesis
    by (simp add: emptyStore_def exampleUsed_def) (simp add: exampleEnv_def duration_defs)
qed

end
