(* ===== verification/QC_AuditLog.thy ===== *)
theory QC_AuditLog
  imports QC_Grants
begin

text \<open>
  The hash-chained audit log: \<^verbatim>\<open>internal/security/audit.go\<close> with the audit types of \<^verbatim>\<open>types.go\<close>.

  The store is the list of records in memory with the head hash and the sequence number. The file is a
  list of lines, of which the last one may lack its newline. A line is the JSON text of a record, possibly
  with blanks before it and further bytes after it (the decoder reads the first value of a line and ignores
  the rest), or text the decoder refuses, or blank. A record is read back as \<open>readRecord\<close> of what was
  written, and a line of \<open>maxAuditLineBytes\<close> bytes or more does not fit the scanner's buffer together
  with its newline. Bytes appended to a file whose last line has no newline continue that line, as with
  \<^verbatim>\<open>O_APPEND\<close>. Sequence numbers are 64-bit words, as in the source.
  Hashes are concrete: \<open>auditHash\<close> is the SHA-256 of the canonical JSON text.
\<close>

subsection \<open>Data\<close>

definition AuditSchema :: string where "AuditSchema = ''quantum.control/audit-record/v1alpha1''"

definition maxAuditLineBytes :: nat where "maxAuditLineBytes = 1048576"

record audit_record =
  audit_schema :: string
  audit_sequence :: "64 word"
  audit_id :: string
  audit_timestamp :: gotime
  audit_event :: string
  audit_actor :: actor
  audit_request_id :: string
  audit_session_id :: string
  audit_plan_id :: string
  audit_plan_digest :: string
  audit_action :: string
  audit_risk :: string
  audit_status :: string
  audit_rollback_status :: string
  audit_parameters :: smap
  audit_error_code :: string
  audit_previous_hash :: string
  audit_entry_hash :: string

record event_data =
  ev_event :: string
  ev_actor :: actor
  ev_request_id :: string
  ev_session_id :: string
  ev_plan_id :: string
  ev_plan_digest :: string
  ev_action :: string
  ev_risk :: string
  ev_status :: string
  ev_rollback_status :: string
  ev_parameters :: smap
  ev_error_code :: string

record audit_store =
  as_records :: "audit_record list"
  as_last_hash :: string
  as_sequence :: "64 word"

definition emptyAuditStore :: audit_store where
  "emptyAuditStore = \<lparr>as_records = [], as_last_hash = [], as_sequence = 0\<rparr>"

lemma emptyAuditStore_sel [simp]:
  "as_records emptyAuditStore = []" "as_last_hash emptyAuditStore = []" "as_sequence emptyAuditStore = 0"
  by (simp_all add: emptyAuditStore_def)

subsection \<open>Sanitising\<close>

definition sanitizeLabel :: "string \<Rightarrow> nat \<Rightarrow> string" where
  "sanitizeLabel value0 limit =
     (let v = trimSpace value0;
          v' = (if length v > limit then take limit v else v)
      in if list_ex (\<lambda>r. byte_of r < 0x20 \<or> byte_of r = 0x7F) v' then [] else v')"

definition sanitizeDigest :: "string \<Rightarrow> string" where
  "sanitizeDigest value0 =
     (let v = toLower (trimSpace value0) in
      if length v \<noteq> 64 then [] else if hexDecode v = None then [] else v)"

definition secretMarkers :: "string list" where
  "secretMarkers = [''password'', ''passwd'', ''passphrase'', ''token'', ''secret'', ''credential'', ''api_key'',
     ''apikey'', ''private_key'']"

definition secretKey :: "string \<Rightarrow> bool" where
  "secretKey key =
     (let v = toLower (map (\<lambda>c. if c = CHR ''-'' \<or> c = CHR ''.'' then CHR ''_'' else c) (trimSpace key))
      in list_ex (contains v) secretMarkers)"

definition redactValue :: "string \<Rightarrow> string \<Rightarrow> string" where
  "redactValue key v =
     (if secretKey key then ''[REDACTED]''
      else if length v > 512 then take 512 v @ ''[TRUNCATED]''
      else v)"

definition redactParameters :: "smap \<Rightarrow> smap" where
  "redactParameters ps =
     (if ps = [] then [] else foldl (\<lambda>m (key, v). AList.update key (redactValue key v) m) [] ps)"

subsection \<open>Hashes and lines\<close>

text \<open>A member with \<^verbatim>\<open>omitempty\<close>.\<close>

definition omitempty :: "string \<Rightarrow> string \<Rightarrow> (string \<times> json) list" where
  "omitempty k v = (if v = [] then [] else [(k, JStr v)])"

definition canonicalAudit :: "audit_record \<Rightarrow> json" where
  "canonicalAudit r = JObj
     ([(''schema'', JStr (audit_schema r)), (''sequence'', JNum (unat (audit_sequence r))), (''id'', JStr (audit_id r)),
       (''timestamp'', JStr (rfc3339nano (audit_timestamp r))), (''event'', JStr (audit_event r)),
       (''actor_id'', JStr (actor_id (audit_actor r))), (''actor_kind'', JStr (kind (audit_actor r))),
       (''roles'', JArr (map JStr (sort (roles (audit_actor r))))),
       (''permissions'', JArr (map JStr (sort (permissions (audit_actor r)))))] @
      omitempty ''request_id'' (audit_request_id r) @ omitempty ''session_id'' (audit_session_id r) @
      omitempty ''plan_id'' (audit_plan_id r) @ omitempty ''plan_digest'' (audit_plan_digest r) @
      omitempty ''action'' (audit_action r) @ omitempty ''risk'' (audit_risk r) @
      [(''status'', JStr (audit_status r))] @ omitempty ''rollback_status'' (audit_rollback_status r) @
      (if audit_parameters r = [] then []
       else [(''parameters'', JArr (map (\<lambda>(n, v). JObj [(''name'', JStr n), (''value'', JStr v)])
               (sort_key fst (audit_parameters r))))]) @
      omitempty ''error_code'' (audit_error_code r) @ [(''previous_hash'', JStr (audit_previous_hash r))])"

definition auditHash :: "audit_record \<Rightarrow> string" where
  "auditHash r = sha256_hex (jenc (canonicalAudit r))"

text \<open>\<^verbatim>\<open>json.Marshal\<close> of the record; map keys are written in sorted order.\<close>

definition recordJson :: "audit_record \<Rightarrow> json" where
  "recordJson r = JObj
     ([(''schema'', JStr (audit_schema r)), (''sequence'', JNum (unat (audit_sequence r))), (''id'', JStr (audit_id r)),
       (''timestamp'', JStr (rfc3339nano (audit_timestamp r))), (''event'', JStr (audit_event r)),
       (''actor'', actorJson (audit_actor r))] @
      omitempty ''request_id'' (audit_request_id r) @ omitempty ''session_id'' (audit_session_id r) @
      omitempty ''plan_id'' (audit_plan_id r) @ omitempty ''plan_digest'' (audit_plan_digest r) @
      omitempty ''action'' (audit_action r) @ omitempty ''risk'' (audit_risk r) @
      [(''status'', JStr (audit_status r))] @ omitempty ''rollback_status'' (audit_rollback_status r) @
      (if audit_parameters r = [] then []
       else [(''parameters'', JObj (map (\<lambda>(n, v). (n, JStr v)) (sort_key fst (audit_parameters r))))]) @
      omitempty ''error_code'' (audit_error_code r) @
      [(''previous_hash'', JStr (audit_previous_hash r)), (''entry_hash'', JStr (audit_entry_hash r))])"

definition readParameters :: "smap \<Rightarrow> smap" where
  "readParameters ps = foldl (\<lambda>m (k, v). AList.update (toValidUtf8 k) (toValidUtf8 v) m) [] (sort_key fst ps)"

definition readRecord :: "audit_record \<Rightarrow> audit_record" where
  "readRecord r = \<lparr>audit_schema = toValidUtf8 (audit_schema r), audit_sequence = audit_sequence r,
     audit_id = toValidUtf8 (audit_id r), audit_timestamp = audit_timestamp r,
     audit_event = toValidUtf8 (audit_event r), audit_actor = readActor (audit_actor r),
     audit_request_id = toValidUtf8 (audit_request_id r), audit_session_id = toValidUtf8 (audit_session_id r),
     audit_plan_id = toValidUtf8 (audit_plan_id r), audit_plan_digest = toValidUtf8 (audit_plan_digest r),
     audit_action = toValidUtf8 (audit_action r), audit_risk = toValidUtf8 (audit_risk r),
     audit_status = toValidUtf8 (audit_status r), audit_rollback_status = toValidUtf8 (audit_rollback_status r),
     audit_parameters = readParameters (audit_parameters r), audit_error_code = toValidUtf8 (audit_error_code r),
     audit_previous_hash = toValidUtf8 (audit_previous_hash r), audit_entry_hash = toValidUtf8 (audit_entry_hash r)\<rparr>"

definition cloneAuditRecord :: "audit_record \<Rightarrow> audit_record" where
  "cloneAuditRecord r = r\<lparr>audit_actor := cloneActor (audit_actor r), audit_parameters := map id (audit_parameters r)\<rparr>"

subsection \<open>The file\<close>

datatype audit_line = RecordLine string audit_record string | TornLine string | BlankLine string

text \<open>The line \<^verbatim>\<open>Append\<close> writes: the text of the record and nothing else.\<close>

abbreviation AuditLine :: "audit_record \<Rightarrow> audit_line" where
  "AuditLine r \<equiv> RecordLine [] r []"

fun line_text :: "audit_line \<Rightarrow> string" where
  "line_text (RecordLine before r after) = before @ jenc (recordJson r) @ after"
| "line_text (TornLine t) = t"
| "line_text (BlankLine t) = t"

text \<open>
  All lines of \<open>AuditLines\<close> end in a newline; in \<open>AuditUnterminated\<close> the last one does not.
\<close>

datatype audit_file =
    NoAuditFile | AuditUnreadable | AuditLines "audit_line list" | AuditUnterminated "audit_line list" audit_line

text \<open>\<^verbatim>\<open>O_CREATE\<close>.\<close>

definition createFile :: "audit_file \<Rightarrow> audit_file" where
  "createFile f = (case f of NoAuditFile \<Rightarrow> AuditLines [] | _ \<Rightarrow> f)"

text \<open>
  A line after the first \<open>n\<close> bytes of a record's text have been added to it. A line that held a complete
  record still reads as that record. A line that held part of a record stays undecodable: the added text
  starts with a brace and a quote, which inside a string or after a value is a syntax error, and where a value
  may stand it opens a nested object and leaves the outer one open.
\<close>

definition extendLine :: "nat \<Rightarrow> audit_record \<Rightarrow> audit_line \<Rightarrow> audit_line" where
  "extendLine n r l =
     (let chunk = take n (jenc (recordJson r)) in
      case l of
        RecordLine before q after \<Rightarrow> RecordLine before q (after @ chunk)
      | TornLine t \<Rightarrow> TornLine (t @ chunk)
      | BlankLine t \<Rightarrow>
          if n = 0 then BlankLine t
          else if n < length (jenc (recordJson r)) then TornLine (t @ chunk)
          else RecordLine t r [])"

text \<open>The complete lines of a file and the bytes after the last newline.\<close>

definition fileTail :: "audit_file \<Rightarrow> audit_line list \<times> audit_line" where
  "fileTail f =
     (case f of
        AuditLines ls \<Rightarrow> (ls, BlankLine [])
      | AuditUnterminated ls l \<Rightarrow> (ls, if line_text l = [] then BlankLine [] else l)
      | _ \<Rightarrow> ([], BlankLine []))"

text \<open>The first \<open>n\<close> bytes of a record's line, the newline being the last of them, written at the end of the file.\<close>

definition writeBytes :: "nat \<Rightarrow> audit_record \<Rightarrow> audit_file \<Rightarrow> audit_file" where
  "writeBytes n r f =
     (if f = AuditUnreadable then AuditUnreadable
      else
        (case fileTail f of (ls, l) \<Rightarrow>
           let l' = extendLine n r l in
           if length (jenc (recordJson r)) < n then AuditLines (ls @ [l'])
           else if line_text l' = [] then AuditLines ls
           else AuditUnterminated ls l'))"

definition addLine :: "audit_record \<Rightarrow> audit_file \<Rightarrow> audit_file" where
  "addLine r f = writeBytes (Suc (length (jenc (recordJson r)))) r f"

text \<open>\<open>AuditWrite n\<close>: \<^verbatim>\<open>Write\<close> fails after \<open>n\<close> bytes.\<close>

datatype audit_stage = AuditMkdir | AuditOpen | AuditWrite nat | AuditSync | AuditClose

datatype audit_error =
    AuditPathRequired | AuditFieldsRequired | AuditEncode | AuditTooLong | AuditIO audit_stage
  | AuditReadFailed | AuditLineTooLong | AuditEmptyRecord nat | AuditInvalidJSON nat | AuditChainMismatch nat
  | AuditHashMismatch nat | AuditFieldMissing nat

record audit_env =
  aenv_now :: gotime
  aenv_id :: "bytes option"
  aenv_clock :: gotime
  aenv_fault :: "audit_stage option"

subsection \<open>\<^verbatim>\<open>Append\<close>\<close>

definition draftRecord :: "audit_env \<Rightarrow> event_data \<Rightarrow> audit_store \<Rightarrow> audit_record" where
  "draftRecord env ev s =
     \<lparr>audit_schema = AuditSchema, audit_sequence = as_sequence s + 1,
      audit_id = newSecurityID ''audit'' (aenv_id env) (aenv_clock env), audit_timestamp = aenv_now env,
      audit_event = sanitizeLabel (ev_event ev) 96, audit_actor = cloneActor (ev_actor ev),
      audit_request_id = sanitizeLabel (ev_request_id ev) 160, audit_session_id = sanitizeLabel (ev_session_id ev) 160,
      audit_plan_id = sanitizeLabel (ev_plan_id ev) 160, audit_plan_digest = sanitizeDigest (ev_plan_digest ev),
      audit_action = sanitizeLabel (ev_action ev) 160, audit_risk = sanitizeLabel (ev_risk ev) 64,
      audit_status = sanitizeLabel (ev_status ev) 64, audit_rollback_status = sanitizeLabel (ev_rollback_status ev) 64,
      audit_parameters = redactParameters (ev_parameters ev), audit_error_code = sanitizeLabel (ev_error_code ev) 96,
      audit_previous_hash = as_last_hash s, audit_entry_hash = []\<rparr>"

definition hashedRecord :: "audit_env \<Rightarrow> event_data \<Rightarrow> audit_store \<Rightarrow> audit_record" where
  "hashedRecord env ev s = (let r = draftRecord env ev s in r\<lparr>audit_entry_hash := auditHash r\<rparr>)"

text \<open>A record taken into memory: \<^verbatim>\<open>sequence\<close>, \<^verbatim>\<open>lastHash\<close> and \<^verbatim>\<open>records\<close>.\<close>

definition pushRecord :: "audit_store \<Rightarrow> audit_record \<Rightarrow> audit_store" where
  "pushRecord s r = \<lparr>as_records = as_records s @ [r], as_last_hash = audit_entry_hash r, as_sequence = audit_sequence r\<rparr>"

text \<open>The effect of the write on the file, by the call that fails.\<close>

definition writeLine :: "audit_stage option \<Rightarrow> audit_record \<Rightarrow> audit_file \<Rightarrow> audit_file" where
  "writeLine fault r f =
     (case fault of
        Some AuditMkdir \<Rightarrow> f
      | Some AuditOpen \<Rightarrow> f
      | Some (AuditWrite n) \<Rightarrow> writeBytes n r (createFile f)
      | _ \<Rightarrow> addLine r (createFile f))"

definition appendEvent ::
  "audit_env \<Rightarrow> event_data \<Rightarrow> audit_store \<Rightarrow> audit_file \<Rightarrow> (audit_error + audit_record) \<times> audit_store \<times> audit_file" where
  "appendEvent env ev s f =
     (let record = draftRecord env ev s in
      if audit_event record = [] \<or> actor_id (audit_actor record) = [] \<or> audit_status record = [] then (Inl AuditFieldsRequired, s, f)
      else
        (let record = hashedRecord env ev s in
         if \<not> marshalable (audit_timestamp record) then (Inl AuditEncode, s, f)
         else if length (jenc (recordJson record)) > maxAuditLineBytes then (Inl AuditTooLong, s, f)
         else
           (let f' = writeLine (aenv_fault env) record f in
            case aenv_fault env of
              Some stage \<Rightarrow> (Inl (AuditIO stage), s, f')
            | None \<Rightarrow>
                (Inr (cloneAuditRecord record), pushRecord s (cloneAuditRecord record), f'))))"

subsection \<open>\<^verbatim>\<open>loadAndVerify\<close>\<close>

fun loadLines :: "nat \<Rightarrow> audit_store \<Rightarrow> audit_line list \<Rightarrow> audit_error + audit_store" where
  "loadLines n s [] = Inr s"
| "loadLines n s (l # ls) =
     (if length (line_text l) \<ge> maxAuditLineBytes then Inl AuditLineTooLong
      else
        (case l of
           BlankLine _ \<Rightarrow> Inl (AuditEmptyRecord (Suc n))
         | TornLine _ \<Rightarrow> Inl (AuditInvalidJSON (Suc n))
         | RecordLine _ w _ \<Rightarrow>
             (let r = readRecord w in
              if audit_schema r \<noteq> AuditSchema \<or> audit_sequence r \<noteq> as_sequence s + 1 \<or> audit_previous_hash r \<noteq> as_last_hash s
              then Inl (AuditChainMismatch (Suc n))
              else if \<not> equalFold (auditHash r) (audit_entry_hash r) then Inl (AuditHashMismatch (Suc n))
              else if actor_id (audit_actor r) = [] \<or> audit_event r = [] \<or> audit_status r = [] then Inl (AuditFieldMissing (Suc n))
              else loadLines (Suc n) (pushRecord s (cloneAuditRecord r)) ls)))"

text \<open>The scanner returns a last line without a newline, unless there are no bytes in it.\<close>

definition loadAndVerify :: "audit_file \<Rightarrow> audit_error + audit_store" where
  "loadAndVerify f =
     (case f of
        NoAuditFile \<Rightarrow> Inr emptyAuditStore
      | AuditUnreadable \<Rightarrow> Inl AuditReadFailed
      | AuditLines ls \<Rightarrow> loadLines 0 emptyAuditStore ls
      | AuditUnterminated ls l \<Rightarrow> loadLines 0 emptyAuditStore (if line_text l = [] then ls else ls @ [l]))"

declare loadAndVerify_def [simp]

definition openAuditStore :: "string \<Rightarrow> audit_file \<Rightarrow> audit_error + audit_store" where
  "openAuditStore path f = (if trimSpace path = [] then Inl AuditPathRequired else loadAndVerify f)"

subsection \<open>\<^verbatim>\<open>Query\<close>\<close>

definition record_matches :: "string \<Rightarrow> string \<Rightarrow> audit_record \<Rightarrow> bool" where
  "record_matches actorID action r \<longleftrightarrow>
     \<not> (actorID \<noteq> [] \<and> actor_id (audit_actor r) \<noteq> actorID) \<and> \<not> (action \<noteq> [] \<and> audit_action r \<noteq> action)"

text \<open>The backwards scan: \<open>index\<close> counts the records still to visit.\<close>

fun queryScan :: "nat \<Rightarrow> string \<Rightarrow> string \<Rightarrow> audit_record list \<Rightarrow> nat \<Rightarrow> audit_record list \<Rightarrow> audit_record list" where
  "queryScan limit actorID action records 0 result = result"
| "queryScan limit actorID action records (Suc index) result =
     (if length result < limit then
        (if record_matches actorID action (records ! index)
         then queryScan limit actorID action records index (result @ [cloneAuditRecord (records ! index)])
         else queryScan limit actorID action records index result)
      else result)"

text \<open>The swap loop that reverses the result in place.\<close>

function swapLoop :: "nat \<Rightarrow> nat \<Rightarrow> 'a list \<Rightarrow> 'a list" where
  "swapLoop left right xs =
     (if left < right then swapLoop (Suc left) (right - 1) (xs[left := xs ! right, right := xs ! left]) else xs)"
  by pat_completeness auto
termination by (relation "measure (\<lambda>(l, r, xs). r - l)") auto

declare swapLoop.simps [simp del]

definition queryAudit :: "int \<Rightarrow> string \<Rightarrow> string \<Rightarrow> audit_store \<Rightarrow> audit_record list" where
  "queryAudit limit0 actorID0 action0 s =
     (let limit = (if limit0 \<le> 0 \<or> limit0 > 500 then 100 else nat limit0);
          actorID = trimSpace actorID0; action = trimSpace action0;
          result = queryScan limit actorID action (as_records s) (length (as_records s)) []
      in swapLoop 0 (length result - 1) result)"

definition integrity :: "audit_store \<Rightarrow> anymap" where
  "integrity s = [(''schema'', GStr AuditSchema), (''records'', GInt (uint (as_sequence s))),
     (''head_hash'', GStr (as_last_hash s)), (''verified'', GBool True)]"

subsection \<open>Querying\<close>

lemma cloneAuditRecord_id [simp]: "cloneAuditRecord r = r"
  by (simp add: cloneAuditRecord_def)

lemma queryScan_eq:
  "n \<le> length rs \<Longrightarrow> length acc \<le> limit \<Longrightarrow>
     queryScan limit a b rs n acc = acc @ take (limit - length acc) (filter (record_matches a b) (rev (take n rs)))"
proof (induction n arbitrary: acc)
  case (Suc n)
  then have t: "rev (take (Suc n) rs) = rs ! n # rev (take n rs)" by (simp add: take_Suc_conv_app_nth)
  show ?case
  proof (cases "length acc < limit")
    case True
    then obtain k where "limit - length acc = Suc k" "limit - Suc (length acc) = k"
      by (metis Suc_diff_Suc)
    with True Suc show ?thesis unfolding t by auto
  next
    case False
    with Suc.prems show ?thesis by simp
  qed
qed simp

lemma swapLoop_nth:
  "l + r = length xs - 1 \<Longrightarrow> i < length xs \<Longrightarrow>
     length (swapLoop l r xs) = length xs \<and>
     swapLoop l r xs ! i = (if l \<le> i \<and> i \<le> r then xs ! (length xs - 1 - i) else xs ! i)"
proof (induction l r xs rule: swapLoop.induct)
  case (1 l r xs)
  show ?case
  proof (cases "l < r")
    case True
    let ?ys = "xs[l := xs ! r, r := xs ! l]"
    have lr: "r < length xs" "Suc l + (r - 1) = length ?ys - 1" using True "1.prems" by auto
    have m: "length xs - 1 - i = l + r - i" using "1.prems" by simp
    from "1.IH" [OF True lr(2)] "1.prems" have ih: "length (swapLoop (Suc l) (r - 1) ?ys) = length xs"
      "swapLoop (Suc l) (r - 1) ?ys ! i = (if Suc l \<le> i \<and> i \<le> r - 1 then ?ys ! (length xs - 1 - i) else ?ys ! i)"
      by auto
    consider "i = l" | "i = r" | "l < i" "i < r" | "i < l \<or> r < i" by linarith
    then have "swapLoop (Suc l) (r - 1) ?ys ! i = (if l \<le> i \<and> i \<le> r then xs ! (length xs - 1 - i) else xs ! i)"
      unfolding ih(2) m using True lr(1) by cases (auto simp: nth_list_update)
    with ih(1) True show ?thesis by (simp add: swapLoop.simps [of l r xs])
  next
    case False
    then have "swapLoop l r xs = xs" by (simp add: swapLoop.simps)
    moreover have "length xs - 1 - i = i" if "l \<le> i" "i \<le> r" using False "1.prems" that by simp
    ultimately show ?thesis by simp
  qed
qed

lemma swapLoop_rev: "swapLoop 0 (length xs - 1) xs = rev xs"
proof (cases "xs = []")
  case True
  then show ?thesis by (simp add: swapLoop.simps)
next
  case False
  have "length (swapLoop 0 (length xs - 1) xs) = length xs"
    using swapLoop_nth [of 0 "length xs - 1" xs 0] False by simp
  moreover have "swapLoop 0 (length xs - 1) xs ! i = rev xs ! i" if "i < length xs" for i
  proof -
    have "i \<le> length xs - 1" "length xs - 1 - i = length xs - Suc i" using that by simp_all
    then show ?thesis using swapLoop_nth [of 0 "length xs - 1" xs i] that by (simp add: rev_nth)
  qed
  ultimately show ?thesis by (simp add: list_eq_iff_nth_eq)
qed

lemma rev_take_rev: "rev (take n (rev xs)) = drop (length xs - n) xs"
  by (simp add: rev_take)

lemma queryAudit_eq:
  "queryAudit limit a b s =
     (let n = (if limit \<le> 0 \<or> limit > 500 then 100 else nat limit);
          hits = filter (record_matches (trimSpace a) (trimSpace b)) (as_records s)
      in drop (length hits - n) hits)"
  unfolding queryAudit_def Let_def swapLoop_rev
  by (simp add: queryScan_eq rev_filter [symmetric] rev_take_rev)

subsection \<open>The chain\<close>

fun audit_chain :: "string \<Rightarrow> 64 word \<Rightarrow> audit_record list \<Rightarrow> bool" where
  "audit_chain prev seq [] = True"
| "audit_chain prev seq (r # rs) =
     (audit_schema r = AuditSchema \<and> audit_sequence r = seq + 1 \<and> audit_previous_hash r = prev \<and>
      equalFold (auditHash r) (audit_entry_hash r) \<and>
      actor_id (audit_actor r) \<noteq> [] \<and> audit_event r \<noteq> [] \<and> audit_status r \<noteq> [] \<and>
      audit_chain (audit_entry_hash r) (audit_sequence r) rs)"

lemma pushRecord_sel [simp]:
  "as_records (pushRecord s r) = as_records s @ [r]" "as_last_hash (pushRecord s r) = audit_entry_hash r"
  "as_sequence (pushRecord s r) = audit_sequence r"
  by (simp_all add: pushRecord_def)

lemma foldl_push_records [simp]: "as_records (foldl pushRecord s rs) = as_records s @ rs"
  by (induction rs arbitrary: s) simp_all

lemma foldl_push_last:
  "as_last_hash (foldl pushRecord s rs) = (if rs = [] then as_last_hash s else audit_entry_hash (last rs))"
  "as_sequence (foldl pushRecord s rs) = (if rs = [] then as_sequence s else audit_sequence (last rs))"
  by (induction rs arbitrary: s) simp_all

text \<open>The lines that decode, and the records they decode to.\<close>

fun line_record :: "audit_line \<Rightarrow> audit_record option" where
  "line_record (RecordLine _ r _) = Some r"
| "line_record _ = None"

definition readable :: "audit_line \<Rightarrow> bool" where
  "readable l \<longleftrightarrow> length (line_text l) < maxAuditLineBytes \<and> line_record l \<noteq> None"

definition read_lines :: "audit_line list \<Rightarrow> audit_record list" where
  "read_lines ls = map (\<lambda>l. readRecord (the (line_record l))) ls"

lemma read_lines_simps [simp]:
  "read_lines [] = []" "read_lines (l # ls) = readRecord (the (line_record l)) # read_lines ls"
  "read_lines (ls @ ms) = read_lines ls @ read_lines ms"
  by (simp_all add: read_lines_def)

lemma loadLines_iff:
  "loadLines n s ls = Inr s' \<longleftrightarrow>
     list_all readable ls \<and> audit_chain (as_last_hash s) (as_sequence s) (read_lines ls) \<and> s' = foldl pushRecord s (read_lines ls)"
proof (induction ls arbitrary: n s)
  case (Cons l ls)
  show ?case
  proof (cases l)
    case (RecordLine a w b)
    let ?r = "readRecord w"
    have "loadLines n s (l # ls) = Inr s' \<longleftrightarrow>
        readable l \<and> audit_chain (as_last_hash s) (as_sequence s) [?r] \<and> loadLines (Suc n) (pushRecord s ?r) ls = Inr s'"
      by (auto simp: RecordLine readable_def Let_def not_le)
    with Cons.IH [of "Suc n" "pushRecord s ?r"] show ?thesis by (auto simp: RecordLine)
  qed (simp_all add: readable_def)
qed auto

lemma loadLines_append:
  "loadLines n s (ls @ ms) = (case loadLines n s ls of Inl e \<Rightarrow> Inl e | Inr s' \<Rightarrow> loadLines (n + length ls) s' ms)"
proof (induction ls arbitrary: n s)
  case (Cons l ls)
  then show ?case by (cases l) (auto simp: Let_def split: sum.split)
qed simp

lemma audit_chain_append:
  "audit_chain p q (rs @ xs) \<longleftrightarrow> audit_chain p q rs \<and>
     audit_chain (if rs = [] then p else audit_entry_hash (last rs)) (if rs = [] then q else audit_sequence (last rs)) xs"
  by (induction rs arbitrary: p q) auto

definition store_ok :: "audit_store \<Rightarrow> bool" where
  "store_ok s \<longleftrightarrow> audit_chain [] 0 (as_records s) \<and> foldl pushRecord emptyAuditStore (as_records s) = s"

lemma store_ok_last:
  assumes "store_ok s"
  shows "as_last_hash s = (if as_records s = [] then [] else audit_entry_hash (last (as_records s)))"
    "as_sequence s = (if as_records s = [] then 0 else audit_sequence (last (as_records s)))"
proof -
  from assms have e: "foldl pushRecord emptyAuditStore (as_records s) = s" by (simp add: store_ok_def)
  note foldl_push_last [of emptyAuditStore "as_records s", unfolded e]
  then show "as_last_hash s = (if as_records s = [] then [] else audit_entry_hash (last (as_records s)))"
    "as_sequence s = (if as_records s = [] then 0 else audit_sequence (last (as_records s)))"
    by (simp_all add: emptyAuditStore_def)
qed

lemma store_ok_push:
  assumes "store_ok s" "audit_chain (as_last_hash s) (as_sequence s) [r]"
  shows "store_ok (pushRecord s r)"
proof -
  from assms(1) have e: "foldl pushRecord emptyAuditStore (as_records s) = s" by (simp add: store_ok_def)
  have "audit_chain [] 0 (as_records s @ [r])"
    using assms store_ok_last [OF assms(1)] unfolding audit_chain_append store_ok_def by auto
  then show ?thesis by (simp add: store_ok_def e)
qed

lemma store_ok_empty: "store_ok emptyAuditStore"
  by (simp add: store_ok_def emptyAuditStore_def)

lemma loadLines_ok: "loadLines 0 emptyAuditStore ls = Inr s \<Longrightarrow> store_ok s"
proof -
  assume "loadLines 0 emptyAuditStore ls = Inr s"
  then have "audit_chain [] 0 (read_lines ls)" "s = foldl pushRecord emptyAuditStore (read_lines ls)"
    unfolding loadLines_iff by (auto simp: emptyAuditStore_def)
  then show ?thesis by (simp add: store_ok_def)
qed

lemma openAuditStore_ok: "openAuditStore path f = Inr s \<Longrightarrow> store_ok s"
  by (cases f) (auto simp: openAuditStore_def store_ok_empty loadLines_ok split: if_splits)

subsection \<open>Appending\<close>

lemma canonicalAudit_entry [simp]: "canonicalAudit (r\<lparr>audit_entry_hash := h\<rparr>) = canonicalAudit r"
  by (simp add: canonicalAudit_def)

lemma auditHash_entry [simp]: "auditHash (r\<lparr>audit_entry_hash := h\<rparr>) = auditHash r"
  by (simp add: auditHash_def)

lemma hashedRecord_chain:
  assumes "audit_event (draftRecord env ev s) \<noteq> []" "actor_id (audit_actor (draftRecord env ev s)) \<noteq> []"
    "audit_status (draftRecord env ev s) \<noteq> []"
  shows "audit_chain (as_last_hash s) (as_sequence s) [hashedRecord env ev s]"
proof -
  have "audit_schema (draftRecord env ev s) = AuditSchema" "audit_sequence (draftRecord env ev s) = as_sequence s + 1"
    "audit_previous_hash (draftRecord env ev s) = as_last_hash s" by (simp_all add: draftRecord_def)
  with assms show ?thesis by (simp add: hashedRecord_def Let_def)
qed

lemma appendEvent_cases:
  assumes "appendEvent env ev s f = (res, s', f')"
  obtains (Failed) e where "res = Inl e" "s' = s"
  | (Appended) "res = Inr (hashedRecord env ev s)" "s' = pushRecord s (hashedRecord env ev s)"
      "f' = addLine (hashedRecord env ev s) (createFile f)"
      "audit_chain (as_last_hash s) (as_sequence s) [hashedRecord env ev s]"
      "length (jenc (recordJson (hashedRecord env ev s))) \<le> maxAuditLineBytes"
      "aenv_fault env = None"
proof -
  let ?d = "draftRecord env ev s" and ?h = "hashedRecord env ev s"
  show thesis
  proof (cases "audit_event ?d = [] \<or> actor_id (audit_actor ?d) = [] \<or> audit_status ?d = [] \<or>
      \<not> marshalable (audit_timestamp ?h) \<or> length (jenc (recordJson ?h)) > maxAuditLineBytes \<or> aenv_fault env \<noteq> None")
    case True
    with assms have "\<exists>e. res = Inl e \<and> s' = s"
      by (auto simp: appendEvent_def Let_def split: if_splits)
    with Failed show ?thesis by blast
  next
    case False
    with assms hashedRecord_chain [of env ev s] show ?thesis
      by (intro Appended) (auto simp: appendEvent_def Let_def writeLine_def)
  qed
qed

lemma store_ok_append: "store_ok s \<Longrightarrow> appendEvent env ev s f = (res, s', f') \<Longrightarrow> store_ok s'"
  by (erule appendEvent_cases) (auto intro: store_ok_push)

text \<open>A file whose last line ends in a newline.\<close>

definition audit_terminated :: "audit_file \<Rightarrow> bool" where
  "audit_terminated f \<longleftrightarrow> (case f of AuditUnterminated ls l \<Rightarrow> line_text l = [] | _ \<Rightarrow> True)"

lemma jenc_record_nonempty [simp]: "jenc (recordJson r) \<noteq> []"
  by (simp add: recordJson_def)

lemma addLine_AuditLines [simp]: "addLine r (AuditLines ls) = AuditLines (ls @ [AuditLine r])"
  by (simp add: addLine_def writeBytes_def fileTail_def extendLine_def)

lemma addLine_blank [simp]: "line_text l = [] \<Longrightarrow> addLine r (AuditUnterminated ls l) = AuditLines (ls @ [AuditLine r])"
  by (simp add: addLine_def writeBytes_def fileTail_def extendLine_def)

lemma addLine_glues [simp]:
  "addLine r (AuditUnterminated ls (RecordLine before q after)) =
     AuditLines (ls @ [RecordLine before q (after @ jenc (recordJson r))])"
  by (simp add: addLine_def writeBytes_def fileTail_def extendLine_def)

lemma createFile_AuditLines [simp]: "createFile (AuditLines ls) = AuditLines ls"
  "createFile NoAuditFile = AuditLines []" "createFile (AuditUnterminated ls l) = AuditUnterminated ls l"
  by (simp_all add: createFile_def)

text \<open>A file that opens: the next line starts after a newline, or continues a line that holds a record.\<close>

lemma opened_file:
  assumes "openAuditStore path f = Inr s"
  obtains (Terminated) ls where "audit_terminated f" "loadLines 0 emptyAuditStore ls = Inr s"
      "\<And>r. addLine r (createFile f) = AuditLines (ls @ [AuditLine r])"
  | (Unterminated) ls before q after where "\<not> audit_terminated f" "f = AuditUnterminated ls (RecordLine before q after)"
      "loadLines 0 emptyAuditStore (ls @ [RecordLine before q after]) = Inr s"
proof (cases f)
  case NoAuditFile
  with assms show ?thesis
    by (intro Terminated [of "[]"]) (simp_all add: openAuditStore_def audit_terminated_def split: if_splits)
next
  case AuditUnreadable
  with assms show ?thesis by (simp add: openAuditStore_def split: if_splits)
next
  case (AuditLines ls)
  with assms show ?thesis
    by (intro Terminated [of ls]) (simp_all add: openAuditStore_def audit_terminated_def split: if_splits)
next
  case (AuditUnterminated ls l)
  show ?thesis
  proof (cases "line_text l = []")
    case True
    with AuditUnterminated assms show ?thesis
      by (intro Terminated [of ls]) (simp_all add: openAuditStore_def audit_terminated_def split: if_splits)
  next
    case False
    with AuditUnterminated assms have load: "loadLines 0 emptyAuditStore (ls @ [l]) = Inr s"
      by (simp add: openAuditStore_def split: if_splits)
    then have "readable l" unfolding loadLines_iff by simp
    then obtain a q b where "l = RecordLine a q b" by (cases l) (auto simp: readable_def)
    with load False AuditUnterminated show ?thesis by (intro Unterminated) (simp_all add: audit_terminated_def)
  qed
qed

subsection \<open>Reading a record back\<close>

definition record_text_ok :: "audit_record \<Rightarrow> bool" where
  "record_text_ok r \<longleftrightarrow>
     list_all validUtf8 [audit_schema r, audit_id r, audit_event r, audit_request_id r, audit_session_id r, audit_plan_id r,
       audit_plan_digest r, audit_action r, audit_risk r, audit_status r, audit_rollback_status r, audit_error_code r,
       audit_previous_hash r, audit_entry_hash r] \<and>
     readActor (audit_actor r) = audit_actor r \<and> json_time (audit_timestamp r) \<and>
     smap_ok (audit_parameters r) \<and> list_all (\<lambda>(k, v). validUtf8 k \<and> validUtf8 v) (audit_parameters r)"

text \<open>The record with its parameter map listed in key order: the same record.\<close>

definition canonRecord :: "audit_record \<Rightarrow> audit_record" where
  "canonRecord r = r\<lparr>audit_parameters := sort_key fst (audit_parameters r)\<rparr>"

lemma update_append: "k \<notin> fst ` set m \<Longrightarrow> AList.update k v m = m @ [(k, v)]"
  by (induction m) auto

lemma foldl_update_distinct:
  "distinct (map fst ps) \<Longrightarrow> fst ` set m \<inter> fst ` set ps = {} \<Longrightarrow>
     foldl (\<lambda>m (k, v). AList.update k (f k v) m) m ps = m @ map (\<lambda>(k, v). (k, f k v)) ps"
proof (induction ps arbitrary: m)
  case (Cons p ps)
  obtain k v where p: "p = (k, v)" by force
  with Cons.prems have "AList.update k (f k v) m = m @ [(k, f k v)]" by (intro update_append) auto
  with Cons p show ?case by auto
qed simp

lemma distinct_sort_key: "distinct (map fst (sort_key fst ps)) = distinct (map fst ps)"
  by (metis mset_eq_imp_distinct_iff mset_map mset_sort)

lemma readParameters_ok:
  assumes "smap_ok ps" "list_all (\<lambda>(k, v). validUtf8 k \<and> validUtf8 v) ps"
  shows "readParameters ps = sort_key fst ps"
proof -
  have "foldl (\<lambda>m (k, v). AList.update (toValidUtf8 k) (toValidUtf8 v) m) m xs =
      foldl (\<lambda>m (k, v). AList.update k v m) m xs" if "list_all (\<lambda>(k, v). validUtf8 k \<and> validUtf8 v) xs" for m xs
    using that by (induction xs arbitrary: m) (auto simp: toValidUtf8_id)
  moreover have "list_all (\<lambda>(k, v). validUtf8 k \<and> validUtf8 v) (sort_key fst ps)" using assms(2) by (simp add: list_all_iff)
  ultimately show ?thesis
    using foldl_update_distinct [of "sort_key fst ps" "[]" "\<lambda>k v. v"] assms(1)
    by (simp add: readParameters_def distinct_sort_key smap_ok_def)
qed

lemma readRecord_canon: "record_text_ok r \<Longrightarrow> readRecord r = canonRecord r"
  by (cases r) (simp add: record_text_ok_def readRecord_def canonRecord_def toValidUtf8_id readParameters_ok)

lemma canonRecord_sel [simp]:
  "audit_schema (canonRecord r) = audit_schema r" "audit_sequence (canonRecord r) = audit_sequence r"
  "audit_previous_hash (canonRecord r) = audit_previous_hash r" "audit_entry_hash (canonRecord r) = audit_entry_hash r"
  "audit_actor (canonRecord r) = audit_actor r" "audit_event (canonRecord r) = audit_event r"
  "audit_status (canonRecord r) = audit_status r"
  by (simp_all add: canonRecord_def)

lemma auditText_canon [simp]: "canonicalAudit (canonRecord r) = canonicalAudit r"
proof -
  have "sort_key fst (sort_key fst ps) = sort_key fst ps" for ps :: smap
    by (rule sort_key_id_if_sorted) simp
  moreover have "sort_key fst ps = [] \<longleftrightarrow> ps = []" for ps :: smap
    by (metis length_0_conv length_sort)
  ultimately show ?thesis by (simp add: canonicalAudit_def canonRecord_def)
qed

lemma auditHash_canon [simp]: "auditHash (canonRecord r) = auditHash r"
  by (simp add: auditHash_def)

lemma audit_chain_canon: "audit_chain p q [canonRecord r] = audit_chain p q [r]"
  by simp

lemma loadLines_snoc:
  assumes "loadLines 0 emptyAuditStore ls = Inr s" "record_text_ok r"
    "length (jenc (recordJson r)) < maxAuditLineBytes" "audit_chain (as_last_hash s) (as_sequence s) [r]"
  shows "loadLines 0 emptyAuditStore (ls @ [AuditLine r]) = Inr (pushRecord s (canonRecord r))"
proof -
  from assms(4) have "audit_chain (as_last_hash s) (as_sequence s) [canonRecord r]" by (simp only: audit_chain_canon)
  then have "loadLines (length ls) s [AuditLine r] = Inr (pushRecord s (canonRecord r))"
    unfolding loadLines_iff using assms(3) by (simp add: readable_def readRecord_canon [OF assms(2)])
  with assms(1) show ?thesis by (simp add: loadLines_append del: loadLines.simps)
qed

subsection \<open>What a hash binds\<close>

definition audited_fields where
  "audited_fields r =
     ((audit_schema r, audit_sequence r, audit_id r, audit_timestamp r, audit_event r, actor_id (audit_actor r),
       kind (audit_actor r), sort (roles (audit_actor r)), sort (permissions (audit_actor r)), audit_status r, audit_previous_hash r),
      (audit_request_id r, audit_session_id r, audit_plan_id r, audit_plan_digest r, audit_action r, audit_risk r,
       audit_rollback_status r, sort_key fst (audit_parameters r), audit_error_code r))"

text \<open>Members of an object are read off by key, present or omitted.\<close>

fun member :: "json \<Rightarrow> string \<Rightarrow> json option" where
  "member (JObj kvs) k = map_of kvs k"
| "member _ k = None"

lemma map_of_omitempty: "map_of (omitempty k v) k' = (if k' = k \<and> v \<noteq> [] then Some (JStr v) else None)"
  by (simp add: omitempty_def)

lemma map_of_append_apply: "map_of (xs @ ys) k = (case map_of xs k of None \<Rightarrow> map_of ys k | Some v \<Rightarrow> Some v)"
  by (simp add: map_add_def)

lemma canonicalAudit_required:
  "member (canonicalAudit r) ''schema'' = Some (JStr (audit_schema r))"
  "member (canonicalAudit r) ''sequence'' = Some (JNum (unat (audit_sequence r)))"
  "member (canonicalAudit r) ''id'' = Some (JStr (audit_id r))"
  "member (canonicalAudit r) ''timestamp'' = Some (JStr (rfc3339nano (audit_timestamp r)))"
  "member (canonicalAudit r) ''event'' = Some (JStr (audit_event r))"
  "member (canonicalAudit r) ''actor_id'' = Some (JStr (actor_id (audit_actor r)))"
  "member (canonicalAudit r) ''actor_kind'' = Some (JStr (kind (audit_actor r)))"
  "member (canonicalAudit r) ''roles'' = Some (JArr (map JStr (sort (roles (audit_actor r)))))"
  "member (canonicalAudit r) ''permissions'' = Some (JArr (map JStr (sort (permissions (audit_actor r)))))"
  by (simp_all add: canonicalAudit_def)

lemma canonicalAudit_optional:
  "member (canonicalAudit r) ''request_id'' = (if audit_request_id r = [] then None else Some (JStr (audit_request_id r)))"
  "member (canonicalAudit r) ''session_id'' = (if audit_session_id r = [] then None else Some (JStr (audit_session_id r)))"
  "member (canonicalAudit r) ''plan_id'' = (if audit_plan_id r = [] then None else Some (JStr (audit_plan_id r)))"
  "member (canonicalAudit r) ''plan_digest'' = (if audit_plan_digest r = [] then None else Some (JStr (audit_plan_digest r)))"
  "member (canonicalAudit r) ''action'' = (if audit_action r = [] then None else Some (JStr (audit_action r)))"
  "member (canonicalAudit r) ''risk'' = (if audit_risk r = [] then None else Some (JStr (audit_risk r)))"
  "member (canonicalAudit r) ''status'' = Some (JStr (audit_status r))"
  "member (canonicalAudit r) ''rollback_status'' = (if audit_rollback_status r = [] then None else Some (JStr (audit_rollback_status r)))"
  "member (canonicalAudit r) ''error_code'' = (if audit_error_code r = [] then None else Some (JStr (audit_error_code r)))"
  "member (canonicalAudit r) ''previous_hash'' = Some (JStr (audit_previous_hash r))"
  by (simp_all add: canonicalAudit_def map_of_append_apply map_of_omitempty del: map_of_append)

definition parameterJson :: "string \<times> string \<Rightarrow> json" where
  "parameterJson = (\<lambda>(n, v). JObj [(''name'', JStr n), (''value'', JStr v)])"

lemma canonicalAudit_parameters:
  "member (canonicalAudit r) ''parameters'' =
     (if audit_parameters r = [] then None else Some (JArr (map parameterJson (sort_key fst (audit_parameters r)))))"
  by (simp add: canonicalAudit_def map_of_append_apply map_of_omitempty parameterJson_def del: map_of_append)

lemma inj_parameterJson: "map parameterJson xs = map parameterJson ys \<longleftrightarrow> xs = ys"
  by (rule inj_map_eq_map) (auto intro: injI simp: parameterJson_def)

lemma inj_JStr: "map JStr xs = map JStr ys \<longleftrightarrow> xs = ys"
  by (rule inj_map_eq_map) (auto intro: injI)

lemma canonicalAudit_inj:
  assumes "json_time (audit_timestamp r)" "json_time (audit_timestamp r')" "canonicalAudit r = canonicalAudit r'"
  shows "audited_fields r = audited_fields r'"
proof -
  have m: "member (canonicalAudit r) k = member (canonicalAudit r') k" for k using assms(3) by simp
  note req = m [of "''schema''"] m [of "''sequence''"] m [of "''id''"] m [of "''event''"] m [of "''actor_id''"]
    m [of "''actor_kind''"] m [of "''roles''"] m [of "''permissions''"]
  have opt: "x = y" if "(if x = [] then None else Some (JStr x)) = (if y = [] then None else Some (JStr y))" for x y
    using that by (simp split: if_splits)
  have ts: "audit_timestamp r = audit_timestamp r'"
    using m [of "''timestamp''"] assms(1,2) by (auto simp: canonicalAudit_required intro: rfc3339nano_inj)
  have ps: "sort_key fst (audit_parameters r) = sort_key fst (audit_parameters r')"
    using m [of "''parameters''"] unfolding canonicalAudit_parameters by (simp add: inj_parameterJson split: if_splits)
  have o: "audit_request_id r = audit_request_id r'" "audit_session_id r = audit_session_id r'" "audit_plan_id r = audit_plan_id r'"
      "audit_plan_digest r = audit_plan_digest r'" "audit_action r = audit_action r'" "audit_risk r = audit_risk r'"
      "audit_rollback_status r = audit_rollback_status r'" "audit_error_code r = audit_error_code r'"
    using m [of "''request_id''"] m [of "''session_id''"] m [of "''plan_id''"] m [of "''plan_digest''"] m [of "''action''"]
      m [of "''risk''"] m [of "''rollback_status''"] m [of "''error_code''"]
    unfolding canonicalAudit_optional by - (rule opt, assumption)+
  have q: "audit_status r = audit_status r'" "audit_previous_hash r = audit_previous_hash r'"
    using m [of "''status''"] m [of "''previous_hash''"] by (simp_all add: canonicalAudit_optional)
  show ?thesis using req ts ps o q unfolding canonicalAudit_required
    by (simp add: audited_fields_def inj_JStr word_unat_eq_iff)
qed

lemma toValid_fix_valid: "toValidUtf8 x = x \<Longrightarrow> validUtf8 x"
  by (metis validUtf8_toValidUtf8)

lemma readActor_valid:
  assumes "readActor a = a"
  shows "validUtf8 (actor_id a)" "validUtf8 (kind a)" "list_all validUtf8 (roles a)" "list_all validUtf8 (permissions a)"
proof -
  have f: "list_all validUtf8 xs" if "map toValidUtf8 xs = xs" for xs
    using that by (induction xs) (auto intro: toValid_fix_valid)
  from assms have "toValidUtf8 (actor_id a) = actor_id a" "toValidUtf8 (kind a) = kind a"
      "map toValidUtf8 (roles a) = roles a" "map toValidUtf8 (permissions a) = permissions a"
    by (cases a; simp add: readActor_def)+
  then show "validUtf8 (actor_id a)" "validUtf8 (kind a)" "list_all validUtf8 (roles a)" "list_all validUtf8 (permissions a)"
    by (auto intro: toValid_fix_valid f)
qed

lemma json_valid_omitempty:
  "validUtf8 k \<Longrightarrow> validUtf8 v \<Longrightarrow> list_all (\<lambda>(k, v). validUtf8 k \<and> json_valid v) (omitempty k v)"
  by (simp add: omitempty_def)

lemma canonicalAudit_valid: "record_text_ok r \<Longrightarrow> json_valid (canonicalAudit r)"
proof -
  assume r: "record_text_ok r"
  then have a: "readActor (audit_actor r) = audit_actor r" by (simp add: record_text_ok_def)
  have "list_all (json_valid \<circ> JStr) (sort (roles (audit_actor r)))" "list_all (json_valid \<circ> JStr) (sort (permissions (audit_actor r)))"
    using readActor_valid [OF a] by (simp_all add: list_all_iff)
  moreover have "list_all (json_valid \<circ> (\<lambda>(n, v). JObj [(''name'', JStr n), (''value'', JStr v)])) (sort_key fst (audit_parameters r))"
    using r by (auto simp: record_text_ok_def list_all_iff utf8_literal)
  ultimately show ?thesis
    using r readActor_valid [OF a]
    by (simp add: canonicalAudit_def record_text_ok_def json_valid_omitempty list.pred_map utf8_literal)
qed

lemma audit_same_hash:
  assumes "record_text_ok r" "record_text_ok r'" "equalFold (auditHash r) (auditHash r')"
  shows "audited_fields r = audited_fields r' \<or> sha_collision (jenc (canonicalAudit r)) (jenc (canonicalAudit r'))"
  using assms canonicalAudit_inj [of r r'] canonicalAudit_valid
  by (auto simp: auditHash_def sha256_hex_fold jenc_valid_inj record_text_ok_def)

lemma auditHash_nonempty [simp]: "auditHash r \<noteq> []" "foldRunes (auditHash r) = auditHash r"
  by (simp_all add: auditHash_def)

definition chain_head :: "audit_record list \<Rightarrow> string" where
  "chain_head rs = (if rs = [] then [] else audit_entry_hash (last rs))"

lemma chain_head_simps [simp]: "chain_head [] = []" "chain_head (rs @ [r]) = audit_entry_hash r"
  by (simp_all add: chain_head_def)

lemma chain_last:
  assumes "audit_chain [] 0 (rs @ [r])"
  shows "audit_chain [] 0 rs" "audit_previous_hash r = chain_head rs" "equalFold (auditHash r) (audit_entry_hash r)"
  using assms by (auto simp: audit_chain_append chain_head_def split: if_splits)

lemma chain_head_Nil: "audit_chain [] 0 rs \<Longrightarrow> equalFold [] (chain_head rs) \<Longrightarrow> rs = []"
proof (cases rs rule: rev_cases)
  case (snoc xs r)
  assume "audit_chain [] 0 rs" "equalFold [] (chain_head rs)"
  with snoc have "equalFold [] (auditHash r)"
    using chain_last(3) [of xs r] by (auto simp: equalFold_def)
  then show ?thesis using auditHash_nonempty(1) [of r] by (simp add: equalFold_def del: auditHash_nonempty(1))
qed simp

lemma chains_agree:
  assumes "audit_chain [] 0 rs" "audit_chain [] 0 rs'" "list_all record_text_ok rs" "list_all record_text_ok rs'"
    and "equalFold (chain_head rs) (chain_head rs')"
  shows "map audited_fields rs = map audited_fields rs' \<or>
    (\<exists>r \<in> set rs. \<exists>r' \<in> set rs'. sha_collision (jenc (canonicalAudit r)) (jenc (canonicalAudit r')))"
  using assms
proof (induction rs arbitrary: rs' rule: rev_induct)
  case Nil
  then have "rs' = []" by (intro chain_head_Nil) simp_all
  then show ?case by simp
next
  case (snoc r rs)
  show ?case
  proof (cases rs' rule: rev_cases)
    case Nil
    with snoc.prems(5) have "equalFold [] (chain_head (rs @ [r]))" by (simp add: equalFold_sym)
    with snoc.prems(1) have "rs @ [r] = []" by (rule chain_head_Nil)
    then show ?thesis by simp
  next
    case s': (snoc ys r')
    note c = chain_last [OF snoc.prems(1)] and c' = chain_last [OF snoc.prems(2) [unfolded s']]
    have "equalFold (auditHash r) (auditHash r')"
      using c(3) c'(3) snoc.prems(5) s' by (simp add: equalFold_def)
    with snoc.prems(3,4) s' have "audited_fields r = audited_fields r' \<or>
        sha_collision (jenc (canonicalAudit r)) (jenc (canonicalAudit r'))"
      by (intro audit_same_hash) auto
    then show ?thesis
    proof
      assume eq: "audited_fields r = audited_fields r'"
      then have "chain_head rs = chain_head ys" using c(2) c'(2) by (simp add: audited_fields_def)
      with snoc.IH [of ys] c(1) c'(1) snoc.prems(3,4) s' eq show ?thesis by auto
    qed (auto simp: s')
  qed
qed

subsection \<open>Redaction\<close>

lemma length_sanitizeLabel: "length (sanitizeLabel v n) \<le> n"
  by (simp add: sanitizeLabel_def Let_def)

lemma sanitizeLabel_printable: "c \<in> set (sanitizeLabel v n) \<Longrightarrow> 0x20 \<le> byte_of c \<and> byte_of c \<noteq> 0x7F"
  by (auto simp: sanitizeLabel_def Let_def list_ex_iff not_less split: if_splits)

lemma redactParameters_eq: "smap_ok ps \<Longrightarrow> redactParameters ps = map (\<lambda>(k, v). (k, redactValue k v)) ps"
  using foldl_update_distinct [of ps "[]" redactValue] by (simp add: redactParameters_def smap_ok_def)

lemma smap_ok_redact: "smap_ok ps \<Longrightarrow> smap_ok (redactParameters ps)"
  by (simp add: redactParameters_eq smap_ok_def comp_def case_prod_unfold)

lemma map_of_redact:
  assumes "smap_ok ps"
  shows "map_of (redactParameters ps) k = map_option (redactValue k) (map_of ps k)"
  unfolding redactParameters_eq [OF assms] by (induction ps) auto

lemma length_redactValue: "length (redactValue k v) \<le> 523"
  by (simp add: redactValue_def)

subsection \<open>Records of ASCII events\<close>

definition actor_ascii :: "actor \<Rightarrow> bool" where
  "actor_ascii a \<longleftrightarrow> list_all (list_all ascii) ([actor_id a, kind a, display_name a] @ roles a @ permissions a)"

definition event_ascii :: "event_data \<Rightarrow> bool" where
  "event_ascii ev \<longleftrightarrow>
     list_all (list_all ascii) [ev_event ev, ev_request_id ev, ev_session_id ev, ev_plan_id ev, ev_plan_digest ev, ev_action ev,
       ev_risk ev, ev_status ev, ev_rollback_status ev, ev_error_code ev] \<and>
     actor_ascii (ev_actor ev) \<and> smap_ok (ev_parameters ev) \<and>
     list_all (\<lambda>(k, v). list_all ascii k \<and> list_all ascii v) (ev_parameters ev)"

lemma set_sanitizeLabel: "set (sanitizeLabel v n) \<subseteq> set v"
  using set_trimSpace [of v] by (auto simp: sanitizeLabel_def Let_def dest: in_set_takeD)

lemma ascii_sanitizeLabel: "list_all ascii v \<Longrightarrow> validUtf8 (sanitizeLabel v n)"
  using set_sanitizeLabel [of v n] by (intro validUtf8_ascii) (auto simp: list_all_iff)

lemma ascii_lower: "ascii c \<Longrightarrow> ascii (lower_byte c)"
  by (auto simp: ascii_def lower_byte_def)

lemma ascii_sanitizeDigest: "list_all ascii v \<Longrightarrow> validUtf8 (sanitizeDigest v)"
proof -
  assume "list_all ascii v"
  then have "list_all ascii (trimSpace v)" using set_trimSpace [of v] by (auto simp: list_all_iff)
  then have "list_all ascii (toLower (trimSpace v))" by (simp add: toLower_ascii) (simp add: list_all_iff ascii_lower)
  then show ?thesis by (simp add: sanitizeDigest_def Let_def validUtf8_ascii)
qed

lemma ascii_redactValue: "list_all ascii v \<Longrightarrow> validUtf8 (redactValue k v)"
  by (rule validUtf8_ascii) (auto simp: redactValue_def ascii_def list_all_iff dest: in_set_takeD)

lemma map_toValid_ascii: "list_all (list_all ascii) xs \<Longrightarrow> map toValidUtf8 xs = xs"
  by (induction xs) (simp_all add: toValidUtf8_id validUtf8_ascii)

lemma readActor_ascii: "actor_ascii a \<Longrightarrow> readActor a = a"
  by (cases a) (simp add: actor_ascii_def readActor_def toValidUtf8_id validUtf8_ascii map_toValid_ascii)

lemma hashedRecord_text_ok:
  assumes "event_ascii ev" "json_time (aenv_now env)" "validUtf8 (as_last_hash s)"
  shows "record_text_ok (hashedRecord env ev s)"
proof -
  have "validUtf8 AuditSchema" by (simp add: AuditSchema_def utf8_literal)
  moreover have "validUtf8 (newSecurityID ''audit'' x y)" for x y by (rule newSecurityID_utf8) (simp add: ascii_def)
  moreover have "validUtf8 (auditHash r)" for r by (simp add: auditHash_def sha256_hex_def hexEncode_validUtf8)
  moreover have "list_all (\<lambda>(k, v). validUtf8 k \<and> validUtf8 v) (redactParameters (ev_parameters ev))"
    using assms(1) by (auto simp: event_ascii_def redactParameters_eq list_all_iff ascii_redactValue validUtf8_ascii)
  ultimately show ?thesis
    using assms unfolding record_text_ok_def hashedRecord_def draftRecord_def Let_def event_ascii_def
    by (simp add: ascii_sanitizeLabel ascii_sanitizeDigest readActor_ascii smap_ok_redact)
qed

subsection \<open>Properties\<close>

definition exampleEvent :: event_data where
  "exampleEvent = \<lparr>ev_event = ''operation.planned'', ev_actor = exampleNormal, ev_request_id = '' r-1 '', ev_session_id = ''s-1'',
     ev_plan_id = ''plan-1'', ev_plan_digest = [], ev_action = ''service.restart'', ev_risk = RiskLow, ev_status = ''accepted'',
     ev_rollback_status = [], ev_parameters = [(''unit'', ''a.service''), (''Api-Token'', ''hunter2'')], ev_error_code = []\<rparr>"

definition exampleAuditEnv :: audit_env where
  "exampleAuditEnv = \<lparr>aenv_now = exampleNow, aenv_id = Some ''0123456789abcdef'', aenv_clock = exampleNow, aenv_fault = None\<rparr>"

definition exampleRecord :: audit_record where
  "exampleRecord = hashedRecord exampleAuditEnv exampleEvent emptyAuditStore"

lemma exampleEvent_ascii: "event_ascii exampleEvent"
  by code_simp

lemma draft_example:
  "draftRecord exampleAuditEnv exampleEvent emptyAuditStore =
     \<lparr>audit_schema = AuditSchema, audit_sequence = 1, audit_id = ''audit-30313233343536373839616263646566'',
      audit_timestamp = exampleNow, audit_event = ''operation.planned'', audit_actor = exampleNormal, audit_request_id = ''r-1'',
      audit_session_id = ''s-1'', audit_plan_id = ''plan-1'', audit_plan_digest = [], audit_action = ''service.restart'',
      audit_risk = RiskLow, audit_status = ''accepted'', audit_rollback_status = [],
      audit_parameters = [(''unit'', ''a.service''), (''Api-Token'', ''[REDACTED]'')], audit_error_code = [],
      audit_previous_hash = [], audit_entry_hash = []\<rparr>"
  by code_simp

lemma length_exampleNow: "length (rfc3339nano exampleNow) = 20"
  by code_simp

lemma exampleRecord_eq: "exampleRecord = (draftRecord exampleAuditEnv exampleEvent emptyAuditStore)
    \<lparr>audit_entry_hash := auditHash (draftRecord exampleAuditEnv exampleEvent emptyAuditStore)\<rparr>"
  by (simp add: exampleRecord_def hashedRecord_def Let_def)

lemma sort_example_parameters:
  "sort_key fst [(''unit'', ''a.service''), (''Api-Token'', ''[REDACTED]'')] = [(''Api-Token'', ''[REDACTED]''), (''unit'', ''a.service'')]"
  by code_simp

lemma length_auditHash [simp]: "length (auditHash r) = 64"
  by (simp add: auditHash_def)

lemma length_dec_small: "length (dec 1) = 1" "length (dec (Suc 0)) = 1" "length (dec 2) = 1"
  by code_simp+

lemmas example_size_simps = recordJson_def sort_example_parameters omitempty_def actorJson_def exampleNormal_def length_exampleNow
  AuditSchema_def RiskLow_def kind_defs permission_defs length_dec_small

lemma exampleRecord_small: "length (jenc (recordJson exampleRecord)) < 16384"
proof -
  have "jweight (recordJson exampleRecord) < 16384"
    unfolding exampleRecord_eq draft_example by (simp add: example_size_simps)
  with length_jenc(1) [of "recordJson exampleRecord"] show ?thesis by linarith
qed

lemma exampleRecord_size: "length (jenc (recordJson exampleRecord)) < maxAuditLineBytes"
  using exampleRecord_small by (simp add: maxAuditLineBytes_def)

lemma example_append:
  "appendEvent exampleAuditEnv exampleEvent emptyAuditStore NoAuditFile =
     (Inr exampleRecord, pushRecord emptyAuditStore exampleRecord, AuditLines [AuditLine exampleRecord])"
proof -
  let ?d = "draftRecord exampleAuditEnv exampleEvent emptyAuditStore"
  have "marshalable exampleNow" by code_simp
  moreover have "audit_timestamp exampleRecord = exampleNow" by (simp add: exampleRecord_eq draft_example)
  moreover have "aenv_fault exampleAuditEnv = None" by (simp add: exampleAuditEnv_def)
  moreover have "audit_event ?d \<noteq> []" "actor_id (audit_actor ?d) \<noteq> []" "audit_status ?d \<noteq> []"
    by (simp_all add: draft_example exampleNormal_def)
  ultimately show ?thesis using exampleRecord_size
    by (simp add: appendEvent_def Let_def exampleRecord_def [symmetric] writeLine_def createFile_def)
qed

lemma exampleRecord_text_ok: "record_text_ok exampleRecord"
  unfolding exampleRecord_def
  by (rule hashedRecord_text_ok)
    (simp_all add: exampleEvent_ascii exampleAuditEnv_def exampleNow_def json_time_def duration_defs emptyAuditStore_def)

lemma exampleRecord_chain: "audit_chain [] 0 [exampleRecord]"
proof -
  have "audit_chain (as_last_hash emptyAuditStore) (as_sequence emptyAuditStore) [exampleRecord]"
    unfolding exampleRecord_def by (rule hashedRecord_chain) (simp_all add: draft_example exampleNormal_def)
  then show ?thesis by simp
qed

text \<open>
  C24. The audit store is always a verified chain. Opening a store yields a chain (consecutive sequence
  numbers from 1, each record naming its predecessor's entry hash, each entry hash matching the record,
  required fields present, head hash and sequence those of the last record); \<^verbatim>\<open>Append\<close> keeps it a chain,
  extends it by exactly the returned record whose entry hash becomes the head, and on any error leaves the
  store in memory unchanged.
\<close>

theorem audit_store_is_chain:
  assumes "openAuditStore path f0 = Inr s0 \<or> store_ok s0" "appendEvent env ev s0 f = (res, s', f')"
  shows "store_ok s0 \<and> store_ok s' \<and> audit_chain [] 0 (as_records s') \<and>
    (case res of
       Inl _ \<Rightarrow> s' = s0
     | Inr r \<Rightarrow> as_records s' = as_records s0 @ [r] \<and> audit_previous_hash r = as_last_hash s0 \<and>
         audit_sequence r = as_sequence s0 + 1 \<and> audit_entry_hash r = auditHash r \<and>
         as_last_hash s' = auditHash r \<and> as_sequence s' = as_sequence s0 + 1)"
proof -
  have s0: "store_ok s0" using assms(1) openAuditStore_ok by blast
  then have s': "store_ok s'" using assms(2) by (rule store_ok_append)
  from assms(2) have "case res of
       Inl _ \<Rightarrow> s' = s0
     | Inr r \<Rightarrow> as_records s' = as_records s0 @ [r] \<and> audit_previous_hash r = as_last_hash s0 \<and>
         audit_sequence r = as_sequence s0 + 1 \<and> audit_entry_hash r = auditHash r \<and>
         as_last_hash s' = auditHash r \<and> as_sequence s' = as_sequence s0 + 1"
    by (cases rule: appendEvent_cases) (simp_all add: hashedRecord_def Let_def)
  with s0 s' show ?thesis by (simp add: store_ok_def)
qed

theorem audit_store_is_chain_witness:
  "store_ok (pushRecord emptyAuditStore exampleRecord) \<and> audit_entry_hash exampleRecord = auditHash exampleRecord"
  using audit_store_is_chain [OF disjI2 [OF store_ok_empty] example_append] by simp

text \<open>
  Bytes after the record of a line are not read, but count towards the limit of the line.
\<close>

lemma loadLines_glued:
  assumes "loadLines 0 emptyAuditStore (ls @ [RecordLine before q after]) = Inr s"
  shows "loadLines 0 emptyAuditStore (ls @ [RecordLine before q (after @ x)]) =
    (if length (line_text (RecordLine before q after)) + length x < maxAuditLineBytes then Inr s else Inl AuditLineTooLong)"
proof (cases "length (line_text (RecordLine before q after)) + length x < maxAuditLineBytes")
  case True
  then have "loadLines 0 emptyAuditStore (ls @ [RecordLine before q (after @ x)]) = Inr s"
    using assms unfolding loadLines_iff by (simp add: readable_def)
  with True show ?thesis by simp
next
  case False
  from assms obtain s0 where "loadLines 0 emptyAuditStore ls = Inr s0"
    by (auto simp: loadLines_append split: sum.splits)
  with False show ?thesis by (simp add: loadLines_append)
qed

text \<open>
  C25. What is appended is what a restart reads, provided the file ended in a newline. If a store was opened
  from a file and an event is then appended whose record has well-formed text and a line shorter than the
  scanner's limit, then (1) when the last line of the file was terminated, opening the file again succeeds with
  every earlier record and the new one (its parameter map listed in key order), the same head hash and the same
  sequence number; (2) when the last line had lost its newline, which does not keep the file from opening,
  the new record is glued to that line, where the decoder ignores it: opening the file again succeeds with
  exactly the old store, and the record whose append was reported as successful is lost without an error (or,
  if the glued line exceeds the scanner's limit, the file no longer opens). Events in ASCII satisfy the
  condition on the text.
\<close>

theorem audit_append_reloads:
  assumes "openAuditStore path f = Inr s" "appendEvent env ev s f = (Inr r, s', f')"
    and "record_text_ok r \<or> event_ascii ev \<and> json_time (aenv_now env) \<and> validUtf8 (as_last_hash s)"
    and "length (jenc (recordJson r)) < maxAuditLineBytes"
  shows "if audit_terminated f
    then openAuditStore path f' = Inr (pushRecord s (canonRecord r)) \<and>
      as_last_hash (pushRecord s (canonRecord r)) = as_last_hash s' \<and> as_sequence (pushRecord s (canonRecord r)) = as_sequence s'
    else \<exists>ls l. f = AuditUnterminated ls l \<and>
      openAuditStore path f' =
        (if length (line_text l) + length (jenc (recordJson r)) < maxAuditLineBytes then Inr s else Inl AuditLineTooLong)"
  using assms(2)
proof (cases rule: appendEvent_cases)
  case Appended
  then have r: "r = hashedRecord env ev s" by simp
  then have ok: "record_text_ok r" using assms(3) hashedRecord_text_ok by blast
  from assms(1) have path: "openAuditStore path g = loadAndVerify g" for g
    by (auto simp: openAuditStore_def split: if_splits)
  from assms(1) show ?thesis
  proof (cases rule: opened_file)
    case (Terminated ls)
    from Terminated(3) [of r] Appended(3) r have "f' = AuditLines (ls @ [AuditLine r])" by simp
    with loadLines_snoc [OF Terminated(2) ok assms(4)] Appended(2,4) r Terminated(1) show ?thesis by (simp add: path)
  next
    case (Unterminated ls a q b)
    with Appended(3) r have "f' = AuditLines (ls @ [RecordLine a q (b @ jenc (recordJson r))])" by simp
    with loadLines_glued [OF Unterminated(3), of "jenc (recordJson r)"] Unterminated(1,2) show ?thesis by (simp add: path)
  qed
qed simp

text \<open>
  A first append loses its newline (\<^verbatim>\<open>Write\<close> fails after all bytes but the last), the store is opened again, and a
  second append succeeds.
\<close>

definition reopenedStore :: audit_store where
  "reopenedStore = pushRecord emptyAuditStore (canonRecord exampleRecord)"

definition gluedRecord :: audit_record where
  "gluedRecord = hashedRecord exampleAuditEnv exampleEvent reopenedStore"

lemma draft_reopened:
  "draftRecord exampleAuditEnv exampleEvent reopenedStore =
     (draftRecord exampleAuditEnv exampleEvent emptyAuditStore)
       \<lparr>audit_sequence := 2, audit_previous_hash := auditHash exampleRecord\<rparr>"
proof -
  have "audit_entry_hash exampleRecord = auditHash exampleRecord" by (simp add: exampleRecord_def hashedRecord_def Let_def)
  moreover have "audit_sequence exampleRecord = 1" by (simp add: exampleRecord_eq draft_example)
  ultimately show ?thesis by (simp add: draftRecord_def reopenedStore_def)
qed

lemma gluedRecord_eq:
  "gluedRecord = (draftRecord exampleAuditEnv exampleEvent reopenedStore)
     \<lparr>audit_entry_hash := auditHash (draftRecord exampleAuditEnv exampleEvent reopenedStore)\<rparr>"
  by (simp add: gluedRecord_def hashedRecord_def Let_def)

lemma lost_newline:
  "writeLine (Some (AuditWrite (length (jenc (recordJson exampleRecord))))) exampleRecord NoAuditFile =
     AuditUnterminated [] (AuditLine exampleRecord)"
  by (simp add: writeLine_def writeBytes_def fileTail_def extendLine_def)

lemma gluedRecord_small: "length (jenc (recordJson gluedRecord)) < 16384"
proof -
  have "jweight (recordJson gluedRecord) < 16384"
    unfolding gluedRecord_eq draft_reopened draft_example by (simp add: example_size_simps)
  with length_jenc(1) [of "recordJson gluedRecord"] show ?thesis by linarith
qed

lemma example_reopens:
  "openAuditStore ''/var/log/a'' NoAuditFile = Inr emptyAuditStore"
  "openAuditStore ''/var/log/a'' (AuditUnterminated [] (AuditLine exampleRecord)) = Inr reopenedStore"
proof -
  have p: "trimSpace ''/var/log/a'' \<noteq> []" by code_simp
  then show "openAuditStore ''/var/log/a'' NoAuditFile = Inr emptyAuditStore" by (simp add: openAuditStore_def)
  have "loadLines 0 emptyAuditStore ([] @ [AuditLine exampleRecord]) = Inr reopenedStore"
    unfolding reopenedStore_def
    by (rule loadLines_snoc [OF _ exampleRecord_text_ok exampleRecord_size]) (use exampleRecord_chain in simp_all)
  with p show "openAuditStore ''/var/log/a'' (AuditUnterminated [] (AuditLine exampleRecord)) = Inr reopenedStore"
    by (simp add: openAuditStore_def del: loadLines.simps)
qed

lemma glued_append:
  "appendEvent exampleAuditEnv exampleEvent reopenedStore (AuditUnterminated [] (AuditLine exampleRecord)) =
     (Inr gluedRecord, pushRecord reopenedStore gluedRecord,
      AuditLines [RecordLine [] exampleRecord (jenc (recordJson gluedRecord))])"
proof -
  let ?d = "draftRecord exampleAuditEnv exampleEvent reopenedStore"
  have "marshalable exampleNow" by code_simp
  moreover have "audit_timestamp gluedRecord = exampleNow" by (simp add: gluedRecord_eq draft_reopened draft_example)
  moreover have "aenv_fault exampleAuditEnv = None" by (simp add: exampleAuditEnv_def)
  moreover have "audit_event ?d \<noteq> []" "actor_id (audit_actor ?d) \<noteq> []" "audit_status ?d \<noteq> []"
    by (simp_all add: draft_reopened draft_example exampleNormal_def)
  ultimately show ?thesis using gluedRecord_small
    by (simp add: appendEvent_def Let_def gluedRecord_def [symmetric] writeLine_def maxAuditLineBytes_def)
qed

theorem audit_append_reloads_witness:
  "openAuditStore ''/var/log/a'' (AuditLines [AuditLine exampleRecord]) = Inr (pushRecord emptyAuditStore (canonRecord exampleRecord)) \<and>
   writeLine (Some (AuditWrite (length (jenc (recordJson exampleRecord))))) exampleRecord NoAuditFile =
     AuditUnterminated [] (AuditLine exampleRecord) \<and>
   appendEvent exampleAuditEnv exampleEvent reopenedStore (AuditUnterminated [] (AuditLine exampleRecord)) =
     (Inr gluedRecord, pushRecord reopenedStore gluedRecord, AuditLines [RecordLine [] exampleRecord (jenc (recordJson gluedRecord))]) \<and>
   openAuditStore ''/var/log/a'' (AuditLines [RecordLine [] exampleRecord (jenc (recordJson gluedRecord))]) = Inr reopenedStore"
proof -
  have t: "event_ascii exampleEvent \<and> json_time (aenv_now exampleAuditEnv) \<and> validUtf8 (as_last_hash emptyAuditStore)"
    "event_ascii exampleEvent \<and> json_time (aenv_now exampleAuditEnv) \<and> validUtf8 (as_last_hash reopenedStore)"
    by (simp_all add: exampleEvent_ascii exampleAuditEnv_def exampleNow_def json_time_def duration_defs reopenedStore_def
        exampleRecord_eq auditHash_def sha256_hex_def hexEncode_validUtf8)
  have size: "length (jenc (recordJson gluedRecord)) < maxAuditLineBytes"
    using gluedRecord_small by (simp add: maxAuditLineBytes_def)
  have tm: "audit_terminated NoAuditFile" "\<not> audit_terminated (AuditUnterminated [] (AuditLine exampleRecord))"
    by (simp_all add: audit_terminated_def)
  note 1 = audit_append_reloads [OF example_reopens(1) example_append disjI2 [OF t(1)] exampleRecord_size]
    and 2 = audit_append_reloads [OF example_reopens(2) glued_append disjI2 [OF t(2)] size]
  show ?thesis
    using 1 2 tm lost_newline glued_append exampleRecord_small gluedRecord_small
    by (simp add: maxAuditLineBytes_def del: loadAndVerify_def)
qed

text \<open>
  C26. The head hash commits to the whole log. If two stores each hold a verified chain of records with
  well-formed text and their head hashes agree (up to letter case), the logs have the same length and agree,
  record by record, on every audited field, unless two canonical record texts form a SHA-256 collision.
\<close>

theorem audit_head_commits:
  assumes "store_ok s" "store_ok s'" "list_all record_text_ok (as_records s)" "list_all record_text_ok (as_records s')"
    and "equalFold (as_last_hash s) (as_last_hash s')"
  shows "map audited_fields (as_records s) = map audited_fields (as_records s') \<or>
    (\<exists>r \<in> set (as_records s). \<exists>r' \<in> set (as_records s'). sha_collision (jenc (canonicalAudit r)) (jenc (canonicalAudit r')))"
proof -
  have "as_last_hash s = chain_head (as_records s)" "as_last_hash s' = chain_head (as_records s')"
    using store_ok_last(1) assms(1,2) unfolding chain_head_def by blast+
  with assms show ?thesis by (intro chains_agree) (simp_all add: store_ok_def)
qed

lemma canon_store_ok: "store_ok (pushRecord emptyAuditStore (canonRecord exampleRecord))"
  using exampleRecord_chain audit_chain_canon [of "[]" 0 exampleRecord]
  by (intro store_ok_push store_ok_empty) simp

theorem audit_head_commits_witness:
  "\<exists>s s'. store_ok s \<and> store_ok s' \<and> as_records s = [exampleRecord] \<and> as_records s' = [canonRecord exampleRecord] \<and>
     (map audited_fields [exampleRecord] = map audited_fields [canonRecord exampleRecord] \<or>
      sha_collision (jenc (canonicalAudit exampleRecord)) (jenc (canonicalAudit (canonRecord exampleRecord))))"
proof -
  let ?s = "pushRecord emptyAuditStore exampleRecord" and ?s' = "pushRecord emptyAuditStore (canonRecord exampleRecord)"
  have ok: "store_ok ?s" "store_ok ?s'"
    using exampleRecord_chain by (auto intro!: store_ok_push store_ok_empty canon_store_ok)
  have "record_text_ok (canonRecord exampleRecord)"
    using exampleRecord_text_ok distinct_sort_key [of "audit_parameters exampleRecord"]
    by (simp add: record_text_ok_def canonRecord_def smap_ok_def list_all_iff)
  with audit_head_commits [OF ok] exampleRecord_text_ok ok show ?thesis
    by (intro exI [of _ ?s] exI [of _ ?s']) simp
qed

text \<open>
  What the chain does not cover: replacing the display names of the actors in a log leaves it a verified
  chain with the same head hash.
\<close>

theorem audit_chain_omits_display_name:
  "audit_chain prev seq (map (\<lambda>r. r\<lparr>audit_actor := (audit_actor r)\<lparr>display_name := n (audit_id r)\<rparr>\<rparr>) rs) = audit_chain prev seq rs"
proof -
  have "auditHash (r\<lparr>audit_actor := (audit_actor r)\<lparr>display_name := d\<rparr>\<rparr>) = auditHash r" for r d
    by (simp add: auditHash_def canonicalAudit_def)
  then show ?thesis by (induction rs arbitrary: prev seq) simp_all
qed

text \<open>
  C27. \<^verbatim>\<open>Query\<close>, with its backward scan and its in-place reversal, returns exactly the last \<open>n\<close> matching
  records in chronological order, where \<open>n\<close> is the limit if it is between 1 and 500 and 100 otherwise; a blank
  actor or action matches everything.
\<close>

theorem query_returns_last_matches:
  "queryAudit limit actorID action s =
     (let n = (if 1 \<le> limit \<and> limit \<le> 500 then nat limit else 100);
          hits = filter (\<lambda>r. (trimSpace actorID = [] \<or> actor_id (audit_actor r) = trimSpace actorID) \<and>
                            (trimSpace action = [] \<or> audit_action r = trimSpace action)) (as_records s)
      in drop (length hits - n) hits)"
proof -
  have "record_matches x y = (\<lambda>r. (x = [] \<or> actor_id (audit_actor r) = x) \<and> (y = [] \<or> audit_action r = y))" for x y
    by (auto simp: record_matches_def fun_eq_iff)
  then show ?thesis unfolding queryAudit_eq by (auto simp: Let_def)
qed

text \<open>
  C28. Secrets and oversized text do not reach the log. For every event, in the record \<^verbatim>\<open>Append\<close> builds: the
  parameter names are the event's; the value of every parameter with a secret-like name is the redaction
  marker; every value is at most 523 bytes; each of the nine labels (event, request, session and plan ID,
  action, risk, status, rollback status and error code) is within its own limit and free of control
  characters; the plan digest is empty or 64 hexadecimal digits.
\<close>

theorem audit_record_redacted:
  assumes "smap_ok (ev_parameters ev)"
  shows "dom (map_of (audit_parameters (draftRecord env ev s))) = dom (map_of (ev_parameters ev)) \<and>
    (\<forall>k v. map_of (audit_parameters (draftRecord env ev s)) k = Some v \<longrightarrow>
       length v \<le> 523 \<and> (secretKey k \<longrightarrow> v = ''[REDACTED]'')) \<and>
    length (audit_event (draftRecord env ev s)) \<le> 96 \<and> length (audit_request_id (draftRecord env ev s)) \<le> 160 \<and>
    length (audit_session_id (draftRecord env ev s)) \<le> 160 \<and> length (audit_plan_id (draftRecord env ev s)) \<le> 160 \<and>
    length (audit_action (draftRecord env ev s)) \<le> 160 \<and> length (audit_risk (draftRecord env ev s)) \<le> 64 \<and>
    length (audit_status (draftRecord env ev s)) \<le> 64 \<and> length (audit_rollback_status (draftRecord env ev s)) \<le> 64 \<and>
    length (audit_error_code (draftRecord env ev s)) \<le> 96 \<and>
    list_all (list_all (\<lambda>c. 0x20 \<le> byte_of c \<and> byte_of c \<noteq> 0x7F))
      [audit_event (draftRecord env ev s), audit_request_id (draftRecord env ev s), audit_session_id (draftRecord env ev s),
       audit_plan_id (draftRecord env ev s), audit_action (draftRecord env ev s), audit_risk (draftRecord env ev s),
       audit_status (draftRecord env ev s), audit_rollback_status (draftRecord env ev s), audit_error_code (draftRecord env ev s)] \<and>
    (audit_plan_digest (draftRecord env ev s) = [] \<or>
     length (audit_plan_digest (draftRecord env ev s)) = 64 \<and> hexDecode (audit_plan_digest (draftRecord env ev s)) \<noteq> None)"
proof -
  have "dom (map_of (redactParameters (ev_parameters ev))) = dom (map_of (ev_parameters ev))"
    by (auto simp: map_of_redact [OF assms] dom_def)
  moreover have "length v \<le> 523 \<and> (secretKey k \<longrightarrow> v = ''[REDACTED]'')"
    if "map_of (redactParameters (ev_parameters ev)) k = Some v" for k v
    using that length_redactValue [of k] by (auto simp: map_of_redact [OF assms] redactValue_def)
  moreover have "list_all (\<lambda>c. 0x20 \<le> byte_of c \<and> byte_of c \<noteq> 0x7F) (sanitizeLabel x n)" for x n
    using sanitizeLabel_printable unfolding list_all_iff by blast
  moreover have "sanitizeDigest x = [] \<or> length (sanitizeDigest x) = 64 \<and> hexDecode (sanitizeDigest x) \<noteq> None" for x
    by (simp add: sanitizeDigest_def Let_def)
  ultimately show ?thesis unfolding draftRecord_def by (simp add: length_sanitizeLabel)
qed

theorem audit_record_redacted_witness:
  "map_of (audit_parameters (draftRecord exampleAuditEnv exampleEvent emptyAuditStore)) ''Api-Token'' = Some ''[REDACTED]'' \<and>
   dom (map_of (audit_parameters (draftRecord exampleAuditEnv exampleEvent emptyAuditStore))) = dom (map_of (ev_parameters exampleEvent))"
proof -
  have "smap_ok (ev_parameters exampleEvent)" using exampleEvent_ascii by (simp add: event_ascii_def)
  note audit_record_redacted [OF this, of exampleAuditEnv emptyAuditStore, THEN conjunct1]
  then show ?thesis by (simp only: simp_thms) (simp add: draft_example)
qed

subsection \<open>Ways in which a log that was written cannot be read\<close>

text \<open>
  C29. A failed flush splits memory from the file. A store is opened from a file that is absent or ends in a
  newline. When \<^verbatim>\<open>Append\<close> reports a failed \<^verbatim>\<open>Sync\<close> or \<^verbatim>\<open>Close\<close>, the store in memory is unchanged but the record
  is already in the file; the next successful append writes a second record with the same sequence number and
  the same previous hash after it, and the file with these two records no longer opens.
\<close>

theorem failed_sync_breaks_log:
  assumes "openAuditStore path f = Inr s" "audit_terminated f"
    and "appendEvent env1 ev1 s f = (Inl (AuditIO stage), s1, f1)" "stage \<in> {AuditSync, AuditClose}"
    and "appendEvent env2 ev2 s1 f1 = (Inr r2, s2, f2)"
  shows "s1 = s \<and>
    (\<exists>ls r1. f1 = AuditLines (ls @ [AuditLine r1]) \<and> f2 = AuditLines (ls @ [AuditLine r1, AuditLine r2]) \<and>
       audit_sequence r1 = as_sequence s + 1 \<and> audit_sequence r2 = audit_sequence r1 \<and>
       audit_previous_hash r2 = audit_previous_hash r1) \<and>
    (\<forall>x. openAuditStore path f2 \<noteq> Inr x)"
proof -
  let ?r1 = "hashedRecord env1 ev1 s"
  have 1: "s1 = s" "f1 = addLine ?r1 (createFile f)"
    using assms(3,4) by (auto simp: appendEvent_def Let_def writeLine_def split: if_splits option.splits)
  have 2: "r2 = hashedRecord env2 ev2 s" "f2 = addLine r2 (createFile f1)"
    using assms(5) 1(1) by (auto elim: appendEvent_cases)
  obtain ls where "\<And>r. addLine r (createFile f) = AuditLines (ls @ [AuditLine r])"
    using assms(1,2) by (auto elim: opened_file)
  with 1(2) 2(2) have files: "f1 = AuditLines (ls @ [AuditLine ?r1])" "f2 = AuditLines (ls @ [AuditLine ?r1, AuditLine r2])" by simp_all
  have seq: "audit_sequence ?r1 = as_sequence s + 1" "audit_sequence r2 = audit_sequence ?r1"
      "audit_previous_hash r2 = audit_previous_hash ?r1"
    by (simp_all add: 2(1) hashedRecord_def draftRecord_def Let_def)
  have "openAuditStore path f2 \<noteq> Inr x" for x
  proof
    assume "openAuditStore path f2 = Inr x"
    then have "loadLines 0 emptyAuditStore (ls @ [AuditLine ?r1, AuditLine r2]) = Inr x"
      unfolding files openAuditStore_def by (simp split: if_splits)
    then have "audit_chain [] 0 (read_lines (ls @ [AuditLine ?r1, AuditLine r2]))" unfolding loadLines_iff by simp
    then have "audit_sequence (readRecord r2) = audit_sequence (readRecord ?r1) + 1" by (auto simp: audit_chain_append)
    with seq(2) show False by (simp add: readRecord_def)
  qed
  with 1(1) files seq show ?thesis by blast
qed

lemma draftRecord_fault [simp]: "draftRecord (env\<lparr>aenv_fault := x\<rparr>) ev s = draftRecord env ev s"
  by (simp add: draftRecord_def)

lemma example_append_any:
  "appendEvent (exampleAuditEnv\<lparr>aenv_fault := fault\<rparr>) exampleEvent emptyAuditStore f =
     (case fault of
        None \<Rightarrow> (Inr exampleRecord, pushRecord emptyAuditStore exampleRecord, addLine exampleRecord (createFile f))
      | Some stage \<Rightarrow> (Inl (AuditIO stage), emptyAuditStore, writeLine fault exampleRecord f))"
proof -
  let ?d = "draftRecord exampleAuditEnv exampleEvent emptyAuditStore"
  have "hashedRecord (exampleAuditEnv\<lparr>aenv_fault := fault\<rparr>) exampleEvent emptyAuditStore = exampleRecord"
    by (simp add: exampleRecord_def hashedRecord_def)
  moreover have "marshalable exampleNow" by code_simp
  moreover have "audit_timestamp exampleRecord = exampleNow" by (simp add: exampleRecord_eq draft_example)
  moreover have "audit_event ?d \<noteq> []" "actor_id (audit_actor ?d) \<noteq> []" "audit_status ?d \<noteq> []"
    by (simp_all add: draft_example exampleNormal_def)
  ultimately show ?thesis using exampleRecord_size
    by (simp add: appendEvent_def Let_def writeLine_def split: option.splits)
qed

theorem failed_sync_breaks_log_witness:
  "\<exists>ls r1. AuditLines [AuditLine exampleRecord, AuditLine exampleRecord] = AuditLines (ls @ [AuditLine r1, AuditLine exampleRecord]) \<and>
     audit_sequence r1 = 1 \<and> audit_sequence exampleRecord = audit_sequence r1 \<and>
     (\<forall>x. openAuditStore ''/var/log/a'' (AuditLines [AuditLine exampleRecord, AuditLine exampleRecord]) \<noteq> Inr x)"
proof -
  have 1: "appendEvent (exampleAuditEnv\<lparr>aenv_fault := Some AuditSync\<rparr>) exampleEvent emptyAuditStore NoAuditFile =
      (Inl (AuditIO AuditSync), emptyAuditStore, AuditLines [AuditLine exampleRecord])"
    by (simp add: example_append_any writeLine_def)
  have 2: "appendEvent (exampleAuditEnv\<lparr>aenv_fault := None\<rparr>) exampleEvent emptyAuditStore (AuditLines [AuditLine exampleRecord]) =
      (Inr exampleRecord, pushRecord emptyAuditStore exampleRecord, AuditLines [AuditLine exampleRecord, AuditLine exampleRecord])"
    by (simp add: example_append_any)
  have t: "audit_terminated NoAuditFile" "AuditSync \<in> {AuditSync, AuditClose}" by (simp_all add: audit_terminated_def)
  note broken = failed_sync_breaks_log [OF example_reopens(1) t(1) 1 t(2) 2]
  then obtain ls r1 where
    "AuditLines [AuditLine exampleRecord, AuditLine exampleRecord] = AuditLines (ls @ [AuditLine r1, AuditLine exampleRecord])"
    "audit_sequence r1 = as_sequence emptyAuditStore + 1" "audit_sequence exampleRecord = audit_sequence r1"
    by (elim conjE exE) (rule that, assumption+)
  moreover from broken have "\<forall>x. openAuditStore ''/var/log/a'' (AuditLines [AuditLine exampleRecord, AuditLine exampleRecord]) \<noteq> Inr x"
    by argo
  ultimately show ?thesis by (intro exI [of _ ls] exI [of _ r1] conjI) (simp_all only: emptyAuditStore_sel add_0 simp_thms)
qed

text \<open>A label cut inside a rune: the hash is taken over the cut bytes, the line holds the replacement character.\<close>

lemma omitempty_Some: "v \<noteq> [] \<Longrightarrow> omitempty k v = [(k, JStr v)]"
  by (simp add: omitempty_def)

lemma canonicalAudit_request:
  "\<exists>ms ns. \<forall>x. x \<noteq> [] \<longrightarrow> canonicalAudit (d\<lparr>audit_request_id := x\<rparr>) = JObj (ms @ (''request_id'', JStr x) # ns)"
  by (rule exI [of _ "[(''schema'', JStr (audit_schema d)), (''sequence'', JNum (unat (audit_sequence d))), (''id'', JStr (audit_id d)),
       (''timestamp'', JStr (rfc3339nano (audit_timestamp d))), (''event'', JStr (audit_event d)),
       (''actor_id'', JStr (actor_id (audit_actor d))), (''actor_kind'', JStr (kind (audit_actor d))),
       (''roles'', JArr (map JStr (sort (roles (audit_actor d))))),
       (''permissions'', JArr (map JStr (sort (permissions (audit_actor d)))))]"], rule exI, intro allI impI)
    (simp add: canonicalAudit_def omitempty_Some split del: if_split cong: if_cong)

lemma cut_request_hash:
  assumes "x \<noteq> []" "y \<noteq> []" "jescape x \<noteq> jescape y"
  shows "equalFold (auditHash (d\<lparr>audit_request_id := x\<rparr>)) (auditHash (d\<lparr>audit_request_id := y\<rparr>)) \<longleftrightarrow>
    sha_collision (jenc (canonicalAudit (d\<lparr>audit_request_id := x\<rparr>))) (jenc (canonicalAudit (d\<lparr>audit_request_id := y\<rparr>)))"
proof -
  obtain ms ns where "\<And>x. x \<noteq> [] \<Longrightarrow> canonicalAudit (d\<lparr>audit_request_id := x\<rparr>) = JObj (ms @ (''request_id'', JStr x) # ns)"
    using canonicalAudit_request [of d] by blast
  then have "jenc (canonicalAudit (d\<lparr>audit_request_id := x\<rparr>)) \<noteq> jenc (canonicalAudit (d\<lparr>audit_request_id := y\<rparr>))"
    using assms jenc_member_eq by simp
  then show ?thesis by (simp add: auditHash_def sha256_hex_fold)
qed

definition cutRequest :: string where
  "cutRequest = replicate 159 (CHR ''a'') @ [CHR 0xC3, CHR 0xA9]"

definition cutEvent :: event_data where
  "cutEvent = exampleEvent\<lparr>ev_request_id := cutRequest\<rparr>"

definition cutLabel :: string where
  "cutLabel = replicate 159 (CHR ''a'') @ [CHR 0xC3]"

definition cutRecord :: audit_record where
  "cutRecord = hashedRecord exampleAuditEnv cutEvent emptyAuditStore"

lemma graphic_prefix:
  "jescape (replicate n (CHR ''a'') @ x) = replicate n (CHR ''a'') @ jescape x"
  "toValidUtf8 (replicate n (CHR ''a'') @ x) = replicate n (CHR ''a'') @ toValidUtf8 x"
  "validUtf8 (replicate n (CHR ''a'') @ x) = validUtf8 x"
  by (induction n) (simp_all add: esc_ascii_def utf8_size_def utf8_literal)

lemma trim_cutRequest: "trimSpace cutRequest = cutRequest"
proof -
  have a: "cutRequest = CHR ''a'' # replicate 158 (CHR ''a'') @ [CHR 0xC3, CHR 0xA9]"
    unfolding cutRequest_def by (simp flip: replicate_Suc)
  have "stripL goSpaces cutRequest = cutRequest"
    unfolding a by (simp add: goSpaces_def prefix_len_def)
  moreover have r: "rev cutRequest = CHR 0xA9 # CHR 0xC3 # rev (replicate 159 (CHR ''a''))" by (simp add: cutRequest_def)
  have "stripL (map rev goSpaces) (rev cutRequest) = rev cutRequest"
    unfolding r by (simp add: goSpaces_def prefix_len_def)
  ultimately show ?thesis by (simp add: trimSpace_def stripR_def)
qed

lemma cut_strings:
  "validUtf8 cutRequest" "sanitizeLabel cutRequest 160 = cutLabel" "jescape (toValidUtf8 cutLabel) \<noteq> jescape cutLabel"
  "toValidUtf8 cutLabel \<noteq> []" "cutLabel \<noteq> []" "length cutLabel = 160"
proof -
  have "validUtf8 [CHR 0xC3, CHR 0xA9]" "jescape (toValidUtf8 [CHR 0xC3]) \<noteq> jescape [CHR 0xC3]"
    "toValidUtf8 [CHR 0xC3] \<noteq> []" by code_simp+
  then show "validUtf8 cutRequest" "jescape (toValidUtf8 cutLabel) \<noteq> jescape cutLabel" "toValidUtf8 cutLabel \<noteq> []"
    by (simp_all add: cutRequest_def cutLabel_def graphic_prefix)
  show "sanitizeLabel cutRequest 160 = cutLabel"
    by (simp add: sanitizeLabel_def trim_cutRequest Let_def) (simp add: cutRequest_def cutLabel_def list_ex_iff)
  show "cutLabel \<noteq> []" "length cutLabel = 160" by (simp_all add: cutLabel_def)
qed

lemma cutRecord_eq:
  "cutRecord = (let d = (draftRecord exampleAuditEnv exampleEvent emptyAuditStore)\<lparr>audit_request_id := cutLabel\<rparr>
     in d\<lparr>audit_entry_hash := auditHash d\<rparr>)"
  using cut_strings(2) by (simp add: cutRecord_def hashedRecord_def Let_def draftRecord_def cutEvent_def)

lemma readRecord_request:
  "readRecord (r\<lparr>audit_request_id := x\<rparr>) = (readRecord r)\<lparr>audit_request_id := toValidUtf8 x\<rparr>"
  by (simp add: readRecord_def)

lemma cutRecord_size: "length (jenc (recordJson cutRecord)) < maxAuditLineBytes"
proof -
  have "length (dec 1) = 1" by code_simp
  moreover have "length (auditHash r) = 64" for r by (simp add: auditHash_def)
  ultimately have "jweight (recordJson cutRecord) < maxAuditLineBytes"
    unfolding cutRecord_eq draft_example Let_def
    by (simp add: recordJson_def sort_example_parameters omitempty_def actorJson_def exampleNormal_def length_exampleNow
        AuditSchema_def RiskLow_def kind_defs permission_defs maxAuditLineBytes_def cut_strings(5,6))
  with length_jenc(1) [of "recordJson cutRecord"] show ?thesis by linarith
qed

lemma cut_append:
  "appendEvent exampleAuditEnv cutEvent emptyAuditStore NoAuditFile =
     (Inr cutRecord, pushRecord emptyAuditStore cutRecord, AuditLines [AuditLine cutRecord])"
proof -
  let ?d = "draftRecord exampleAuditEnv cutEvent emptyAuditStore"
  have d: "?d = (draftRecord exampleAuditEnv exampleEvent emptyAuditStore)\<lparr>audit_request_id := cutLabel\<rparr>"
    using cut_strings(2) by (simp add: draftRecord_def cutEvent_def)
  have "marshalable exampleNow" by code_simp
  moreover have "audit_timestamp cutRecord = exampleNow" by (simp add: cutRecord_eq draft_example Let_def)
  moreover have "aenv_fault exampleAuditEnv = None" by (simp add: exampleAuditEnv_def)
  moreover have "audit_event ?d \<noteq> []" "actor_id (audit_actor ?d) \<noteq> []" "audit_status ?d \<noteq> []"
    by (simp_all add: d draft_example exampleNormal_def)
  ultimately show ?thesis using cutRecord_size
    by (simp add: appendEvent_def Let_def cutRecord_def [symmetric] writeLine_def createFile_def)
qed

lemma cutRecord_read:
  "readRecord cutRecord = canonRecord (cutRecord\<lparr>audit_request_id := toValidUtf8 cutLabel\<rparr>)"
proof -
  let ?r = "exampleRecord\<lparr>audit_entry_hash := audit_entry_hash cutRecord\<rparr>"
  have "validUtf8 (audit_entry_hash cutRecord)"
    by (simp add: cutRecord_eq Let_def auditHash_def sha256_hex_def hexEncode_validUtf8)
  then have "record_text_ok ?r" using exampleRecord_text_ok by (simp add: record_text_ok_def)
  note readRecord_canon [OF this]
  moreover have "cutRecord = ?r\<lparr>audit_request_id := cutLabel\<rparr>" by (simp add: cutRecord_eq exampleRecord_eq Let_def)
  ultimately have "readRecord cutRecord = (canonRecord ?r)\<lparr>audit_request_id := toValidUtf8 cutLabel\<rparr>"
    by (metis readRecord_request)
  also have "\<dots> = canonRecord (cutRecord\<lparr>audit_request_id := toValidUtf8 cutLabel\<rparr>)"
    by (simp add: canonRecord_def cutRecord_eq exampleRecord_eq Let_def)
  finally show ?thesis .
qed

text \<open>
  A request ID in valid UTF-8 can make the log unreadable: labels are cut at a byte limit, possibly inside
  a rune; the entry hash is taken over the cut bytes while the line written holds the replacement character, so
  the append succeeds and the next start refuses the log with a hash mismatch (unless the two texts are a
  SHA-256 collision).
\<close>

theorem cut_label_breaks_log:
  "\<exists>ev r s' f'. validUtf8 (ev_request_id ev) \<and> appendEvent exampleAuditEnv ev emptyAuditStore NoAuditFile = (Inr r, s', f') \<and>
     (openAuditStore ''/var/log/a'' f' = Inl (AuditHashMismatch 1) \<or>
      sha_collision (jenc (canonicalAudit (readRecord r))) (jenc (canonicalAudit r)))"
proof -
  let ?d = "draftRecord exampleAuditEnv exampleEvent emptyAuditStore"
  let ?read = "?d\<lparr>audit_request_id := toValidUtf8 cutLabel\<rparr>" and ?cut = "?d\<lparr>audit_request_id := cutLabel\<rparr>"
  have cut: "cutRecord = ?cut\<lparr>audit_entry_hash := auditHash ?cut\<rparr>" by (simp add: cutRecord_eq Let_def)
  have read: "readRecord cutRecord = canonRecord (?read\<lparr>audit_entry_hash := auditHash ?cut\<rparr>)"
    unfolding cutRecord_read by (intro arg_cong [of _ _ canonRecord]) (simp add: cut)
  have mismatch: "openAuditStore ''/var/log/a'' (AuditLines [AuditLine cutRecord]) = Inl (AuditHashMismatch 1)"
    if "\<not> equalFold (auditHash ?read) (auditHash ?cut)"
  proof -
    have "trimSpace ''/var/log/a'' \<noteq> []" by code_simp
    moreover have "audit_schema ?read = AuditSchema" "audit_sequence ?read = 1" "audit_previous_hash ?read = []"
      by (simp_all add: draft_example)
    ultimately show ?thesis
      using that cutRecord_size by (simp add: openAuditStore_def read Let_def not_le [symmetric])
  qed
  have "canonicalAudit (readRecord cutRecord) = canonicalAudit ?read" unfolding read by simp
  moreover have "canonicalAudit cutRecord = canonicalAudit ?cut" by (subst cut) simp
  ultimately have texts: "canonicalAudit (readRecord cutRecord) = canonicalAudit ?read" "canonicalAudit cutRecord = canonicalAudit ?cut"
    by auto
  have "openAuditStore ''/var/log/a'' (AuditLines [AuditLine cutRecord]) = Inl (AuditHashMismatch 1) \<or>
      sha_collision (jenc (canonicalAudit (readRecord cutRecord))) (jenc (canonicalAudit cutRecord))"
    using mismatch cut_request_hash [OF cut_strings(4,5,3), of ?d] by (auto simp: texts)
  with cut_append cut_strings(1) show ?thesis
    by (intro exI [of _ cutEvent] exI [of _ cutRecord]) (auto simp: cutEvent_def)
qed

text \<open>A line of exactly the limit: written, but not readable.\<close>

lemma length_jenc_members:
  "ms \<noteq> [] \<Longrightarrow> Suc (length (jenc_members ms)) = (\<Sum>(k, v) \<leftarrow> ms. length (jquote k) + length (jenc v) + 2)"
proof (induction ms)
  case (Cons m ms)
  obtain k v where m: "m = (k, v)" by force
  show ?case
  proof (cases ms)
    case Nil
    then show ?thesis by (simp add: m)
  next
    case (Cons m' ms')
    with Cons.IH show ?thesis by (simp add: m)
  qed
qed simp

lemma length_jenc_object:
  assumes "ms \<noteq> []"
  shows "length (jenc (JObj ms)) = 1 + (\<Sum>(k, v) \<leftarrow> ms. length (jquote k) + length (jenc v) + 2)"
proof -
  have "length (jenc (JObj ms)) = 1 + Suc (length (jenc_members ms))" by simp
  then show ?thesis by (simp only: length_jenc_members [OF assms])
qed

definition plain :: "char \<Rightarrow> bool" where
  "plain c \<longleftrightarrow> byte_of c < 128 \<and> esc_ascii c = [c]"

lemma jescape_plain: "list_all plain s \<Longrightarrow> jescape s = s"
  by (induction s) (simp_all add: plain_def)

lemma plain_hexdigit:
  assumes "n < 16"
  shows "plain (hexdigit n)"
proof -
  have "\<forall>n \<in> set [0..<16]. plain (hexdigit n)" by code_simp
  with assms show ?thesis by simp
qed

lemma plain_k [simp]: "plain (CHR ''k'')"
  by code_simp

lemma length_jquote_hash: "length (jquote (auditHash r)) = 66"
proof -
  have "list_all plain (hexEncode s)" for s by (induction s) (simp_all add: plain_hexdigit)
  then have "list_all plain (auditHash r)" by (simp add: auditHash_def sha256_hex_def)
  moreover have "length (auditHash r) = 64" by (simp add: auditHash_def)
  ultimately show ?thesis by (simp add: jquote_def jescape_plain)
qed

lemma secretKey_k: "\<not> secretKey (replicate n (CHR ''k''))"
proof -
  let ?k = "replicate n (CHR ''k'')"
  have "trimSpace ?k = ?k" by (rule trimSpace_graphic) (simp add: list_all_iff graphic_def)
  moreover have "toLower ?k = ?k" by (subst toLower_ascii) (simp_all add: list_all_iff ascii_def lower_byte_def)
  moreover have "\<not> contains ?k m" if "\<exists>c \<in> set m. c \<noteq> CHR ''k''" for m
  proof
    assume "contains ?k m"
    then obtain a b where "?k = a @ m @ b" by (auto simp: contains_iff)
    then have "set m \<subseteq> set ?k" by (metis Un_upper1 Un_upper2 set_append subset_trans)
    with that show False by auto
  qed
  ultimately show ?thesis by (simp add: secretKey_def Let_def secretMarkers_def)
qed

definition longEvent :: "nat \<Rightarrow> event_data" where
  "longEvent n = exampleEvent\<lparr>ev_parameters := [(replicate n (CHR ''k''), [])]\<rparr>"

definition longRecord :: "nat \<Rightarrow> audit_record" where
  "longRecord n = hashedRecord exampleAuditEnv (longEvent n) emptyAuditStore"

lemma draft_long:
  "draftRecord exampleAuditEnv (longEvent n) emptyAuditStore =
     (draftRecord exampleAuditEnv exampleEvent emptyAuditStore)\<lparr>audit_parameters := [(replicate n (CHR ''k''), [])]\<rparr>"
  by (simp add: draftRecord_def longEvent_def redactParameters_def redactValue_def secretKey_k)

lemma length_longRecord: "\<exists>c. \<forall>n. length (jenc (recordJson (longRecord n))) = c + n"
proof -
  have k: "length (jquote (replicate n (CHR ''k''))) = n + 2" for n
    by (simp add: jquote_def jescape_plain list_all_iff)
  have "recordJson (longRecord n) = JObj (a # as)
    \<Longrightarrow> length (jenc (recordJson (longRecord n))) = 1 + (\<Sum>(k, v) \<leftarrow> a # as. length (jquote k) + length (jenc v) + 2)" for n a as
    using length_jenc_object [of "a # as"] by simp
  moreover have "recordJson (longRecord n) = JObj
     ([(''schema'', JStr AuditSchema), (''sequence'', JNum 1), (''id'', JStr ''audit-30313233343536373839616263646566''),
       (''timestamp'', JStr (rfc3339nano exampleNow)), (''event'', JStr ''operation.planned''),
       (''actor'', actorJson exampleNormal), (''request_id'', JStr ''r-1''), (''session_id'', JStr ''s-1''),
       (''plan_id'', JStr ''plan-1''), (''action'', JStr ''service.restart''), (''risk'', JStr RiskLow), (''status'', JStr ''accepted''),
       (''parameters'', JObj [(replicate n (CHR ''k''), JStr [])]), (''previous_hash'', JStr []),
       (''entry_hash'', JStr (auditHash (draftRecord exampleAuditEnv (longEvent n) emptyAuditStore)))])" for n
    by (simp add: longRecord_def hashedRecord_def Let_def draft_long draft_example recordJson_def omitempty_def RiskLow_def)
  ultimately show ?thesis by (auto simp: k length_jquote_hash)
qed

lemma long_append:
  assumes "length (jenc (recordJson (longRecord n))) \<le> maxAuditLineBytes"
  shows "appendEvent exampleAuditEnv (longEvent n) emptyAuditStore NoAuditFile =
    (Inr (longRecord n), pushRecord emptyAuditStore (longRecord n), AuditLines [AuditLine (longRecord n)])"
proof -
  let ?d = "draftRecord exampleAuditEnv (longEvent n) emptyAuditStore"
  have "marshalable exampleNow" by code_simp
  moreover have "audit_timestamp (longRecord n) = exampleNow"
    by (simp add: longRecord_def hashedRecord_def draft_long draft_example Let_def)
  moreover have "aenv_fault exampleAuditEnv = None" by (simp add: exampleAuditEnv_def)
  moreover have "audit_event ?d \<noteq> []" "actor_id (audit_actor ?d) \<noteq> []" "audit_status ?d \<noteq> []"
    by (simp_all add: draft_long draft_example exampleNormal_def)
  ultimately show ?thesis using assms
    by (simp add: appendEvent_def Let_def longRecord_def [symmetric] writeLine_def createFile_def)
qed

text \<open>
  The line limit of \<^verbatim>\<open>Append\<close> is one byte too generous: it accepts a record whose line has exactly
  \<^verbatim>\<open>maxAuditLineBytes\<close> bytes, which with its newline does not fit the buffer of \<^verbatim>\<open>loadAndVerify\<close>, so a log that
  was written without error is refused at the next start.
\<close>

theorem limit_line_breaks_log:
  "\<exists>ev r s' f'. appendEvent exampleAuditEnv ev emptyAuditStore NoAuditFile = (Inr r, s', f') \<and>
     length (jenc (recordJson r)) = maxAuditLineBytes \<and> openAuditStore ''/var/log/a'' f' = Inl AuditLineTooLong"
proof -
  from length_longRecord obtain c where c: "\<And>n. length (jenc (recordJson (longRecord n))) = c + n" by blast
  have "jweight (recordJson (longRecord 0)) \<le> maxAuditLineBytes"
  proof -
    have "length (dec 1) = 1" by code_simp
    moreover have "length (auditHash r) = 64" for r by (simp add: auditHash_def)
    ultimately show ?thesis unfolding longRecord_def hashedRecord_def draft_long draft_example Let_def
      by (simp add: recordJson_def omitempty_def actorJson_def exampleNormal_def length_exampleNow AuditSchema_def RiskLow_def
          kind_defs permission_defs maxAuditLineBytes_def)
  qed
  with length_jenc(1) [of "recordJson (longRecord 0)"] c [of 0] have "c \<le> maxAuditLineBytes" by simp
  then have n: "length (jenc (recordJson (longRecord (maxAuditLineBytes - c)))) = maxAuditLineBytes" by (simp add: c)
  moreover have "trimSpace ''/var/log/a'' \<noteq> []" by code_simp
  ultimately show ?thesis
    using long_append [of "maxAuditLineBytes - c"] by (auto simp: openAuditStore_def intro!: exI)
qed

end
