(* ===== verification/QC_Host.thy ===== *)
theory QC_Host
  imports QC_Text
begin

text \<open>
  The host the broker runs on, as its code sees it: contexts with deadlines, child processes, HTTP
  requests, the clock, tickers and \<^verbatim>\<open>select\<close>, and the text scanning helpers of the Go library that the
  probes use on what the host returns.

  A \<open>host\<close> is the part of the world the code changes: the clock and the log of every process started and
  every request sent. A \<open>host_env\<close> is what the code cannot control: the outcome of each interaction, the time
  each process or request takes, and which ready branch a \<^verbatim>\<open>select\<close> picks. Every interaction is numbered by
  \<open>h_step\<close>, so an environment may answer the same question differently each time. Only processes and
  requests take time.

  A context is the instant at which it is done, if any: a deadline, or the moment its parent is cancelled.
\<close>

subsection \<open>Scanning text\<close>

text \<open>\<^verbatim>\<open>strings.Cut(s, sep)\<close> for a one-byte separator.\<close>

fun cut :: "char \<Rightarrow> string \<Rightarrow> string \<times> string \<times> bool" where
  "cut sep [] = ([], [], False)"
| "cut sep (c # cs) = (if c = sep then ([], cs, True) else (case cut sep cs of (a, b, ok) \<Rightarrow> (c # a, b, ok)))"

lemma cut_at: "sep \<notin> set k \<Longrightarrow> cut sep (k @ sep # v) = (k, v, True)"
  by (induction k) auto

lemma cut_found: "cut sep s = (k, v, True) \<Longrightarrow> s = k @ sep # v \<and> sep \<notin> set k"
  by (induction s arbitrary: k v) (auto split: if_splits prod.splits)

lemma cut_missing: "sep \<notin> set s \<Longrightarrow> cut sep s = (s, [], False)"
  by (induction s) auto

text \<open>
  \<^verbatim>\<open>bufio.Scanner\<close> with its default split function and buffer: the lines without their terminators, and
  whether the whole input was read. A line that does not fit the 64 KiB buffer with its newline stops the scan.
\<close>

definition maxScanTokenSize :: nat where "maxScanTokenSize = 65536"

fun splitLines :: "string \<Rightarrow> string list" where
  "splitLines [] = []"
| "splitLines (c # cs) =
     (if c = CHR 0x0A then [] # splitLines cs
      else (case splitLines cs of [] \<Rightarrow> [[c]] | l # ls \<Rightarrow> (c # l) # ls))"

definition dropCR :: "string \<Rightarrow> string" where
  "dropCR l = (if l \<noteq> [] \<and> last l = CHR 0x0D then butlast l else l)"

definition scanLines :: "string \<Rightarrow> string list \<times> bool" where
  "scanLines s =
     (let ls = splitLines s; fits = (\<lambda>l. length l < maxScanTokenSize)
      in (map dropCR (takeWhile fits ls), list_all fits ls))"

lemma splitLines_line: "CHR 0x0A \<notin> set l \<Longrightarrow> splitLines (l @ CHR 0x0A # s) = l # splitLines s"
  by (induction l) auto

lemma splitLines_unlines:
  "\<forall>l \<in> set ls. CHR 0x0A \<notin> set l \<Longrightarrow> splitLines (concat (map (\<lambda>l. l @ [CHR 0x0A]) ls)) = ls"
  by (induction ls) (auto simp: splitLines_line)

text \<open>\<^verbatim>\<open>strings.Trim(s, cutset)\<close> for an ASCII cutset.\<close>

definition trimSet :: "char set \<Rightarrow> string \<Rightarrow> string" where
  "trimSet cs s = rev (dropWhile (\<lambda>c. c \<in> cs) (rev (dropWhile (\<lambda>c. c \<in> cs) s)))"

text \<open>\<^verbatim>\<open>strconv.Unquote\<close>: \<open>None\<close> is its syntax error.\<close>

definition runeBytes :: "nat \<Rightarrow> string" where
  "runeBytes n =
     (if n < 0x80 then [char_of n]
      else if n < 0x800 then [char_of (0xC0 + n div 64), char_of (0x80 + n mod 64)]
      else if n < 0x10000 then [char_of (0xE0 + n div 4096), char_of (0x80 + n div 64 mod 64), char_of (0x80 + n mod 64)]
      else [char_of (0xF0 + n div 262144), char_of (0x80 + n div 4096 mod 64), char_of (0x80 + n div 64 mod 64),
            char_of (0x80 + n mod 64)])"

definition validRune :: "nat \<Rightarrow> bool" where
  "validRune n \<longleftrightarrow> n < 0xD800 \<or> 0xDFFF < n \<and> n \<le> 0x10FFFF"

fun digits :: "(char \<Rightarrow> nat option) \<Rightarrow> nat \<Rightarrow> nat \<Rightarrow> nat \<Rightarrow> string \<Rightarrow> (nat \<times> string) option" where
  "digits f base 0 v s = Some (v, s)"
| "digits f base (Suc n) v [] = None"
| "digits f base (Suc n) v (c # cs) =
     (case f c of None \<Rightarrow> None | Some x \<Rightarrow> digits f base n (v * base + x) cs)"

definition octDigit :: "char \<Rightarrow> nat option" where
  "octDigit c = (if in_range 0x30 0x37 c then Some (byte_of c - 0x30) else None)"

definition unquoteEscape :: "char \<Rightarrow> char \<Rightarrow> string \<Rightarrow> (string \<times> string) option" where
  "unquoteEscape quote c s =
     (if c = CHR ''a'' then Some ([CHR 0x07], s)
      else if c = CHR ''b'' then Some ([CHR 0x08], s)
      else if c = CHR ''f'' then Some ([CHR 0x0C], s)
      else if c = CHR ''n'' then Some ([CHR 0x0A], s)
      else if c = CHR ''r'' then Some ([CHR 0x0D], s)
      else if c = CHR ''t'' then Some ([CHR 0x09], s)
      else if c = CHR ''v'' then Some ([CHR 0x0B], s)
      else if c = CHR ''x'' then map_option (apfst (\<lambda>v. [char_of v])) (digits fromHex 16 2 0 s)
      else if c = CHR ''u'' \<or> c = CHR ''U'' then
        (case digits fromHex 16 (if c = CHR ''u'' then 4 else 8) 0 s of
           None \<Rightarrow> None
         | Some (v, r) \<Rightarrow> if validRune v then Some (runeBytes v, r) else None)
      else if in_range 0x30 0x37 c then
        (case digits octDigit 8 2 (byte_of c - 0x30) s of
           None \<Rightarrow> None
         | Some (v, r) \<Rightarrow> if 255 < v then None else Some ([char_of v], r))
      else if c = CHR 0x5C then Some ([CHR 0x5C], s)
      else if (c = CHR 0x27 \<or> c = CHR 0x22) \<and> c = quote then Some ([c], s)
      else None)"

definition unquoteChar :: "char \<Rightarrow> string \<Rightarrow> (string \<times> string) option" where
  "unquoteChar quote s =
     (case s of
        [] \<Rightarrow> None
      | c # cs \<Rightarrow>
          if c = CHR 0x0A \<or> c = quote then None
          else if 0x80 \<le> byte_of c then
            (let k = utf8_size s in if k = 0 then Some (replacement, cs) else Some (take k s, drop k s))
          else if c \<noteq> CHR 0x5C then Some ([c], cs)
          else (case cs of [] \<Rightarrow> None | e # r \<Rightarrow> unquoteEscape quote e r))"

fun unquoteLoop :: "nat \<Rightarrow> char \<Rightarrow> string \<Rightarrow> string \<Rightarrow> string option" where
  "unquoteLoop 0 quote buf s = None"
| "unquoteLoop (Suc n) quote buf s =
     (case s of
        [] \<Rightarrow> None
      | c # cs \<Rightarrow>
          if c = quote then (if cs = [] then Some buf else None)
          else (case unquoteChar quote s of
                  None \<Rightarrow> None
                | Some (b, r) \<Rightarrow>
                    if quote = CHR 0x27 then (if r = [quote] then Some (buf @ b) else None)
                    else unquoteLoop n quote (buf @ b) r))"

definition unquote :: "string \<Rightarrow> string option" where
  "unquote s =
     (if length s < 2 then None
      else if hd s = CHR 0x60 then
        (case cut (CHR 0x60) (tl s) of (body, rest, ok) \<Rightarrow>
           if ok \<and> rest = [] then Some (filter (\<lambda>c. c \<noteq> CHR 0x0D) body) else None)
      else if hd s = CHR 0x22 then unquoteLoop (length s) (CHR 0x22) [] (tl s)
      else if hd s = CHR 0x27 then
        (if hd (tl s) = CHR 0x27 then None else unquoteLoop (length s) (CHR 0x27) [] (tl s))
      else None)"

lemma unquote_plain:
  assumes "list_all (\<lambda>c. graphic c \<and> c \<noteq> CHR 0x22 \<and> c \<noteq> CHR 0x5C) s"
  shows "unquote (CHR 0x22 # s @ [CHR 0x22]) = Some s"
proof -
  have "length s < n \<Longrightarrow> unquoteLoop n (CHR 0x22) buf (s @ [CHR 0x22]) = Some (buf @ s)" for n buf
    using assms
  proof (induction s arbitrary: n buf)
    case Nil
    then show ?case by (cases n) simp_all
  next
    case (Cons c s)
    then obtain m where m: "n = Suc m" by (cases n) auto
    from Cons.prems have "unquoteChar (CHR 0x22) (c # s @ [CHR 0x22]) = Some ([c], s @ [CHR 0x22])"
      by (auto simp: unquoteChar_def graphic_def)
    moreover have "unquoteLoop m (CHR 0x22) (buf @ [c]) (s @ [CHR 0x22]) = Some ((buf @ [c]) @ s)"
      using Cons.prems by (intro Cons.IH) (auto simp: m)
    ultimately show ?case using Cons.prems by (simp add: m)
  qed
  from this [of "Suc (Suc (length s))" "[]"] show ?thesis by (simp add: unquote_def del: unquoteLoop.simps)
qed

subsection \<open>Contexts\<close>

record go_context =
  ctx_done :: "gotime option"
  ctx_cause :: string

definition background :: go_context where
  "background = \<lparr>ctx_done = None, ctx_cause = []\<rparr>"

definition ctxErr :: "go_context \<Rightarrow> gotime \<Rightarrow> bool" where
  "ctxErr ctx now \<longleftrightarrow> (case ctx_done ctx of None \<Rightarrow> False | Some t \<Rightarrow> t \<le> now)"

definition withTimeout :: "go_context \<Rightarrow> duration \<Rightarrow> gotime \<Rightarrow> go_context" where
  "withTimeout ctx d now =
     (let own = \<lparr>ctx_done = Some (now + d), ctx_cause = ''context deadline exceeded''\<rparr>
      in case ctx_done ctx of None \<Rightarrow> own | Some t \<Rightarrow> if t \<le> now + d then ctx else own)"

lemma withTimeout_done: "\<exists>t. ctx_done (withTimeout ctx d now) = Some t \<and> t \<le> now + d"
  by (auto simp: withTimeout_def Let_def split: option.splits)

lemma ctxErr_mono: "ctxErr ctx a \<Longrightarrow> a \<le> b \<Longrightarrow> ctxErr ctx b"
  by (auto simp: ctxErr_def split: option.splits)

subsection \<open>Processes and requests\<close>

datatype host_call = Exec "string list" | HttpGet string

record host =
  h_clock :: gotime
  h_step :: nat
  h_calls :: "host_call list"

text \<open>
  The outcome of a process: whether it exited with status 0, what was collected from it (standard output for
  \<^verbatim>\<open>Output\<close>, both streams for \<^verbatim>\<open>CombinedOutput\<close>), and the text that goes with a failure (the captured standard
  error for \<^verbatim>\<open>Output\<close>, the message of the exit error for \<^verbatim>\<open>CombinedOutput\<close>); or why it could not be started.
\<close>

datatype exec_result = Exited bool string string | NotStarted string

record host_env =
  he_look_path :: "nat \<Rightarrow> string \<Rightarrow> string option"
  he_exec :: "nat \<Rightarrow> string list \<Rightarrow> exec_result"
  he_get :: "nat \<Rightarrow> string \<Rightarrow> nat option"
  he_cost :: "nat \<Rightarrow> nat"
  he_choice :: "nat \<Rightarrow> bool"
  he_hostname :: "nat \<Rightarrow> string + string"
  he_file :: "nat \<Rightarrow> string \<Rightarrow> string option"
  he_goos :: string
  he_goarch :: string
  he_cpus :: int
  he_parse_float :: "string \<Rightarrow> string option"

definition nextStep :: "host \<Rightarrow> host" where
  "nextStep w = w\<lparr>h_step := Suc (h_step w)\<rparr>"

definition lookPath :: "host_env \<Rightarrow> string \<Rightarrow> host \<Rightarrow> string option \<times> host" where
  "lookPath env name w = (he_look_path env (h_step w) name, nextStep w)"

definition called :: "host_env \<Rightarrow> host_call \<Rightarrow> host \<Rightarrow> host" where
  "called env c w = \<lparr>h_clock = h_clock w + int (he_cost env (h_step w)), h_step = Suc (h_step w), h_calls = h_calls w @ [c]\<rparr>"

text \<open>
  An attempt to start a process that fails takes time but leaves no call.
\<close>

definition passed :: "host_env \<Rightarrow> host \<Rightarrow> host" where
  "passed env w = w\<lparr>h_clock := h_clock w + int (he_cost env (h_step w)), h_step := Suc (h_step w)\<rparr>"

text \<open>
  A process is not started under a context that is done, and is killed when the context gets done while it runs.
  The log holds the processes that were started. Every call takes some finite time, which may exceed the deadline
  of its context: \<^verbatim>\<open>exec.CommandContext\<close> kills the child at the deadline, and a child that survives the kill is
  outside the model.
\<close>

definition runProcess :: "host_env \<Rightarrow> go_context \<Rightarrow> string list \<Rightarrow> host \<Rightarrow> exec_result \<times> host" where
  "runProcess env ctx argv w =
     (if ctxErr ctx (h_clock w) then (NotStarted (ctx_cause ctx), nextStep w)
      else
        (case he_exec env (h_step w) argv of
           Exited ok out err \<Rightarrow>
             (let w' = called env (Exec argv) w in (Exited (ok \<and> \<not> ctxErr ctx (h_clock w')) out err, w'))
         | NotStarted e \<Rightarrow> (NotStarted e, passed env w)))"

definition httpGet :: "host_env \<Rightarrow> go_context \<Rightarrow> string \<Rightarrow> host \<Rightarrow> nat option \<times> host" where
  "httpGet env ctx url w =
     (if ctxErr ctx (h_clock w) then (None, nextStep w)
      else
        (let w' = called env (HttpGet url) w in
         (if ctxErr ctx (h_clock w') then None else he_get env (h_step w) url, w')))"

subsection \<open>Tickers\<close>

text \<open>
  \<^verbatim>\<open>time.NewTicker\<close>: ticks fall on the grid \<open>t0 + k * p\<close>; the channel holds one tick, so what matters is how
  many had fired when the last one was received. \<open>selectTick\<close> is \<^verbatim>\<open>select { case <-ctx.Done(): ... case <-ticker.C: }\<close>:
  \<open>None\<close> for the first branch, the new count for the second; the runtime may pick either when both are ready.
\<close>

definition fired :: "gotime \<Rightarrow> duration \<Rightarrow> gotime \<Rightarrow> nat" where
  "fired t0 p now = nat ((now - t0) div p)"

definition wakeTime :: "go_context \<Rightarrow> gotime \<Rightarrow> duration \<Rightarrow> nat \<Rightarrow> gotime \<Rightarrow> gotime" where
  "wakeTime ctx t0 p r now =
     (if ctxErr ctx now \<or> r < fired t0 p now then now
      else (let tick = t0 + (int r + 1) * p in
            case ctx_done ctx of None \<Rightarrow> tick | Some t \<Rightarrow> min t tick))"

definition selectTick :: "host_env \<Rightarrow> go_context \<Rightarrow> gotime \<Rightarrow> duration \<Rightarrow> nat \<Rightarrow> host \<Rightarrow> nat option \<times> host" where
  "selectTick env ctx t0 p r w =
     (let now = wakeTime ctx t0 p r (h_clock w);
          w' = \<lparr>h_clock = now, h_step = Suc (h_step w), h_calls = h_calls w\<rparr>;
          ticked = r < fired t0 p now
      in if ctxErr ctx now \<and> (\<not> ticked \<or> he_choice env (h_step w)) then (None, w') else (Some (fired t0 p now), w'))"

text \<open>What every interaction keeps: the clock does not go back and the log only grows.\<close>

definition later :: "host \<Rightarrow> host \<Rightarrow> bool" where
  "later w w' \<longleftrightarrow> h_clock w \<le> h_clock w' \<and> prefix (h_calls w) (h_calls w')"

lemma later_refl [simp]: "later w w"
  by (simp add: later_def)

lemma later_trans [trans]: "later a b \<Longrightarrow> later b c \<Longrightarrow> later a c"
  by (auto simp: later_def)

lemma nextStep_sel [simp]: "h_clock (nextStep w) = h_clock w" "h_calls (nextStep w) = h_calls w"
  by (simp_all add: nextStep_def)

lemma later_nextStep [simp]: "later w (nextStep w)"
  by (simp add: later_def)

lemma called_sel [simp]: "h_clock (called env c w) = h_clock w + int (he_cost env (h_step w))" "h_calls (called env c w) = h_calls w @ [c]"
  by (simp_all add: called_def)

lemma passed_sel [simp]: "h_clock (passed env w) = h_clock w + int (he_cost env (h_step w))" "h_calls (passed env w) = h_calls w"
  "h_step (passed env w) = Suc (h_step w)"
  by (simp_all add: passed_def)

lemma called_step [simp]: "h_step (called env c w) = Suc (h_step w)"
  by (simp add: called_def)

lemma later_lookPath [simp]: "later w (snd (lookPath env n w))"
  by (simp add: lookPath_def)

lemma later_runProcess: "runProcess env ctx argv w = (x, w') \<Longrightarrow> later w w'"
  by (auto simp: runProcess_def later_def Let_def split: if_splits exec_result.splits)

lemma later_httpGet: "httpGet env ctx url w = (x, w') \<Longrightarrow> later w w'"
  by (auto simp: httpGet_def later_def Let_def split: if_splits)

lemma runProcess_expired:
  "ctxErr ctx (h_clock w) \<Longrightarrow> runProcess env ctx argv w = (NotStarted (ctx_cause ctx), nextStep w)"
  by (simp add: runProcess_def)

lemma fired_reached: "0 < p \<Longrightarrow> r < fired t0 p (t0 + (int r + 1) * p)"
  by (simp add: fired_def)

lemma fired_mono: "0 < p \<Longrightarrow> a \<le> b \<Longrightarrow> fired t0 p a \<le> fired t0 p b"
  by (simp add: fired_def nat_mono zdiv_mono1)

lemma wakeTime_ready:
  assumes "0 < p"
  shows "ctxErr ctx (wakeTime ctx t0 p r now) \<or> r < fired t0 p (wakeTime ctx t0 p r now)"
proof (cases "ctxErr ctx now \<or> r < fired t0 p now")
  case False
  then show ?thesis
    using fired_reached [OF assms, of r t0]
    by (auto simp: wakeTime_def Let_def ctxErr_def min_def split: option.splits)
qed (auto simp: wakeTime_def)

lemma wakeTime_le:
  assumes "0 < p" "fired t0 p now \<le> r \<Longrightarrow> now < t0 + (int r + 1) * p"
  shows "now \<le> wakeTime ctx t0 p r now"
  using assms by (auto simp: wakeTime_def Let_def ctxErr_def min_def split: option.splits)

lemma fired_bound: "0 < p \<Longrightarrow> fired t0 p now \<le> r \<Longrightarrow> now < t0 + (int r + 1) * p"
proof -
  assume p: "0 < p" and "fired t0 p now \<le> r"
  then have "(now - t0) div p \<le> int r" by (simp add: fired_def)
  with p have "(now - t0) div p * p \<le> int r * p" by (intro mult_right_mono) simp_all
  moreover have "(now - t0) mod p < p" using p by simp
  moreover have "(now - t0) div p * p + (now - t0) mod p = now - t0" by simp
  ultimately show "now < t0 + (int r + 1) * p" by (simp only: distrib_right mult_1)
qed

text \<open>The two outcomes of the \<^verbatim>\<open>select\<close>: it stops only when the context is done, and a tick always advances the count.\<close>

lemma selectTick_cases:
  assumes "selectTick env ctx t0 p r w = (x, w')" "0 < p"
  obtains (stop) "x = None" "ctxErr ctx (h_clock w')" "later w w'" "h_calls w' = h_calls w"
  | (tick) "x = Some (fired t0 p (h_clock w'))" "r < fired t0 p (h_clock w')" "later w w'" "h_calls w' = h_calls w"
      "ctxErr ctx (h_clock w) \<Longrightarrow> h_clock w' = h_clock w"
proof -
  let ?now = "wakeTime ctx t0 p r (h_clock w)"
  have le: "h_clock w \<le> ?now" by (rule wakeTime_le [OF assms(2) fired_bound [OF assms(2)]])
  have same: "ctxErr ctx (h_clock w) \<Longrightarrow> ?now = h_clock w" by (simp add: wakeTime_def)
  show thesis
    using assms(1) le same wakeTime_ready [OF assms(2), of ctx t0 r "h_clock w"] that
    by (auto simp: selectTick_def Let_def later_def split: if_splits)
qed

text \<open>What an operation added to the log, when every call satisfies a predicate.\<close>

definition adds :: "(host_call \<Rightarrow> bool) \<Rightarrow> host \<Rightarrow> host \<Rightarrow> bool" where
  "adds P w w' \<longleftrightarrow> h_clock w \<le> h_clock w' \<and> (\<exists>cs. h_calls w' = h_calls w @ cs \<and> list_all P cs)"

lemma adds_refl [simp]: "adds P w w"
  by (simp add: adds_def)

lemma adds_trans [trans]: "adds P a b \<Longrightarrow> adds P b c \<Longrightarrow> adds P a c"
  unfolding adds_def by (metis append_assoc list_all_append order_trans)

lemma adds_clock: "adds P w w' \<Longrightarrow> h_clock w \<le> h_clock w'"
  by (simp add: adds_def)

lemma adds_selectTick: "selectTick env ctx t0 p r w = (x, w') \<Longrightarrow> 0 < p \<Longrightarrow> adds P w w'"
  by (erule (1) selectTick_cases) (auto simp: adds_def later_def)

text \<open>The calls of interest among those an operation added.\<close>

definition grows :: "(host_call \<Rightarrow> bool) \<Rightarrow> host \<Rightarrow> host \<Rightarrow> host_call list \<Rightarrow> bool" where
  "grows Q w w' xs \<longleftrightarrow> h_clock w \<le> h_clock w' \<and> (\<exists>cs. h_calls w' = h_calls w @ cs \<and> filter Q cs = xs)"

lemma grows_refl [simp]: "grows Q w w []"
  by (simp add: grows_def)

lemma grows_trans: "grows Q a b xs \<Longrightarrow> grows Q b c ys \<Longrightarrow> grows Q a c (xs @ ys)"
  unfolding grows_def by (metis append_assoc filter_append order_trans)

lemma adds_grows: "adds P w w' \<Longrightarrow> (\<And>c. P c \<Longrightarrow> \<not> Q c) \<Longrightarrow> grows Q w w' []"
  by (fastforce simp: adds_def grows_def list_all_iff filter_empty_conv)

text \<open>An action that makes at most one call, and makes it unless it fails.\<close>

definition acted :: "(host_call \<Rightarrow> bool) \<Rightarrow> string option \<Rightarrow> host \<Rightarrow> host \<Rightarrow> bool" where
  "acted P e w w' \<longleftrightarrow> h_clock w \<le> h_clock w' \<and>
     (h_calls w' = h_calls w \<and> e \<noteq> None \<or> (\<exists>c. h_calls w' = h_calls w @ [c] \<and> P c))"

lemma acted_grows:
  "acted P e w w' \<Longrightarrow> (\<And>c. P c \<Longrightarrow> Q c) \<Longrightarrow>
     \<exists>xs. grows Q w w' xs \<and> length xs \<le> 1 \<and> list_all P xs \<and> (e = None \<longrightarrow> xs \<noteq> [])"
  by (fastforce simp: acted_def grows_def)

end
