(* ===== verification/QC_Probe.thy ===== *)
theory QC_Probe
  imports QC_Host
begin

text \<open>
  The read-only probes of \<^verbatim>\<open>internal/systemprobe/probe.go\<close>: the machine summary and the state of a
  systemd unit. What the host answers comes from the environment of \<^verbatim>\<open>QC_Host\<close>: the hostname, the files
  \<^verbatim>\<open>/etc/os-release\<close> and \<^verbatim>\<open>/proc/uptime\<close> (\<open>None\<close> when they cannot be opened or read), and the output of
  \<^verbatim>\<open>systemctl show\<close>. An error is its message.
\<close>

subsection \<open>Names and values\<close>

text \<open>\<^verbatim>\<open>toSnakeCase\<close> ranges over the runes of a name; \<open>started\<close> says that the byte index is positive.\<close>

fun snakeRunes :: "bool \<Rightarrow> string \<Rightarrow> string" where
  "snakeRunes started [] = []"
| "snakeRunes started (c # cs) =
     (if is_upper c then (if started then ''_'' else []) @ lower_byte c # snakeRunes True cs
      else (let k = utf8_size (c # cs) in
            if k = 0 then replacement @ snakeRunes True cs
            else take k (c # cs) @ snakeRunes True (drop (k - 1) cs)))"

definition toSnakeCase :: "string \<Rightarrow> string" where
  "toSnakeCase value = snakeRunes False value"

definition parseOSReleaseValue :: "string \<Rightarrow> string" where
  "parseOSReleaseValue v0 =
     (let v = trimSpace v0 in
      if v = [] then []
      else case unquote v of Some u \<Rightarrow> u | None \<Rightarrow> trimSet {CHR 0x22} v)"

definition osReleaseKey :: "string \<Rightarrow> string option" where
  "osReleaseKey key =
     (if key = ''ID'' then Some ''os_id''
      else if key = ''VERSION_ID'' then Some ''os_version''
      else if key = ''PRETTY_NAME'' then Some ''os_name''
      else None)"

definition osReleaseLine :: "smap \<Rightarrow> string \<Rightarrow> smap" where
  "osReleaseLine m l =
     (let line = trimSpace l in
      if line = [] \<or> prefix ''#'' line then m
      else (case cut (CHR ''='') line of (key, value, ok) \<Rightarrow>
        if \<not> ok then m
        else (case osReleaseKey key of None \<Rightarrow> m | Some k \<Rightarrow> AList.update k (parseOSReleaseValue value) m)))"

text \<open>The scan ends silently at a line that is too long.\<close>

definition readOSRelease :: "string option \<Rightarrow> smap" where
  "readOSRelease file =
     (case file of None \<Rightarrow> [] | Some data \<Rightarrow> foldl osReleaseLine [] (fst (scanLines data)))"

definition readUptime :: "(string \<Rightarrow> string option) \<Rightarrow> string option \<Rightarrow> string option" where
  "readUptime parseFloat file =
     (case file of None \<Rightarrow> None | Some data \<Rightarrow> parseFloat (fst (cut (CHR '' '') (trimSpace data))))"

subsection \<open>The probes\<close>

definition snapshot :: "host_env \<Rightarrow> go_context \<Rightarrow> host \<Rightarrow> (string + anymap) \<times> host" where
  "snapshot env ctx w =
     (if ctxErr ctx (h_clock w) then (Inl (ctx_cause ctx), w)
      else case he_hostname env (h_step w) of
        Inl e \<Rightarrow> (Inl (''read hostname: '' @ e), nextStep w)
      | Inr hostname \<Rightarrow>
          (let base = [(''hostname'', GStr hostname), (''goos'', GStr (he_goos env)), (''architecture'', GStr (he_goarch env)),
                       (''cpu_count'', GInt (he_cpus env)), (''observed_at'', GTime (h_clock w))];
               release = readOSRelease (he_file env (Suc (h_step w)) ''/etc/os-release'');
               result = foldl (\<lambda>m (k, v). AList.update k (GStr v) m) base release;
               uptime = readUptime (he_parse_float env) (he_file env (Suc (Suc (h_step w))) ''/proc/uptime'')
           in (Inr (case uptime of None \<Rightarrow> result | Some u \<Rightarrow> AList.update ''uptime_seconds'' (GFloat u) result),
               nextStep (nextStep (nextStep w)))))"

definition statusArgs :: "string \<Rightarrow> string list" where
  "statusArgs unit = [''show'', ''--no-page'', ''--property=Id,LoadState,ActiveState,SubState,UnitFileState'', unit]"

definition statusLine :: "anymap \<Rightarrow> string \<Rightarrow> anymap" where
  "statusLine m line =
     (case cut (CHR ''='') line of (key, value, ok) \<Rightarrow>
        if ok \<and> key \<noteq> [] then AList.update (toSnakeCase key) (GStr value) m else m)"

definition parseStatus :: "string \<Rightarrow> string \<Rightarrow> string + anymap" where
  "parseStatus unit out =
     (case scanLines out of (ls, ok) \<Rightarrow>
        if ok then Inr (foldl statusLine [(''unit'', GStr unit)] ls)
        else Inl ''parse systemctl output: bufio.Scanner: token too long'')"

definition serviceStatus :: "host_env \<Rightarrow> go_context \<Rightarrow> string \<Rightarrow> host \<Rightarrow> (string + anymap) \<times> host" where
  "serviceStatus env ctx unit w =
     (case lookPath env ''systemctl'' w of
        (None, w1) \<Rightarrow> (Inl ''systemctl is not available'', w1)
      | (Some path, w1) \<Rightarrow>
          (case runProcess env ctx (path # statusArgs unit) w1 of
             (NotStarted e, w2) \<Rightarrow> (Inl (''run systemctl: '' @ e), w2)
           | (Exited ok out err, w2) \<Rightarrow>
               if ok then (parseStatus unit out, w2)
               else (Inl (''systemctl status failed: '' @ trimSpace err), w2)))"

subsection \<open>Facts\<close>

text \<open>The only process a status probe starts, and what it leaves of the host.\<close>

definition status_call :: "string \<Rightarrow> host_call \<Rightarrow> bool" where
  "status_call unit c \<longleftrightarrow> (\<exists>path. c = Exec (path # statusArgs unit))"

lemma serviceStatus_host:
  assumes "serviceStatus env ctx unit w = (x, w')"
  shows "later w w'" and "\<exists>cs. h_calls w' = h_calls w @ cs \<and> list_all (status_call unit) cs \<and> length cs \<le> 1"
    and "ctxErr ctx (h_clock w) \<Longrightarrow> h_clock w' = h_clock w \<and> isl x"
proof -
  have "later w w' \<and> (\<exists>cs. h_calls w' = h_calls w @ cs \<and> list_all (status_call unit) cs \<and> length cs \<le> 1)
      \<and> (ctxErr ctx (h_clock w) \<longrightarrow> h_clock w' = h_clock w \<and> isl x)"
    using assms
    by (auto simp: serviceStatus_def lookPath_def runProcess_def later_def status_call_def Let_def
        split: option.splits if_splits exec_result.splits prod.splits)
  then show "later w w'" and "\<exists>cs. h_calls w' = h_calls w @ cs \<and> list_all (status_call unit) cs \<and> length cs \<le> 1"
    and "ctxErr ctx (h_clock w) \<Longrightarrow> h_clock w' = h_clock w \<and> isl x" by auto
qed

text \<open>A status that was read: the last call is the probe, and the status is what its output says.\<close>

lemma serviceStatus_ok:
  assumes "serviceStatus env ctx unit w = (Inr s, w')"
  obtains path out err k where "h_calls w' = h_calls w @ [Exec (path # statusArgs unit)]" "h_step w' = Suc k"
    "he_exec env k (path # statusArgs unit) = Exited True out err" "parseStatus unit out = Inr s" "\<not> ctxErr ctx (h_clock w')"
  using assms
  by (auto simp: serviceStatus_def lookPath_def runProcess_def Let_def split: option.splits if_splits exec_result.splits)

text \<open>The lines \<^verbatim>\<open>systemctl show\<close> prints for a list of properties.\<close>

definition showProperties :: "smap \<Rightarrow> string" where
  "showProperties ps = concat (map (\<lambda>(k, v). k @ CHR ''='' # v @ [CHR 0x0A]) ps)"

definition printable_property :: "string \<times> string \<Rightarrow> bool" where
  "printable_property p \<longleftrightarrow> fst p \<noteq> [] \<and> CHR ''='' \<notin> set (fst p) \<and> CHR 0x0A \<notin> set (fst p) \<and> CHR 0x0A \<notin> set (snd p) \<and>
     CHR 0x0D \<notin> set (snd p) \<and> length (fst p) + length (snd p) + 1 < maxScanTokenSize"

lemma dropCR_id: "CHR 0x0D \<notin> set v \<Longrightarrow> dropCR (k @ CHR ''='' # v) = k @ CHR ''='' # v"
  by (auto simp: dropCR_def last_append split: if_splits dest: last_in_set)

lemma scan_showProperties:
  assumes "list_all printable_property ps"
  shows "scanLines (showProperties ps) = (map (\<lambda>(k, v). k @ CHR ''='' # v) ps, True)"
proof -
  let ?ls = "map (\<lambda>(k, v). k @ CHR ''='' # v) ps"
  have "showProperties ps = concat (map (\<lambda>l. l @ [CHR 0x0A]) ?ls)"
    by (induction ps) (auto simp: showProperties_def)
  moreover have "\<forall>l \<in> set ?ls. CHR 0x0A \<notin> set l" using assms by (auto simp: list_all_iff printable_property_def)
  ultimately have "splitLines (showProperties ps) = ?ls" using splitLines_unlines by metis
  moreover have fits: "list_all (\<lambda>l. length l < maxScanTokenSize) ?ls"
    using assms by (auto simp: list_all_iff printable_property_def)
  then have "takeWhile (\<lambda>l. length l < maxScanTokenSize) ?ls = ?ls" by (simp add: takeWhile_eq_all_conv list_all_iff)
  moreover have "map dropCR ?ls = ?ls"
    using assms by (induction ps) (auto simp: printable_property_def dropCR_id)
  ultimately show ?thesis using fits by (simp only: scanLines_def Let_def prod.inject simp_thms)
qed

lemma map_of_foldl_status:
  assumes "list_all printable_property ps"
  shows "map_of (foldl statusLine m (map (\<lambda>(k, v). k @ CHR ''='' # v) ps)) =
    map_of m ++ map_of (rev (map (\<lambda>(k, v). (toSnakeCase k, GStr v)) ps))"
  using assms
proof (induction ps arbitrary: m)
  case (Cons p ps)
  obtain k v where p: "p = (k, v)" by force
  with Cons.prems have "statusLine m (k @ CHR ''='' # v) = AList.update (toSnakeCase k) (GStr v) m"
    by (simp add: statusLine_def printable_property_def cut_at)
  with Cons show ?case by (simp add: p map_add_def fun_eq_iff split: option.splits)
qed simp

lemma snake_unit_properties:
  "toSnakeCase ''Id'' = ''id''" "toSnakeCase ''LoadState'' = ''load_state''" "toSnakeCase ''ActiveState'' = ''active_state''"
  "toSnakeCase ''SubState'' = ''sub_state''" "toSnakeCase ''UnitFileState'' = ''unit_file_state''"
  by code_simp+

text \<open>
  A status probe reads back what \<^verbatim>\<open>systemctl\<close> prints. When the process succeeds in time with the lines of
  some properties, the probe returns exactly these properties under their snake-case names, and the unit it
  was asked for; it started that one process with the fixed arguments.
\<close>

theorem service_status_reads_properties:
  assumes "he_look_path env (h_step w) ''systemctl'' = Some path"
    and "he_exec env (Suc (h_step w)) (path # statusArgs unit) = Exited True (showProperties ps) err"
    and "\<not> ctxErr ctx (h_clock w + int (he_cost env (Suc (h_step w))))"
    and "list_all printable_property ps" "distinct (map (toSnakeCase \<circ> fst) ps)" "''unit'' \<notin> toSnakeCase ` fst ` set ps"
  shows "\<exists>m w'. serviceStatus env ctx unit w = (Inr m, w') \<and>
    map_of m = map_of ((''unit'', GStr unit) # map (\<lambda>(k, v). (toSnakeCase k, GStr v)) ps) \<and>
    h_calls w' = h_calls w @ [Exec (path # statusArgs unit)]"
proof -
  let ?m = "foldl statusLine [(''unit'', GStr unit)] (map (\<lambda>(k, v). k @ CHR ''='' # v) ps)"
  let ?ps = "map (\<lambda>(k, v). (toSnakeCase k, GStr v)) ps"
  have "\<not> ctxErr ctx (h_clock w)" using assms(3) ctxErr_mono by fastforce
  then have "serviceStatus env ctx unit w = (parseStatus unit (showProperties ps), called env (Exec (path # statusArgs unit)) (nextStep w))"
    using assms(1-3) by (simp add: serviceStatus_def lookPath_def runProcess_def Let_def nextStep_def)
  moreover have "parseStatus unit (showProperties ps) = Inr ?m"
    by (simp add: parseStatus_def scan_showProperties [OF assms(4)])
  moreover have keys: "distinct (map fst ?ps)" "''unit'' \<notin> fst ` set ?ps" using assms(5,6) by (auto simp: comp_def split_def image_image)
  then have "map_of (rev ?ps) = map_of ?ps" by (intro map_of_inject_set [THEN iffD2]) (simp_all only: set_rev distinct_rev flip: rev_map)
  then have eq: "map_of ?m = [''unit'' \<mapsto> GStr unit] ++ map_of ?ps"
    unfolding map_of_foldl_status [OF assms(4)] by (simp only: map_of.simps prod.sel fun_upd_apply)
  have "map_of ?ps ''unit'' = None" using keys(2) by (simp only: map_of_eq_None_iff not_False_eq_True)
  then have "map_of ?m = map_of ((''unit'', GStr unit) # ?ps)"
    unfolding eq by (simp add: map_add_def fun_eq_iff split: option.splits)
  ultimately show ?thesis by simp
qed

definition exampleProperties :: smap where
  "exampleProperties = [(''Id'', ''a.service''), (''ActiveState'', ''active''), (''SubState'', ''running'')]"

definition exampleHostEnv :: host_env where
  "exampleHostEnv =
     \<lparr>he_look_path = (\<lambda>_ _. Some ''/usr/bin/systemctl''), he_exec = (\<lambda>_ _. Exited True (showProperties exampleProperties) []),
      he_get = (\<lambda>_ _. None), he_cost = (\<lambda>_. 0), he_choice = (\<lambda>_. True), he_hostname = (\<lambda>_. Inr []), he_file = (\<lambda>_ _. None),
      he_goos = [], he_goarch = [], he_cpus = 1, he_parse_float = (\<lambda>_. None)\<rparr>"

theorem service_status_reads_properties_witness:
  "\<exists>m w'. serviceStatus exampleHostEnv background ''a.service'' \<lparr>h_clock = 0, h_step = 0, h_calls = []\<rparr> = (Inr m, w') \<and>
     map_of m ''active_state'' = Some (GStr ''active'') \<and> map_of m ''sub_state'' = Some (GStr ''running'')"
proof -
  let ?w = "\<lparr>h_clock = 0, h_step = 0, h_calls = []\<rparr>"
  have "list_all printable_property exampleProperties"
    by (simp add: exampleProperties_def printable_property_def maxScanTokenSize_def)
  note ps = this
  have look: "he_look_path exampleHostEnv (h_step ?w) ''systemctl'' = Some ''/usr/bin/systemctl''" by (simp add: exampleHostEnv_def)
  have run: "he_exec exampleHostEnv (Suc (h_step ?w)) (''/usr/bin/systemctl'' # statusArgs ''a.service'') =
      Exited True (showProperties exampleProperties) []" by (simp add: exampleHostEnv_def)
  have ctx: "\<not> ctxErr background t" for t by (simp add: ctxErr_def background_def)
  have keys: "distinct (map (toSnakeCase \<circ> fst) exampleProperties)" "''unit'' \<notin> toSnakeCase ` fst ` set exampleProperties"
    by (simp_all add: exampleProperties_def snake_unit_properties)
  from service_status_reads_properties [OF look run ctx ps keys] obtain m w' where
    run: "serviceStatus exampleHostEnv background ''a.service'' ?w = (Inr m, w')"
    and m: "map_of m = map_of ((''unit'', GStr ''a.service'') # map (\<lambda>(k, v). (toSnakeCase k, GStr v)) exampleProperties)"
    by blast
  have "map_of m ''active_state'' = Some (GStr ''active'')" "map_of m ''sub_state'' = Some (GStr ''running'')"
    by (simp_all add: m exampleProperties_def snake_unit_properties)
  with run show ?thesis by blast
qed

end
