(* ===== verification/QC_Net.thy ===== *)
theory QC_Net
  imports QC_Host
begin

text \<open>
  The parts of Go's \<^verbatim>\<open>net\<close> package the sources use: \<^verbatim>\<open>net.ParseIP\<close>, \<^verbatim>\<open>IP.IsLoopback\<close> and
  \<^verbatim>\<open>net.SplitHostPort\<close>. An address is the list of its 16 bytes; an IPv4 address has the form
  \<^verbatim>\<open>::ffff:a.b.c.d\<close>. \<open>None\<close> stands for \<^verbatim>\<open>nil\<close> and for an error.
\<close>

subsection \<open>Addresses\<close>

text \<open>Dotted decimals: \<open>started\<close> says whether the current field has a digit, \<open>v\<close> is its value.\<close>

fun v4Fields :: "nat list \<Rightarrow> bool \<Rightarrow> nat \<Rightarrow> string \<Rightarrow> nat list option" where
  "v4Fields acc started v [] = (if started \<and> length acc = 3 then Some (acc @ [v]) else None)"
| "v4Fields acc started v (c # cs) =
     (if is_digit c then
        (let v' = v * 10 + (byte_of c - 0x30) in
         if started \<and> v = 0 \<or> 255 < v' then None else v4Fields acc True v' cs)
      else if c = CHR ''.'' then
        (if \<not> started \<or> cs = [] \<or> length acc = 3 then None else v4Fields (acc @ [v]) False 0 cs)
      else None)"

definition parseIPv4 :: "string \<Rightarrow> nat list option" where
  "parseIPv4 s = v4Fields [] False 0 s"

definition v4In6 :: "nat list" where
  "v4In6 = replicate 10 0 @ [255, 255]"

text \<open>A group of at most four hexadecimal digits, and the rest of the text.\<close>

fun hexGroup :: "nat \<Rightarrow> nat \<Rightarrow> string \<Rightarrow> (nat \<times> nat \<times> string) option" where
  "hexGroup off acc [] = Some (off, acc, [])"
| "hexGroup off acc (c # cs) =
     (case fromHex c of
        None \<Rightarrow> Some (off, acc, c # cs)
      | Some x \<Rightarrow> if off > 3 then None else hexGroup (Suc off) (acc * 16 + x) cs)"

text \<open>The loop over the groups; \<open>n\<close> counts the groups that may still follow.\<close>

fun v6Loop :: "nat \<Rightarrow> nat list \<Rightarrow> nat option \<Rightarrow> string \<Rightarrow> (nat list \<times> nat option) option" where
  "v6Loop 0 ip ell s = (if s = [] then Some (ip, ell) else None)"
| "v6Loop (Suc n) ip ell s =
     (case hexGroup 0 0 s of
        None \<Rightarrow> None
      | Some (off, acc, r) \<Rightarrow>
          if off = 0 then None
          else if r \<noteq> [] \<and> hd r = CHR ''.'' then
            (if ell = None \<and> length ip \<noteq> 12 \<or> length ip + 4 > 16 then None
             else map_option (\<lambda>q. (ip @ q, ell)) (parseIPv4 s))
          else
            (let ip' = ip @ [acc div 256, acc mod 256] in
             case r of
               [] \<Rightarrow> Some (ip', ell)
             | c # t \<Rightarrow>
                 if c \<noteq> CHR '':'' \<or> t = [] then None
                 else if hd t = CHR '':'' then
                   (if ell \<noteq> None then None
                    else if tl t = [] then Some (ip', Some (length ip'))
                    else v6Loop n ip' (Some (length ip')) (tl t))
                 else v6Loop n ip' ell t))"

definition expandEllipsis :: "nat list \<times> nat option \<Rightarrow> nat list option" where
  "expandEllipsis r =
     (case r of (ip, ell) \<Rightarrow>
        if length ip < 16 then
          (case ell of None \<Rightarrow> None | Some e \<Rightarrow> Some (take e ip @ replicate (16 - length ip) 0 @ drop e ip))
        else if ell = None then Some ip else None)"

definition parseIPv6 :: "string \<Rightarrow> nat list option" where
  "parseIPv6 s =
     (if CHR ''%'' \<in> set s then None
      else if prefix ''::'' s then
        (if s = ''::'' then Some (replicate 16 0) else Option.bind (v6Loop 8 [] (Some 0) (drop 2 s)) expandEllipsis)
      else Option.bind (v6Loop 8 [] None s) expandEllipsis)"

fun firstOf :: "string \<Rightarrow> string \<Rightarrow> char option" where
  "firstOf cs [] = None"
| "firstOf cs (c # s) = (if c \<in> set cs then Some c else firstOf cs s)"

definition parseIP :: "string \<Rightarrow> nat list option" where
  "parseIP s =
     (case firstOf ''.:%'' s of
        None \<Rightarrow> None
      | Some c \<Rightarrow>
          if c = CHR ''.'' then map_option (\<lambda>q. v4In6 @ q) (parseIPv4 s)
          else if c = CHR '':'' then parseIPv6 s
          else None)"

definition isLoopback :: "nat list \<Rightarrow> bool" where
  "isLoopback ip =
     (if take 12 ip = v4In6 then ip ! 12 = 127 else ip = replicate 15 0 @ [1])"

subsection \<open>Host and port\<close>

text \<open>The text before and after the last colon.\<close>

fun lastColon :: "string \<Rightarrow> (string \<times> string) option" where
  "lastColon [] = None"
| "lastColon (c # cs) =
     (case lastColon cs of
        Some (a, b) \<Rightarrow> Some (c # a, b)
      | None \<Rightarrow> if c = CHR '':'' then Some ([], cs) else None)"

definition splitHostPort :: "string \<Rightarrow> (string \<times> string) option" where
  "splitHostPort hp =
     (case lastColon hp of
        None \<Rightarrow> None
      | Some (before, port) \<Rightarrow>
          if prefix ''['' hp then
            (case cut (CHR '']'') hp of (inside, after, found) \<Rightarrow>
               if \<not> found \<or> after \<noteq> CHR '':'' # port \<or> CHR ''['' \<in> set (tl hp) \<or> CHR '']'' \<in> set after then None
               else Some (tl inside, port))
          else if CHR '':'' \<in> set before \<or> CHR ''['' \<in> set hp \<or> CHR '']'' \<in> set hp then None
          else Some (before, port))"

lemma lastColon_append: "CHR '':'' \<notin> set port \<Longrightarrow> lastColon (host @ CHR '':'' # port) = Some (host, port)"
proof (induction host)
  case Nil
  have "CHR '':'' \<notin> set port \<Longrightarrow> lastColon port = None" for port by (induction port) auto
  with Nil show ?case by simp
qed simp

lemma splitHostPort_plain:
  assumes "CHR '':'' \<notin> set host" "CHR '':'' \<notin> set port" "set (host @ port) \<inter> set ''[]'' = {}"
  shows "splitHostPort (host @ CHR '':'' # port) = Some (host, port)"
proof -
  have "\<not> prefix ''['' (host @ CHR '':'' # port)" using assms(3) by (cases host) auto
  with assms show ?thesis by (auto simp: splitHostPort_def lastColon_append)
qed

text \<open>An address in dotted decimals is on the loopback network exactly when its first field is 127.\<close>

lemma v4Fields_length: "v4Fields acc st v s = Some q \<Longrightarrow> length acc \<le> 3 \<Longrightarrow> length q = 4"
  by (induction acc st v s rule: v4Fields.induct) (auto simp: Let_def split: if_splits)

lemma loopback_v4:
  assumes "firstOf ''.:%'' s = Some (CHR ''.'')" "parseIPv4 s = Some q"
  shows "\<exists>ip. parseIP s = Some ip \<and> (isLoopback ip \<longleftrightarrow> hd q = 127)"
proof -
  from assms(2) have "q \<noteq> []" using v4Fields_length [of "[]" False 0 s q] by (auto simp: parseIPv4_def)
  moreover from assms have "parseIP s = Some (v4In6 @ q)" by (simp add: parseIP_def)
  moreover have "length v4In6 = 12" by (simp add: v4In6_def)
  ultimately show ?thesis by (auto simp: isLoopback_def nth_append hd_conv_nth)
qed

lemma address_examples:
  "map_option isLoopback (parseIP ''127.0.0.1'') = Some True" "map_option isLoopback (parseIP ''::1'') = Some True"
  "map_option isLoopback (parseIP ''0.0.0.0'') = Some False"
  "map_option isLoopback (parseIP ''::'') = Some False" "parseIP ''127.0.0.01'' = None" "parseIP ''localhost'' = None"
  "parseIP ''1:2:3:4:5:6:7:8:9'' = None" "parseIP ''1::2::3'' = None" "parseIP ''127.0.0'' = None"
  "splitHostPort ''[::1]:80'' = Some (''::1'', ''80'')" "splitHostPort ''::1:80'' = None" "splitHostPort ''a'' = None"
  by code_simp+

end
