(* ===== verification/QC_ServicePolicy.thy ===== *)
theory QC_ServicePolicy
  imports QC_Actors QC_Json QC_Net
begin

text \<open>
  Service control (\<^verbatim>\<open>internal/servicecontrol\<close>): the policy that may only narrow the compiled set of services
  (\<^verbatim>\<open>policy.go\<close>), the adapter that runs \<^verbatim>\<open>systemctl\<close> with a fixed argument vector (\<^verbatim>\<open>controller.go\<close>) and the
  loopback health check (\<^verbatim>\<open>health.go\<close>).

  A policy file is a \<open>disk_file\<close>, as for the actor registry. \<^verbatim>\<open>url.Parse\<close> is a parameter of the health check: it
  yields the scheme, the host, the host without its port, and the text the request is sent to.
\<close>

subsection \<open>Policy\<close>

definition PolicySchema :: string where "PolicySchema = ''quantum.control/service-mutation-policy/v1alpha1''"

record service_spec =
  spec_unit :: string
  spec_health_url :: string

definition compiledServices :: "(string \<times> service_spec) list" where
  "compiledServices =
     [(''quantum-runtime.service'',
       \<lparr>spec_unit = ''quantum-runtime.service'', spec_health_url = ''http://127.0.0.1:11450/healthz''\<rparr>)]"

record policy_file =
  pf_schema :: string
  pf_allowed_units :: "string list"

record policy =
  pol_allowed :: "(string \<times> service_spec) list"

definition defaultPolicy :: policy where
  "defaultPolicy = \<lparr>pol_allowed = foldl (\<lambda>m (u, spec). AList.update u spec m) [] compiledServices\<rparr>"

datatype policy_error = PolicyUnreadable | PolicyTooLarge | PolicyUndecodable | PolicySchemaError string
  | PolicyEmptyUnit | PolicyBroadens string

fun allowUnits :: "(string \<times> service_spec) list \<Rightarrow> string list \<Rightarrow> policy_error + (string \<times> service_spec) list" where
  "allowUnits allowed [] = Inr allowed"
| "allowUnits allowed (raw # rest) =
     (let u = trimSpace raw in
      if u = [] then Inl PolicyEmptyUnit
      else (case map_of compiledServices u of
         None \<Rightarrow> Inl (PolicyBroadens u)
       | Some spec \<Rightarrow> allowUnits (AList.update u spec allowed) rest))"

definition loadPolicy :: "string \<Rightarrow> policy_file disk_file \<Rightarrow> policy_error + policy" where
  "loadPolicy path f =
     (if trimSpace path = [] then Inr defaultPolicy
      else case f of
        FileMissing \<Rightarrow> Inl PolicyUnreadable
      | FileUnreadable \<Rightarrow> Inl PolicyUnreadable
      | FileContents len doc \<Rightarrow>
          if len > 1048576 then Inl PolicyTooLarge
          else (case doc of
             None \<Rightarrow> Inl PolicyUndecodable
           | Some d \<Rightarrow>
               if pf_schema d \<noteq> PolicySchema then Inl (PolicySchemaError (pf_schema d))
               else map_sum id (\<lambda>m. \<lparr>pol_allowed = m\<rparr>) (allowUnits [] (pf_allowed_units d))))"

definition policyAllows :: "policy \<Rightarrow> string \<Rightarrow> bool" where
  "policyAllows p u = (map_of (pol_allowed p) u \<noteq> None)"

definition policySpec :: "policy \<Rightarrow> string \<Rightarrow> service_spec option" where
  "policySpec p u = map_of (pol_allowed p) u"

definition allowedUnits :: "policy \<Rightarrow> string list" where
  "allowedUnits p = sort (map fst (pol_allowed p))"

subsection \<open>The adapter\<close>

text \<open>\<^verbatim>\<open>^[A-Za-z0-9][A-Za-z0-9_.@:-]{0,127}$\<close>\<close>

definition unitPattern :: rx where
  "unitPattern = [(is_alnum, 1, 1), (\<lambda>c. is_alnum c \<or> c \<in> set ''_.@:-'', 0, 127)]"

definition validateUnit :: "string \<Rightarrow> string option" where
  "validateUnit u = (if rx_match unitPattern u then None else Some ''systemd unit does not match policy'')"

text \<open>\<^verbatim>\<open>Native\<close>; its \<^verbatim>\<open>Runner\<close> is the process runner of the host, replaced only in tests.\<close>

record native =
  nat_binary :: string

text \<open>\<^verbatim>\<open>execRunner.Run\<close>: the message of its error, or \<open>None\<close>.\<close>

definition execRun :: "host_env \<Rightarrow> go_context \<Rightarrow> string \<Rightarrow> string list \<Rightarrow> host \<Rightarrow> string option \<times> host" where
  "execRun env ctx binary args w =
     (case runProcess env ctx (binary # args) w of
        (NotStarted e, w') \<Rightarrow> (Some (''systemctl action failed: '' @ e), w')
      | (Exited ok out err, w') \<Rightarrow>
          if ok then (None, w')
          else
            (let message = take 256 (trimSpace out) in
             (Some (''systemctl action failed: '' @ (if message = [] then err else message)), w')))"

definition nativeRun :: "native \<Rightarrow> host_env \<Rightarrow> go_context \<Rightarrow> string \<Rightarrow> string \<Rightarrow> host \<Rightarrow> string option \<times> host" where
  "nativeRun n env ctx verb unit w =
     (case validateUnit unit of
        Some e \<Rightarrow> (Some e, w)
      | None \<Rightarrow>
          if verb \<noteq> ''start'' \<and> verb \<noteq> ''stop'' \<and> verb \<noteq> ''restart'' then (Some ''unsupported service action'', w)
          else if trimSpace (nat_binary n) \<noteq> [] then execRun env ctx (trimSpace (nat_binary n)) [verb, ''--'', unit] w
          else (case lookPath env ''systemctl'' w of
             (None, w') \<Rightarrow> (Some ''systemctl is not available'', w')
           | (Some path, w') \<Rightarrow> execRun env ctx path [verb, ''--'', unit] w'))"

definition nativeStart :: "native \<Rightarrow> host_env \<Rightarrow> go_context \<Rightarrow> string \<Rightarrow> host \<Rightarrow> string option \<times> host" where
  "nativeStart n env ctx unit = nativeRun n env ctx ''start'' unit"

definition nativeStop :: "native \<Rightarrow> host_env \<Rightarrow> go_context \<Rightarrow> string \<Rightarrow> host \<Rightarrow> string option \<times> host" where
  "nativeStop n env ctx unit = nativeRun n env ctx ''stop'' unit"

definition nativeRestart :: "native \<Rightarrow> host_env \<Rightarrow> go_context \<Rightarrow> string \<Rightarrow> host \<Rightarrow> string option \<times> host" where
  "nativeRestart n env ctx unit = nativeRun n env ctx ''restart'' unit"

subsection \<open>Health\<close>

record parsed_url =
  url_scheme :: string
  url_host :: string
  url_hostname :: string
  url_text :: string

definition healthCheck ::
  "(string \<Rightarrow> parsed_url option) \<Rightarrow> host_env \<Rightarrow> go_context \<Rightarrow> string \<Rightarrow> host \<Rightarrow> string option \<times> host" where
  "healthCheck parse env ctx rawURL w =
     (case parse rawURL of
        None \<Rightarrow> (Some ''invalid service health URL'', w)
      | Some u \<Rightarrow>
          if url_scheme u \<noteq> ''http'' \<or> url_host u = [] then (Some ''invalid service health URL'', w)
          else (case parseIP (url_hostname u) of
             None \<Rightarrow> (Some ''service health URL must use a loopback address'', w)
           | Some ip \<Rightarrow>
               if \<not> isLoopback ip then (Some ''service health URL must use a loopback address'', w)
               else (case httpGet env ctx (url_text u) w of
                  (None, w') \<Rightarrow> (Some ''service health endpoint is unavailable'', w')
                | (Some status, w') \<Rightarrow>
                    if status \<noteq> 200 then (Some (''service health endpoint returned HTTP '' @ dec status), w')
                    else (None, w'))))"

subsection \<open>What the policy promises\<close>

lemma allowUnits_exact:
  assumes "allowUnits allowed us = Inr m"
  shows "map_of m = map_of allowed ++ (map_of compiledServices |` (trimSpace ` set us))"
    and "trimSpace ` set us \<subseteq> dom (map_of compiledServices)"
    and "distinct (map fst allowed) \<Longrightarrow> distinct (map fst m)"
proof -
  have "map_of m = map_of allowed ++ (map_of compiledServices |` (trimSpace ` set us)) \<and>
      trimSpace ` set us \<subseteq> dom (map_of compiledServices) \<and> (distinct (map fst allowed) \<longrightarrow> distinct (map fst m))"
    using assms
  proof (induction us arbitrary: allowed)
    case (Cons raw us)
    then obtain spec where spec: "map_of compiledServices (trimSpace raw) = Some spec"
      and rest: "allowUnits (AList.update (trimSpace raw) spec allowed) us = Inr m"
      by (auto simp: Let_def split: if_splits option.splits)
    from Cons.IH [OF rest] spec show ?case
      by (auto simp: map_add_def restrict_map_def fun_eq_iff distinct_update split: option.splits)
  qed simp
  then show "map_of m = map_of allowed ++ (map_of compiledServices |` (trimSpace ` set us))"
    and "trimSpace ` set us \<subseteq> dom (map_of compiledServices)"
    and "distinct (map fst allowed) \<Longrightarrow> distinct (map fst m)" by auto
qed

lemma allowUnits_accepts:
  "trimSpace ` set us \<subseteq> dom (map_of compiledServices) \<Longrightarrow> \<exists>m. allowUnits allowed us = Inr m"
proof (induction us arbitrary: allowed)
  case (Cons raw us)
  then obtain spec where "map_of compiledServices (trimSpace raw) = Some spec" by auto
  moreover from this have "trimSpace raw \<noteq> []" by (auto simp: compiledServices_def split: if_splits)
  ultimately show ?case using Cons by simp
qed simp

lemma defaultPolicy_allowed: "pol_allowed defaultPolicy = compiledServices"
  by (simp add: defaultPolicy_def compiledServices_def)

definition policy_ok :: "policy \<Rightarrow> bool" where
  "policy_ok p \<longleftrightarrow> distinct (map fst (pol_allowed p)) \<and> map_of (pol_allowed p) \<subseteq>\<^sub>m map_of compiledServices"

lemma loadPolicy_ok: "loadPolicy path f = Inr p \<Longrightarrow> policy_ok p"
proof (cases "trimSpace path = []")
  case True
  moreover assume "loadPolicy path f = Inr p"
  ultimately have "p = defaultPolicy" by (simp add: loadPolicy_def)
  then show ?thesis by (simp add: policy_ok_def defaultPolicy_allowed) (simp add: compiledServices_def)
next
  case False
  assume "loadPolicy path f = Inr p"
  with False obtain us m where m: "allowUnits [] us = Inr m" and p: "p = \<lparr>pol_allowed = m\<rparr>"
    by (auto simp: loadPolicy_def map_sum.simps split: disk_file.splits if_splits option.splits)
      (metis (no_types, lifting) map_sum.simps sum.exhaust sum.inject(2) sum.simps(4))
  from allowUnits_exact [OF m] show ?thesis by (auto simp: policy_ok_def p map_le_def restrict_map_def)
qed

lemma allowedUnits_props:
  assumes "policy_ok p"
  shows "sorted (allowedUnits p)" "distinct (allowedUnits p)" "u \<in> set (allowedUnits p) \<longleftrightarrow> policyAllows p u"
  using assms by (auto simp: allowedUnits_def policyAllows_def policy_ok_def map_of_eq_None_iff dest: weak_map_of_SomeI)

text \<open>
  C38. A deployment policy can only narrow the compiled services. Whatever \<^verbatim>\<open>LoadPolicy\<close> accepts gives every
  allowed unit exactly its compiled specification; with a policy file the allowed units are exactly the listed
  ones, without one exactly the compiled ones; \<^verbatim>\<open>AllowedUnits\<close> lists them sorted and without repetition; and
  a well-formed file is accepted exactly when every unit it lists is compiled in.
\<close>

theorem policy_only_narrows:
  "(\<forall>path f p u. loadPolicy path f = Inr p \<longrightarrow>
      (\<forall>spec. policySpec p u = Some spec \<longrightarrow> map_of compiledServices u = Some spec) \<and>
      (policyAllows p u \<longleftrightarrow> (if trimSpace path = [] then map_of compiledServices u \<noteq> None
         else \<exists>len d. f = FileContents len (Some d) \<and> u \<in> trimSpace ` set (pf_allowed_units d))) \<and>
      sorted (allowedUnits p) \<and> distinct (allowedUnits p) \<and> (u \<in> set (allowedUnits p) \<longleftrightarrow> policyAllows p u)) \<and>
   (\<forall>path len d. trimSpace path \<noteq> [] \<and> len \<le> 1048576 \<and> pf_schema d = PolicySchema \<longrightarrow>
      ((\<exists>p. loadPolicy path (FileContents len (Some d)) = Inr p) \<longleftrightarrow>
       (\<forall>u \<in> set (pf_allowed_units d). map_of compiledServices (trimSpace u) \<noteq> None)))"
proof (intro conjI allI impI)
  fix path f p u assume l: "loadPolicy path f = Inr p"
  then have ok: "policy_ok p" by (rule loadPolicy_ok)
  show "map_of compiledServices u = Some spec" if "policySpec p u = Some spec" for spec
    using that ok by (auto simp: policySpec_def policy_ok_def map_le_def dom_def)
  show "sorted (allowedUnits p)" "distinct (allowedUnits p)" "u \<in> set (allowedUnits p) \<longleftrightarrow> policyAllows p u"
    using allowedUnits_props [OF ok] by blast+
  show "policyAllows p u \<longleftrightarrow> (if trimSpace path = [] then map_of compiledServices u \<noteq> None
         else \<exists>len d. f = FileContents len (Some d) \<and> u \<in> trimSpace ` set (pf_allowed_units d))"
  proof (cases "trimSpace path = []")
    case True
    with l have "p = defaultPolicy" by (simp add: loadPolicy_def)
    with True show ?thesis by (simp add: policyAllows_def defaultPolicy_allowed)
  next
    case False
    with l obtain len d where f: "f = FileContents len (Some d)"
      by (auto simp: loadPolicy_def split: disk_file.splits if_splits option.splits)
    with False l obtain m where m: "allowUnits [] (pf_allowed_units d) = Inr m" and p: "p = \<lparr>pol_allowed = m\<rparr>"
      by (cases "allowUnits [] (pf_allowed_units d)") (auto simp: loadPolicy_def split: if_splits)
    from allowUnits_exact(1,2) [OF m] have "map_of m u \<noteq> None \<longleftrightarrow> u \<in> trimSpace ` set (pf_allowed_units d)"
      by (auto simp: restrict_map_def)
    with False show ?thesis by (simp add: policyAllows_def p f)
  qed
next
  fix path and len :: nat and d :: policy_file
  assume a: "trimSpace path \<noteq> [] \<and> len \<le> 1048576 \<and> pf_schema d = PolicySchema"
  have "(\<exists>p. loadPolicy path (FileContents len (Some d)) = Inr p) \<longleftrightarrow> (\<exists>m. allowUnits [] (pf_allowed_units d) = Inr m)"
    using a by (cases "allowUnits [] (pf_allowed_units d)") (auto simp: loadPolicy_def)
  also have "\<dots> \<longleftrightarrow> (\<forall>u \<in> set (pf_allowed_units d). map_of compiledServices (trimSpace u) \<noteq> None)"
    using allowUnits_exact(2) [of "[]" "pf_allowed_units d"] allowUnits_accepts [of "pf_allowed_units d" "[]"] by blast
  finally show "(\<exists>p. loadPolicy path (FileContents len (Some d)) = Inr p) \<longleftrightarrow>
      (\<forall>u \<in> set (pf_allowed_units d). map_of compiledServices (trimSpace u) \<noteq> None)" .
qed

theorem policy_only_narrows_witness:
  "loadPolicy ''/etc/p.json'' (FileContents 90 (Some \<lparr>pf_schema = PolicySchema, pf_allowed_units = [''sshd.service'']\<rparr>)) =
     Inl (PolicyBroadens ''sshd.service'') \<and>
   (\<exists>p. loadPolicy ''/etc/p.json'' (FileContents 90 (Some \<lparr>pf_schema = PolicySchema, pf_allowed_units = ['' quantum-runtime.service'']\<rparr>)) = Inr p \<and>
        policyAllows p ''quantum-runtime.service'' \<and> \<not> policyAllows p ''sshd.service'')"
proof -
  let ?f = "\<lambda>us. FileContents 90 (Some \<lparr>pf_schema = PolicySchema, pf_allowed_units = us\<rparr>)"
  have path: "trimSpace ''/etc/p.json'' \<noteq> []" and units: "trimSpace '' quantum-runtime.service'' = ''quantum-runtime.service''"
    "trimSpace ''sshd.service'' = ''sshd.service''" by code_simp+
  obtain p where p: "loadPolicy ''/etc/p.json'' (?f ['' quantum-runtime.service'']) = Inr p"
    using path units by (simp add: loadPolicy_def compiledServices_def Let_def)
  have "policyAllows p u \<longleftrightarrow> u = ''quantum-runtime.service''" for u
    using conjunct1 [OF policy_only_narrows, rule_format, OF p, of u] path units by simp
  moreover have "loadPolicy ''/etc/p.json'' (?f [''sshd.service'']) = Inl (PolicyBroadens ''sshd.service'')"
    using path units by (simp add: loadPolicy_def compiledServices_def Let_def)
  ultimately show ?thesis using p by simp
qed

text \<open>The units the pattern admits: never empty, never an option, never a path.\<close>

lemma unitPattern_safe:
  assumes "rx_match unitPattern u"
  shows "u \<noteq> []" "hd u \<noteq> CHR ''-''" "CHR ''/'' \<notin> set u" "length u \<le> 128"
proof -
  show "length u \<le> 128" and ne: "u \<noteq> []" using rx_match_length [OF assms] by (auto simp: unitPattern_def)
  have alnum: "\<not> is_alnum (CHR ''-'')" "\<not> is_alnum (CHR ''/'')" by code_simp+
  show "CHR ''/'' \<notin> set u"
    using rx_match_chars [OF assms, of "CHR ''/''"] alnum by (auto simp: unitPattern_def)
  from assms ne have "is_alnum (hd u)" by (cases u) (auto simp: unitPattern_def)
  with alnum show "hd u \<noteq> CHR ''-''" by auto
qed

end
