(* ===== verification/QC_Registry.thy ===== *)
theory QC_Registry
  imports QC_Plans QC_Probe QC_ServicePolicy
begin

text \<open>
  The operation registry of the broker (\<^verbatim>\<open>internal/broker/registry.go\<close> and the part of \<^verbatim>\<open>mutations.go\<close> that
  registers the service operations): the table of operations, the catalog, the validation of requests, plans.

  The Go interfaces \<^verbatim>\<open>systemprobe.Probe\<close>, \<^verbatim>\<open>serviceMutator\<close> and \<^verbatim>\<open>healthChecker\<close> are records of functions, as a Go
  interface value is a table of methods; \<open>None\<close> is the nil interface. \<^verbatim>\<open>regexp.Compile\<close> and the
  quoting of \<^verbatim>\<open>%q\<close> are library functions carried by the registry in \<open>reg_lib\<close>. A handler is
  named rather than stored as a closure; \<open>None\<close> is the nil function of a zero \<^verbatim>\<open>registeredOperation\<close>.
\<close>

subsection \<open>Interfaces\<close>

record probe_api =
  pr_snapshot :: "go_context \<Rightarrow> host \<Rightarrow> (string + anymap) \<times> host"
  pr_status :: "go_context \<Rightarrow> string \<Rightarrow> host \<Rightarrow> (string + anymap) \<times> host"

record service_mutator =
  sm_start :: "go_context \<Rightarrow> string \<Rightarrow> host \<Rightarrow> string option \<times> host"
  sm_stop :: "go_context \<Rightarrow> string \<Rightarrow> host \<Rightarrow> string option \<times> host"
  sm_restart :: "go_context \<Rightarrow> string \<Rightarrow> host \<Rightarrow> string option \<times> host"

type_synonym health_checker = "go_context \<Rightarrow> string \<Rightarrow> host \<Rightarrow> string option \<times> host"

text \<open>What the broker is built with outside tests.\<close>

definition nativeProbe :: "host_env \<Rightarrow> probe_api" where
  "nativeProbe env = \<lparr>pr_snapshot = snapshot env, pr_status = serviceStatus env\<rparr>"

definition nativeMutator :: "native \<Rightarrow> host_env \<Rightarrow> service_mutator" where
  "nativeMutator n env = \<lparr>sm_start = nativeStart n env, sm_stop = nativeStop n env, sm_restart = nativeRestart n env\<rparr>"

record go_lib =
  lib_regexp :: "string \<Rightarrow> (string \<Rightarrow> bool) option"
  lib_quote :: "string \<Rightarrow> string"

subsection \<open>The table of operations\<close>

definition serviceUnitPatternText :: string where
  "serviceUnitPatternText = ''^[A-Za-z0-9][A-Za-z0-9_.@:-]{0,127}$''"

datatype operation_handler = SnapshotHandler | StatusHandler | TransactionHandler string

record registered_operation =
  ro_definition :: operation_definition
  ro_handler :: "operation_handler option"

record service_target =
  tgt_health_url :: string

record registry =
  reg_operations :: "(string \<times> registered_operation) list"
  reg_probe :: probe_api
  reg_mutator :: "service_mutator option"
  reg_health :: "health_checker option"
  reg_service_targets :: "(string \<times> service_target) list"
  reg_transaction_timeout :: duration
  reg_poll_interval :: duration
  reg_lib :: go_lib

definition emptyDefinition :: operation_definition where
  "emptyDefinition = \<lparr>def_action = [], def_summary = [], def_risk = [], def_requires_confirmation = False,
     def_implemented = False, def_parameters = []\<rparr>"

definition zeroOperation :: registered_operation where
  "zeroOperation = \<lparr>ro_definition = emptyDefinition, ro_handler = None\<rparr>"

definition registerOp :: "operation_definition \<Rightarrow> operation_handler \<Rightarrow> registry \<Rightarrow> registry" where
  "registerOp d h r = r\<lparr>reg_operations := AList.update (def_action d) \<lparr>ro_definition = d, ro_handler = Some h\<rparr> (reg_operations r)\<rparr>"

definition snapshotDefinition :: operation_definition where
  "snapshotDefinition = \<lparr>def_action = ''system.snapshot'', def_summary = ''Read a bounded local system summary'',
     def_risk = RiskReadOnly, def_requires_confirmation = False, def_implemented = True, def_parameters = []\<rparr>"

definition statusDefinition :: operation_definition where
  "statusDefinition = \<lparr>def_action = ''service.status'', def_summary = ''Read systemd unit state'',
     def_risk = RiskReadOnly, def_requires_confirmation = False, def_implemented = True,
     def_parameters = [\<lparr>pd_name = ''unit'', pd_description = ''Exact systemd unit name'', pd_required = True,
                         pd_pattern = serviceUnitPatternText, pd_allowed_values = None\<rparr>]\<rparr>"

definition newRegistry :: "probe_api \<Rightarrow> go_lib \<Rightarrow> registry" where
  "newRegistry probe lib =
     registerOp statusDefinition StatusHandler (registerOp snapshotDefinition SnapshotHandler
       \<lparr>reg_operations = [], reg_probe = probe, reg_mutator = None, reg_health = None, reg_service_targets = [],
        reg_transaction_timeout = 0, reg_poll_interval = 0, reg_lib = lib\<rparr>)"

definition copyParameter :: "parameter_definition \<Rightarrow> parameter_definition" where
  "copyParameter p = p\<lparr>pd_allowed_values := Some (case pd_allowed_values p of None \<Rightarrow> [] | Some vs \<Rightarrow> vs)\<rparr>"

definition catalog :: "registry \<Rightarrow> operation_definition list" where
  "catalog r = sort_key def_action
     (map (\<lambda>(_, oper). (ro_definition oper)\<lparr>def_parameters := map copyParameter (def_parameters (ro_definition oper))\<rparr>) (reg_operations r))"

subsection \<open>Registering the service operations\<close>

datatype enable_error = MutatorRequired | HealthRequired | TimeoutRange | PollRange | PolicyLostTarget string

text \<open>The loop that fills \<^verbatim>\<open>serviceTargets\<close>; it stops at a unit without a specification, keeping what it stored.\<close>

fun targetsOf :: "policy \<Rightarrow> (string \<times> service_target) list \<Rightarrow> string list \<Rightarrow> enable_error option \<times> (string \<times> service_target) list" where
  "targetsOf p m [] = (None, m)"
| "targetsOf p m (u # us) =
     (case policySpec p u of
        None \<Rightarrow> (Some (PolicyLostTarget u), m)
      | Some spec \<Rightarrow> targetsOf p (AList.update u \<lparr>tgt_health_url = spec_health_url spec\<rparr> m) us)"

definition serviceDefinition :: "string list \<Rightarrow> string \<Rightarrow> string \<Rightarrow> string \<Rightarrow> operation_definition" where
  "serviceDefinition units action summary risk =
     \<lparr>def_action = action, def_summary = summary, def_risk = risk, def_requires_confirmation = True,
      def_implemented = True,
      def_parameters = [\<lparr>pd_name = ''unit'', pd_description = ''Exact service unit from the compiled mutation allowlist'',
                          pd_required = True, pd_pattern = [], pd_allowed_values = Some units\<rparr>]\<rparr>"

definition registerService :: "string list \<Rightarrow> string \<Rightarrow> string \<Rightarrow> string \<Rightarrow> registry \<Rightarrow> registry" where
  "registerService units action summary risk =
     registerOp (serviceDefinition units action summary risk) (TransactionHandler action)"

definition enableServiceMutations ::
  "service_mutator option \<Rightarrow> health_checker option \<Rightarrow> policy \<Rightarrow> duration \<Rightarrow> duration \<Rightarrow> registry \<Rightarrow> enable_error option \<times> registry" where
  "enableServiceMutations mutator health p transactionTimeout pollInterval r =
     (if mutator = None then (Some MutatorRequired, r)
      else if health = None then (Some HealthRequired, r)
      else if transactionTimeout < second \<or> transactionTimeout > 2 * minute then (Some TimeoutRange, r)
      else if pollInterval < 10 * millisecond \<or> pollInterval > 5 * second then (Some PollRange, r)
      else
        (let units = allowedUnits p;
             (lost, targets) = targetsOf p [] units;
             r1 = r\<lparr>reg_mutator := mutator, reg_health := health, reg_transaction_timeout := transactionTimeout,
                    reg_poll_interval := pollInterval, reg_service_targets := targets\<rparr>
         in if lost \<noteq> None then (lost, r1)
            else
              (None,
               registerService units ''service.restart'' ''Restart an allowlisted managed service'' RiskLow
                (registerService units ''service.stop'' ''Stop an allowlisted managed service'' RiskHigh
                 (registerService units ''service.start'' ''Start an allowlisted managed service'' RiskLow r1)))))"

subsection \<open>Validation\<close>

definition mkProblem :: "string \<Rightarrow> string \<Rightarrow> problem" where
  "mkProblem code message = \<lparr>prob_code = code, prob_message = message\<rparr>"

definition validateParameter :: "go_lib \<Rightarrow> parameter_definition \<Rightarrow> string \<Rightarrow> problem option" where
  "validateParameter lib d v =
     (let allowed = (case pd_allowed_values d of
            None \<Rightarrow> None
          | Some vs \<Rightarrow>
              if v \<in> set vs then None
              else Some (mkProblem ''invalid_parameters'' (''parameter '' @ lib_quote lib (pd_name d) @ '' is not an allowed value'')))
      in if pd_pattern d = [] then allowed
         else case lib_regexp lib (pd_pattern d) of
           None \<Rightarrow> Some (mkProblem ''policy_error'' ''operation parameter policy is invalid'')
         | Some matches \<Rightarrow>
             if matches v then allowed
             else Some (mkProblem ''invalid_parameters'' (''parameter '' @ lib_quote lib (pd_name d) @ '' does not match policy'')))"

fun checkParameters :: "go_lib \<Rightarrow> smap \<Rightarrow> parameter_definition list \<Rightarrow> problem option" where
  "checkParameters lib m [] = None"
| "checkParameters lib m (d # ds) =
     (let v = map_of m (pd_name d) in
      if pd_required d \<and> (case v of None \<Rightarrow> True | Some x \<Rightarrow> trimSpace x = []) then
        Some (mkProblem ''invalid_parameters'' (''parameter '' @ lib_quote lib (pd_name d) @ '' is required''))
      else case (case v of None \<Rightarrow> None | Some x \<Rightarrow> validateParameter lib d x) of
          Some p \<Rightarrow> Some p
        | None \<Rightarrow> checkParameters lib m ds)"

fun checkNames :: "go_lib \<Rightarrow> string list \<Rightarrow> smap \<Rightarrow> problem option" where
  "checkNames lib allowed [] = None"
| "checkNames lib allowed ((name, v) # m) =
     (if name \<in> set allowed then checkNames lib allowed m
      else Some (mkProblem ''invalid_parameters'' (''parameter '' @ lib_quote lib name @ '' is not accepted'')))"

definition validate :: "registry \<Rightarrow> operation_request \<Rightarrow> bool \<Rightarrow> problem + registered_operation" where
  "validate r req execution =
     (let action = trimSpace (req_action req) in
      if action = [] then Inl (mkProblem ''invalid_action'' ''action is required'')
      else case map_of (reg_operations r) action of
        None \<Rightarrow> Inl (mkProblem ''unknown_action'' ''action is not allowlisted'')
      | Some oper \<Rightarrow>
          (let d = ro_definition oper in
           if \<not> def_implemented d then Inl (mkProblem ''not_implemented'' ''action is not implemented'')
           else if execution \<and> def_requires_confirmation d then
             Inl (mkProblem ''confirmation_verifier_required''
                    ''confirmation-required operation execution requires the approved execution endpoint'')
           else (case checkParameters (reg_lib r) (req_parameters req) (def_parameters d) of
              Some p \<Rightarrow> Inl p
            | None \<Rightarrow>
                (case checkNames (reg_lib r) (map pd_name (def_parameters d)) (req_parameters req) of
                   Some p \<Rightarrow> Inl p
                 | None \<Rightarrow> Inr oper))))"

definition planRequest :: "registry \<Rightarrow> operation_request \<Rightarrow> broker_plan" where
  "planRequest r req =
     (case validate r req False of
        Inl p \<Rightarrow> \<lparr>bp_request = req, bp_definition = emptyDefinition, bp_valid = False, bp_requires_confirmation = False,
                   bp_warnings = [], bp_error = Some p\<rparr>
      | Inr oper \<Rightarrow> \<lparr>bp_request = req, bp_definition = ro_definition oper, bp_valid = True,
                    bp_requires_confirmation = def_requires_confirmation (ro_definition oper), bp_warnings = [], bp_error = None\<rparr>)"

text \<open>\<^verbatim>\<open>newID\<close>: twelve random bytes, or the time when there are none.\<close>

definition newID :: "string \<Rightarrow> bytes option \<Rightarrow> gotime \<Rightarrow> string" where
  "newID pre rnd now =
     (case rnd of None \<Rightarrow> pre @ ''-'' @ printInt (unixNano now) | Some v \<Rightarrow> pre @ ''-'' @ hexEncode v)"

subsection \<open>What validation accepts\<close>

definition parameter_ok :: "go_lib \<Rightarrow> parameter_definition \<Rightarrow> string \<Rightarrow> bool" where
  "parameter_ok lib d v \<longleftrightarrow>
     (pd_pattern d = [] \<or> (\<exists>f. lib_regexp lib (pd_pattern d) = Some f \<and> f v)) \<and>
     (\<forall>vs. pd_allowed_values d = Some vs \<longrightarrow> v \<in> set vs)"

definition parameters_ok :: "go_lib \<Rightarrow> parameter_definition list \<Rightarrow> smap \<Rightarrow> bool" where
  "parameters_ok lib ds m \<longleftrightarrow>
     (\<forall>d \<in> set ds. (pd_required d \<longrightarrow> (\<exists>v. map_of m (pd_name d) = Some v \<and> trimSpace v \<noteq> [])) \<and>
        (\<forall>v. map_of m (pd_name d) = Some v \<longrightarrow> parameter_ok lib d v)) \<and>
     dom (map_of m) \<subseteq> pd_name ` set ds"

lemma validateParameter_None: "validateParameter lib d v = None \<longleftrightarrow> parameter_ok lib d v"
  by (auto simp: validateParameter_def parameter_ok_def Let_def split: option.splits if_splits)

lemma checkParameters_None:
  "checkParameters lib m ds = None \<longleftrightarrow>
     (\<forall>d \<in> set ds. (pd_required d \<longrightarrow> (\<exists>v. map_of m (pd_name d) = Some v \<and> trimSpace v \<noteq> [])) \<and>
        (\<forall>v. map_of m (pd_name d) = Some v \<longrightarrow> parameter_ok lib d v))"
  by (induction ds) (auto simp: Let_def validateParameter_None [symmetric] split: option.splits)

lemma checkNames_None: "checkNames lib names m = None \<longleftrightarrow> fst ` set m \<subseteq> set names"
  by (induction m) (auto split: if_splits)

lemma parameters_ok_iff:
  "parameters_ok lib ds m \<longleftrightarrow> checkParameters lib m ds = None \<and> checkNames lib (map pd_name ds) m = None"
  by (auto simp: parameters_ok_def checkParameters_None checkNames_None dom_map_of_conv_image_fst)

lemma validate_Inr:
  "validate r req ex = Inr oper \<longleftrightarrow>
     trimSpace (req_action req) \<noteq> [] \<and> map_of (reg_operations r) (trimSpace (req_action req)) = Some oper \<and>
     def_implemented (ro_definition oper) \<and> \<not> (ex \<and> def_requires_confirmation (ro_definition oper)) \<and>
     parameters_ok (reg_lib r) (def_parameters (ro_definition oper)) (req_parameters req)"
  by (auto simp: validate_def Let_def parameters_ok_iff split: if_splits option.splits)

subsection \<open>The enabled registry\<close>

text \<open>The registry of a running broker: created by \<^verbatim>\<open>NewRegistry\<close>, then \<^verbatim>\<open>EnableServiceMutations\<close> succeeded.\<close>

definition enabled_registry :: "probe_api \<Rightarrow> service_mutator \<Rightarrow> health_checker \<Rightarrow> policy \<Rightarrow> registry \<Rightarrow> bool" where
  "enabled_registry probe mutator health p r \<longleftrightarrow>
     (\<exists>lib t i. enableServiceMutations (Some mutator) (Some health) p t i (newRegistry probe lib) = (None, r))"

lemma targetsOf_all:
  "set us \<subseteq> dom (policySpec p) \<Longrightarrow> \<exists>m'. targetsOf p m us = (None, m') \<and>
     map_of m' = map_of m ++ (\<lambda>u. if u \<in> set us then map_option (\<lambda>s. \<lparr>tgt_health_url = spec_health_url s\<rparr>) (policySpec p u) else None)"
proof (induction us arbitrary: m)
  case (Cons u us)
  then obtain spec where spec: "policySpec p u = Some spec" by auto
  from Cons.prems have "set us \<subseteq> dom (policySpec p)" by simp
  from Cons.IH [OF this, of "AList.update u \<lparr>tgt_health_url = spec_health_url spec\<rparr> m"] obtain m' where
    t: "targetsOf p (AList.update u \<lparr>tgt_health_url = spec_health_url spec\<rparr> m) us = (None, m')" and
    m': "map_of m' = (map_of m)(u \<mapsto> \<lparr>tgt_health_url = spec_health_url spec\<rparr>) ++
      (\<lambda>u. if u \<in> set us then map_option (\<lambda>s. \<lparr>tgt_health_url = spec_health_url s\<rparr>) (policySpec p u) else None)"
    by (auto simp: fun_upd_def)
  have "map_of m' x = (map_of m ++
      (\<lambda>v. if v \<in> set (u # us) then map_option (\<lambda>s. \<lparr>tgt_health_url = spec_health_url s\<rparr>) (policySpec p v) else None)) x" for x
    unfolding m' by (cases "x = u"; cases "x \<in> set us"; cases "policySpec p x") (simp_all add: map_add_def spec)
  then show ?case using spec t by (intro exI [of _ m']) (simp add: fun_eq_iff)
qed (auto simp: map_add_def)

lemma allowedUnits_targets:
  "\<exists>m. targetsOf p [] (allowedUnits p) = (None, m) \<and>
     map_of m = (\<lambda>u. map_option (\<lambda>s. \<lparr>tgt_health_url = spec_health_url s\<rparr>) (policySpec p u))"
proof -
  have sub: "set (allowedUnits p) = dom (policySpec p)"
    by (simp add: allowedUnits_def policySpec_def [abs_def] dom_map_of_conv_image_fst)
  moreover have "(\<lambda>u. if u \<in> set (allowedUnits p) then map_option f (policySpec p u) else None) = (\<lambda>u. map_option f (policySpec p u))"
    for f :: "service_spec \<Rightarrow> service_target" by (auto simp: sub fun_eq_iff dom_def)
  ultimately show ?thesis using targetsOf_all [of "allowedUnits p" p "[]"] by auto
qed

definition enabledOperations :: "string list \<Rightarrow> (string \<times> registered_operation) list" where
  "enabledOperations units =
     [(''system.snapshot'', \<lparr>ro_definition = snapshotDefinition, ro_handler = Some SnapshotHandler\<rparr>),
      (''service.status'', \<lparr>ro_definition = statusDefinition, ro_handler = Some StatusHandler\<rparr>),
      (''service.start'', \<lparr>ro_definition = serviceDefinition units ''service.start'' ''Start an allowlisted managed service'' RiskLow,
          ro_handler = Some (TransactionHandler ''service.start'')\<rparr>),
      (''service.stop'', \<lparr>ro_definition = serviceDefinition units ''service.stop'' ''Stop an allowlisted managed service'' RiskHigh,
          ro_handler = Some (TransactionHandler ''service.stop'')\<rparr>),
      (''service.restart'', \<lparr>ro_definition = serviceDefinition units ''service.restart'' ''Restart an allowlisted managed service'' RiskLow,
          ro_handler = Some (TransactionHandler ''service.restart'')\<rparr>)]"

lemma newRegistry_operations:
  "reg_operations (newRegistry probe lib) =
     [(''system.snapshot'', \<lparr>ro_definition = snapshotDefinition, ro_handler = Some SnapshotHandler\<rparr>),
      (''service.status'', \<lparr>ro_definition = statusDefinition, ro_handler = Some StatusHandler\<rparr>)]"
  by (simp add: newRegistry_def registerOp_def snapshotDefinition_def statusDefinition_def)

lemma newRegistry_fields [simp]:
  "reg_probe (newRegistry probe lib) = probe" "reg_lib (newRegistry probe lib) = lib"
  by (simp_all add: newRegistry_def registerOp_def)

definition enable_ok :: "service_mutator option \<Rightarrow> health_checker option \<Rightarrow> duration \<Rightarrow> duration \<Rightarrow> bool" where
  "enable_ok m h t i \<longleftrightarrow> m \<noteq> None \<and> h \<noteq> None \<and> second \<le> t \<and> t \<le> 2 * minute \<and> 10 * millisecond \<le> i \<and> i \<le> 5 * second"

lemma enable_cases:
  shows "\<not> enable_ok m h t i \<Longrightarrow> \<exists>e. enableServiceMutations m h p t i r = (Some e, r)"
    and "enable_ok m h t i \<Longrightarrow> \<exists>r'. enableServiceMutations m h p t i r = (None, r')"
proof -
  obtain ts where "targetsOf p [] (allowedUnits p) = (None, ts)" using allowedUnits_targets [of p] by blast
  then show "\<not> enable_ok m h t i \<Longrightarrow> \<exists>e. enableServiceMutations m h p t i r = (Some e, r)"
    and "enable_ok m h t i \<Longrightarrow> \<exists>r'. enableServiceMutations m h p t i r = (None, r')"
    by (auto simp: enableServiceMutations_def enable_ok_def Let_def)
qed

lemma enabled_registry_facts:
  assumes "enabled_registry probe mutator health p r"
  shows "reg_operations r = enabledOperations (allowedUnits p)"
    and "reg_probe r = probe" "reg_mutator r = Some mutator" "reg_health r = Some health"
    and "map_of (reg_service_targets r) = (\<lambda>u. map_option (\<lambda>s. \<lparr>tgt_health_url = spec_health_url s\<rparr>) (policySpec p u))"
    and "second \<le> reg_transaction_timeout r" "reg_transaction_timeout r \<le> 2 * minute"
    and "10 * millisecond \<le> reg_poll_interval r" "reg_poll_interval r \<le> 5 * second"
proof -
  from assms obtain lib t i where e: "enableServiceMutations (Some mutator) (Some health) p t i (newRegistry probe lib) = (None, r)"
    by (auto simp: enabled_registry_def)
  obtain ts where ts: "targetsOf p [] (allowedUnits p) = (None, ts)"
    "map_of ts = (\<lambda>u. map_option (\<lambda>s. \<lparr>tgt_health_url = spec_health_url s\<rparr>) (policySpec p u))"
    using allowedUnits_targets by blast
  have range: "second \<le> t" "t \<le> 2 * minute" "10 * millisecond \<le> i" "i \<le> 5 * second"
    using e enable_cases(1) [of "Some mutator" "Some health" t i p "newRegistry probe lib"]
    by (auto simp: enable_ok_def)
  with e ts(1) have r: "r = registerService (allowedUnits p) ''service.restart'' ''Restart an allowlisted managed service'' RiskLow
      (registerService (allowedUnits p) ''service.stop'' ''Stop an allowlisted managed service'' RiskHigh
       (registerService (allowedUnits p) ''service.start'' ''Start an allowlisted managed service'' RiskLow
         ((newRegistry probe lib)\<lparr>reg_mutator := Some mutator, reg_health := Some health, reg_transaction_timeout := t,
            reg_poll_interval := i, reg_service_targets := ts\<rparr>)))"
    by (auto simp: enableServiceMutations_def Let_def)
  show "reg_operations r = enabledOperations (allowedUnits p)"
    by (simp add: r registerService_def registerOp_def serviceDefinition_def newRegistry_operations enabledOperations_def)
  show "map_of (reg_service_targets r) = (\<lambda>u. map_option (\<lambda>s. \<lparr>tgt_health_url = spec_health_url s\<rparr>) (policySpec p u))"
    by (simp add: r registerService_def registerOp_def ts(2))
  show "reg_probe r = probe" "reg_mutator r = Some mutator" "reg_health r = Some health"
    "second \<le> reg_transaction_timeout r" "reg_transaction_timeout r \<le> 2 * minute"
    "10 * millisecond \<le> reg_poll_interval r" "reg_poll_interval r \<le> 5 * second"
    using range by (simp_all add: r registerService_def registerOp_def)
qed

text \<open>
  C37. What the broker publishes. Enabling the service operations on a new registry succeeds exactly when both
  adapters are present and the two durations are in range; then the catalog lists five operations in the
  order of their names, of which exactly the three service operations require confirmation, and these accept
  exactly the units the policy allows. When it fails the operations are unchanged.
\<close>

theorem enable_publishes_operations:
  "if enable_ok m h t i
   then \<exists>r. enableServiceMutations m h p t i (newRegistry probe lib) = (None, r) \<and>
     map (\<lambda>d. (def_action d, def_requires_confirmation d, map (\<lambda>pd. (pd_name pd, pd_required pd, pd_allowed_values pd)) (def_parameters d)))
       (catalog r) =
     [(''service.restart'', True, [(''unit'', True, Some (allowedUnits p))]),
      (''service.start'', True, [(''unit'', True, Some (allowedUnits p))]),
      (''service.status'', False, [(''unit'', True, Some [])]),
      (''service.stop'', True, [(''unit'', True, Some (allowedUnits p))]),
      (''system.snapshot'', False, [])]
   else \<exists>e. enableServiceMutations m h p t i (newRegistry probe lib) = (Some e, newRegistry probe lib)"
proof (cases "enable_ok m h t i")
  case True
  then obtain r where r: "enableServiceMutations m h p t i (newRegistry probe lib) = (None, r)"
    using enable_cases(2) by blast
  with True have "reg_operations r = enabledOperations (allowedUnits p)"
    by (intro enabled_registry_facts(1) [of probe "the m" "the h"]) (auto simp: enabled_registry_def enable_ok_def)
  then show ?thesis using True r
    by (simp add: catalog_def enabledOperations_def snapshotDefinition_def statusDefinition_def serviceDefinition_def copyParameter_def)
next
  case False
  then show ?thesis using enable_cases(1) by simp
qed

text \<open>
  C36. Validation is exact. A request is accepted exactly when its trimmed action names a registered,
  implemented operation that, for a direct execution, needs no confirmation, every required parameter has a
  non-blank value, every supplied value fits its pattern and its allowed values, and no other parameter is
  supplied. \<^verbatim>\<open>Plan\<close> reports exactly this outcome, and a failure always names a problem.
\<close>

theorem validate_accepts_exactly:
  "((\<exists>oper. validate r req ex = Inr oper) \<longleftrightarrow>
     (\<exists>oper. trimSpace (req_action req) \<noteq> [] \<and> map_of (reg_operations r) (trimSpace (req_action req)) = Some oper \<and>
        def_implemented (ro_definition oper) \<and> \<not> (ex \<and> def_requires_confirmation (ro_definition oper)) \<and>
        parameters_ok (reg_lib r) (def_parameters (ro_definition oper)) (req_parameters req))) \<and>
   (bp_valid (planRequest r req) \<longleftrightarrow> (\<exists>oper. validate r req False = Inr oper)) \<and>
   (bp_valid (planRequest r req) \<longleftrightarrow> bp_error (planRequest r req) = None) \<and>
   bp_request (planRequest r req) = req"
proof (intro conjI)
  show "bp_valid (planRequest r req) \<longleftrightarrow> (\<exists>oper. validate r req False = Inr oper)"
    "bp_valid (planRequest r req) \<longleftrightarrow> bp_error (planRequest r req) = None" "bp_request (planRequest r req) = req"
    by (simp_all add: planRequest_def split: sum.splits)
qed (simp add: validate_Inr)

subsection \<open>The contract of the adapters\<close>

text \<open>
  What the transaction code relies on: a probe and a health check only observe, a status probe under a context
  that is done fails at once, and each lifecycle action makes at most one call, of its own kind, and does not
  succeed without it.
\<close>

locale service_interfaces =
  fixes probe :: probe_api and mutator :: service_mutator and health :: health_checker
    and observes :: "host_call \<Rightarrow> bool" and mutates :: "string \<Rightarrow> string \<Rightarrow> host_call \<Rightarrow> bool"
  assumes snapshot_adds: "pr_snapshot probe ctx w = (x, w') \<Longrightarrow> adds observes w w'"
    and status_adds: "pr_status probe ctx u w = (x, w') \<Longrightarrow> adds observes w w'"
    and status_expired: "pr_status probe ctx u w = (x, w') \<Longrightarrow> ctxErr ctx (h_clock w) \<Longrightarrow> isl x \<and> h_clock w' = h_clock w"
    and health_adds: "health ctx url w = (e, w') \<Longrightarrow> adds observes w w'"
    and start_acts: "sm_start mutator ctx u w = (e, w') \<Longrightarrow> acted (mutates ''start'' u) e w w'"
    and stop_acts: "sm_stop mutator ctx u w = (e, w') \<Longrightarrow> acted (mutates ''stop'' u) e w w'"
    and restart_acts: "sm_restart mutator ctx u w = (e, w') \<Longrightarrow> acted (mutates ''restart'' u) e w w'"
    and disjoint: "observes c \<Longrightarrow> \<not> mutates v u c"

text \<open>The native adapters: \<^verbatim>\<open>systemctl show\<close> and loopback requests observe, \<^verbatim>\<open>systemctl VERB -- UNIT\<close> mutates.\<close>

definition native_observes :: "host_call \<Rightarrow> bool" where
  "native_observes c \<longleftrightarrow> (\<exists>unit. status_call unit c) \<or> (\<exists>url. c = HttpGet url)"

definition native_mutates :: "string \<Rightarrow> string \<Rightarrow> host_call \<Rightarrow> bool" where
  "native_mutates verb u c \<longleftrightarrow> (\<exists>binary. c = Exec [binary, verb, ''--'', u]) \<and> rx_match unitPattern u"

lemma execRun_acts:
  assumes "execRun env ctx binary [verb, ''--'', u] w = (e, w')" "rx_match unitPattern u"
  shows "acted (native_mutates verb u) e w w'"
  using assms
  by (auto simp: execRun_def runProcess_def acted_def native_mutates_def Let_def split: if_splits exec_result.splits prod.splits)

lemma nativeRun_acts:
  assumes "nativeRun n env ctx verb u w = (e, w')"
  shows "acted (native_mutates verb u) e w w'"
proof (cases "rx_match unitPattern u")
  case True
  have "acted (native_mutates verb u) e (nextStep w) w' \<Longrightarrow> acted (native_mutates verb u) e w w'" by (simp add: acted_def)
  moreover have "acted P (Some x) v v" "acted P (Some x) v (nextStep v)" for P x v by (simp_all add: acted_def)
  ultimately show ?thesis using True assms
    by (auto simp: nativeRun_def validateUnit_def lookPath_def dest: execRun_acts split: if_splits option.splits prod.splits)
next
  case False
  with assms show ?thesis by (auto simp: nativeRun_def validateUnit_def acted_def)
qed

lemma snapshot_host: "snapshot env ctx w = (x, w') \<Longrightarrow> h_clock w' = h_clock w \<and> h_calls w' = h_calls w"
  by (auto simp: snapshot_def Let_def split: if_splits sum.splits)

lemma healthCheck_host:
  assumes "healthCheck parse env ctx url w = (e, w')"
  shows "adds native_observes w w'"
    and "h_calls w' \<noteq> h_calls w \<Longrightarrow> \<exists>u ip. parse url = Some u \<and> url_scheme u = ''http'' \<and> parseIP (url_hostname u) = Some ip \<and>
      isLoopback ip \<and> h_calls w' = h_calls w @ [HttpGet (url_text u)]"
    and "e = None \<Longrightarrow> \<exists>u. parse url = Some u \<and> he_get env (h_step w) (url_text u) = Some 200 \<and>
      h_calls w' = h_calls w @ [HttpGet (url_text u)] \<and> h_step w' = Suc (h_step w)"
  using assms
  by (auto simp: healthCheck_def httpGet_def adds_def native_observes_def Let_def split: if_splits option.splits prod.splits)

interpretation native_host: service_interfaces "nativeProbe env" "nativeMutator n env" "healthCheck parse env" native_observes native_mutates
  for env n parse
proof
  show "pr_snapshot (nativeProbe env) ctx w = (x, w') \<Longrightarrow> adds native_observes w w'" for ctx w x w'
    by (auto simp: nativeProbe_def adds_def dest: snapshot_host)
  show "pr_status (nativeProbe env) ctx u w = (x, w') \<Longrightarrow> adds native_observes w w'" for ctx u w x w'
    using serviceStatus_host(1,2) [of env ctx u w x w']
    by (auto simp: nativeProbe_def adds_def later_def native_observes_def list_all_iff)
  show "pr_status (nativeProbe env) ctx u w = (x, w') \<Longrightarrow> ctxErr ctx (h_clock w) \<Longrightarrow> isl x \<and> h_clock w' = h_clock w" for ctx u w x w'
    using serviceStatus_host(3) by (auto simp: nativeProbe_def)
  show "healthCheck parse env ctx url w = (e, w') \<Longrightarrow> adds native_observes w w'" for ctx url w e w'
    by (rule healthCheck_host)
  show "sm_start (nativeMutator n env) ctx u w = (e, w') \<Longrightarrow> acted (native_mutates ''start'' u) e w w'"
    "sm_stop (nativeMutator n env) ctx u w = (e, w') \<Longrightarrow> acted (native_mutates ''stop'' u) e w w'"
    "sm_restart (nativeMutator n env) ctx u w = (e, w') \<Longrightarrow> acted (native_mutates ''restart'' u) e w w'" for ctx u w e w'
    by (auto simp: nativeMutator_def nativeStart_def nativeStop_def nativeRestart_def intro: nativeRun_acts)
  show "native_observes c \<Longrightarrow> \<not> native_mutates v u c" for c v u
    by (auto simp: native_observes_def native_mutates_def status_call_def statusArgs_def)
qed

end
