(* ===== verification/QC_Transactions.thy ===== *)
theory QC_Transactions
  imports QC_Registry
begin

text \<open>
  Execution in the broker (\<^verbatim>\<open>internal/broker/mutations.go\<close> and \<^verbatim>\<open>Execute\<close> of \<^verbatim>\<open>registry.go\<close>): the service
  transaction with its precondition, action, polled postcondition and recovery, the revalidation of approved
  plans, and the two entry points.

  An operation may fail to return or panic, so its result is an \<open>outcome\<close>. The polling loop is a
  \<open>partial_function\<close>, whose \<open>None\<close> means that it runs forever; that it does not is a theorem. A handler
  yields its result map (\<open>None\<close> is the nil map) and its error. The random bytes of the identifiers are an argument:
  \<open>rnd k\<close> is what \<^verbatim>\<open>rand.Read\<close> delivered for the \<open>k\<close>-th identifier of the call. The clock is the clock of the host.
\<close>

datatype 'a outcome = Diverges | Panics | Returns 'a

datatype op_error = OperationError string string | PlainError string

definition problemFromOperationError :: "op_error \<Rightarrow> problem" where
  "problemFromOperationError e =
     (case e of OperationError code message \<Rightarrow> mkProblem code message
      | PlainError message \<Rightarrow> mkProblem ''operation_failed'' message)"

subsection \<open>The service transaction\<close>

definition stateValue :: "anymap \<Rightarrow> string \<Rightarrow> string" where
  "stateValue state key = toLower (trimSpace (case map_of state key of Some (GStr v) \<Rightarrow> v | _ \<Rightarrow> []))"

definition applyServiceAction :: "service_mutator \<Rightarrow> go_context \<Rightarrow> string \<Rightarrow> string \<Rightarrow> host \<Rightarrow> string option \<times> host" where
  "applyServiceAction m ctx action unit w =
     (if action = ''service.start'' then sm_start m ctx unit w
      else if action = ''service.stop'' then sm_stop m ctx unit w
      else if action = ''service.restart'' then sm_restart m ctx unit w
      else (Some ''unsupported service mutation'', w))"

definition expectedActiveState :: "string \<Rightarrow> string" where
  "expectedActiveState action = (if action = ''service.stop'' then ''inactive'' else ''active'')"

text \<open>One round of the polling loop: the observation, and whether it settles the wait.\<close>

definition pollOnce ::
  "probe_api \<Rightarrow> health_checker \<Rightarrow> go_context \<Rightarrow> string \<Rightarrow> string \<Rightarrow> string \<Rightarrow> host \<Rightarrow> (anymap option \<times> bool) \<times> host" where
  "pollOnce probe health ctx unit healthURL expected w =
     (case pr_status probe ctx unit w of
        (Inl _, w1) \<Rightarrow> ((None, False), w1)
      | (Inr state, w1) \<Rightarrow>
          if stateValue state ''active_state'' \<noteq> expected then ((Some state, False), w1)
          else if expected \<noteq> ''active'' \<or> healthURL = [] then ((Some state, True), w1)
          else (case health ctx healthURL w1 of (e, w2) \<Rightarrow> ((Some state, e = None), w2)))"

text \<open>The loop: \<open>r\<close> ticks have fired when the last one was received, \<open>seen\<close> is the last observation.\<close>

partial_function (option) waitLoop ::
  "host_env \<Rightarrow> probe_api \<Rightarrow> health_checker \<Rightarrow> go_context \<Rightarrow> string \<Rightarrow> string \<Rightarrow> string \<Rightarrow> duration \<Rightarrow> gotime \<Rightarrow>
   nat \<Rightarrow> anymap option \<Rightarrow> host \<Rightarrow> ((anymap option \<times> bool) \<times> host) option" where
  "waitLoop env probe health ctx unit healthURL expected p t0 r seen w =
     (case pollOnce probe health ctx unit healthURL expected w of
        ((state, settled), w1) \<Rightarrow>
          let last1 = (if state = None then seen else state) in
          if settled then Some ((last1, True), w1)
          else (case selectTick env ctx t0 p r w1 of
                  (None, w2) \<Rightarrow> Some ((last1, False), w2)
                | (Some r1, w2) \<Rightarrow> waitLoop env probe health ctx unit healthURL expected p t0 r1 last1 w2))"

definition waitForServicePostcondition ::
  "host_env \<Rightarrow> probe_api \<Rightarrow> health_checker \<Rightarrow> duration \<Rightarrow> go_context \<Rightarrow> string \<Rightarrow> string \<Rightarrow> string \<Rightarrow> host \<Rightarrow>
   ((anymap option \<times> bool) \<times> host) outcome" where
  "waitForServicePostcondition env probe health p ctx unit healthURL expected w =
     (if p \<le> 0 then Panics
      else case waitLoop env probe health ctx unit healthURL expected p (h_clock w) 0 None w of
        None \<Rightarrow> Diverges
      | Some x \<Rightarrow> Returns x)"

definition recoveryAction :: "string \<Rightarrow> string option" where
  "recoveryAction preActive =
     (if preActive = ''active'' then Some ''service.start''
      else if preActive = ''inactive'' \<or> preActive = ''failed'' then Some ''service.stop''
      else None)"

definition recoverPrecondition ::
  "host_env \<Rightarrow> probe_api \<Rightarrow> service_mutator \<Rightarrow> health_checker \<Rightarrow> duration \<Rightarrow> go_context \<Rightarrow> string \<Rightarrow> string \<Rightarrow> host \<Rightarrow>
   (string \<times> host) outcome" where
  "recoverPrecondition env probe m health p ctx unit preActive w =
     (if ctxErr ctx (h_clock w) then Returns (''failed'', w)
      else case recoveryAction preActive of
        None \<Rightarrow> Returns (''not_defined'', w)
      | Some action \<Rightarrow>
          (case applyServiceAction m ctx action unit w of
             (Some _, w1) \<Rightarrow> Returns (''failed'', w1)
           | (None, w1) \<Rightarrow>
               (case waitForServicePostcondition env probe health p ctx unit [] (expectedActiveState action) w1 of
                  Returns ((_, ok), w2) \<Rightarrow> Returns (if ok then ''succeeded'' else ''failed'', w2)
                | Panics \<Rightarrow> Panics
                | Diverges \<Rightarrow> Diverges)))"

definition goMap :: "anymap option \<Rightarrow> goval" where
  "goMap m = (case m of None \<Rightarrow> GNil | Some x \<Rightarrow> GMap x)"

definition preHealth :: "health_checker \<Rightarrow> go_context \<Rightarrow> string \<Rightarrow> string \<Rightarrow> anymap \<Rightarrow> host \<Rightarrow> anymap \<times> host" where
  "preHealth health ctx healthURL preActive result w =
     (if healthURL \<noteq> [] \<and> preActive = ''active'' then
        (case health ctx healthURL w of
           (e, w1) \<Rightarrow> (AList.update ''pre_health'' (GStr (if e = None then ''healthy'' else ''unhealthy'')) result, w1))
      else (result, w))"

text \<open>The end of a failed transaction: recovery, and the error with its code.\<close>

definition failWithRecovery ::
  "host_env \<Rightarrow> probe_api \<Rightarrow> service_mutator \<Rightarrow> health_checker \<Rightarrow> duration \<Rightarrow> go_context \<Rightarrow> string \<Rightarrow> string \<Rightarrow> anymap \<Rightarrow> op_error \<Rightarrow> host \<Rightarrow>
   ((anymap option \<times> op_error option) \<times> host) outcome" where
  "failWithRecovery env probe m health p ctx unit preActive result e w =
     (case recoverPrecondition env probe m health p ctx unit preActive w of
        Returns (status, w1) \<Rightarrow> Returns ((Some (AList.update ''recovery_status'' (GStr status) result), Some e), w1)
      | Panics \<Rightarrow> Panics
      | Diverges \<Rightarrow> Diverges)"

text \<open>From the action on: everything after the precondition was observed.\<close>

definition actAndVerify ::
  "host_env \<Rightarrow> probe_api \<Rightarrow> service_mutator \<Rightarrow> health_checker \<Rightarrow> duration \<Rightarrow> go_context \<Rightarrow> string \<Rightarrow> string \<Rightarrow> string \<Rightarrow> string \<Rightarrow> anymap \<Rightarrow> host \<Rightarrow>
   ((anymap option \<times> op_error option) \<times> host) outcome" where
  "actAndVerify env probe m health p ctx action unit healthURL preActive result w =
     (case applyServiceAction m ctx action unit w of
        (Some _, w1) \<Rightarrow>
          (case pr_status probe ctx unit w1 of (st, w2) \<Rightarrow>
             failWithRecovery env probe m health p ctx unit preActive
               (AList.update ''postcondition'' (goMap (case st of Inl _ \<Rightarrow> None | Inr s \<Rightarrow> Some s)) result)
               (OperationError ''service_action_failed'' ''service action failed before the expected postcondition was reached'') w2)
      | (None, w1) \<Rightarrow>
          (case waitForServicePostcondition env probe health p ctx unit healthURL (expectedActiveState action) w1 of
             Panics \<Rightarrow> Panics
           | Diverges \<Rightarrow> Diverges
           | Returns ((post, ok), w2) \<Rightarrow>
               (let result1 = AList.update ''postcondition'' (goMap post) result in
                if \<not> ok then
                  failWithRecovery env probe m health p ctx unit preActive result1
                    (OperationError ''service_postcondition_failed'' ''service did not reach the required postcondition before timeout'') w2
                else
                  (let result2 = AList.update ''postcondition_verified'' (GBool True) result1;
                       result3 = (if expectedActiveState action = ''active'' \<and> healthURL \<noteq> []
                                  then AList.update ''health_verified'' (GBool True) result2 else result2)
                   in Returns ((Some result3, None), w2)))))"

text \<open>
  \<^verbatim>\<open>runServiceTransaction\<close>. A nil adapter would panic when it is called; targets exist only after both
  adapters were set.
\<close>

definition runServiceTransaction ::
  "host_env \<Rightarrow> registry \<Rightarrow> go_context \<Rightarrow> string \<Rightarrow> string \<Rightarrow> host \<Rightarrow> ((anymap option \<times> op_error option) \<times> host) outcome" where
  "runServiceTransaction env reg ctx action unit w =
     (case map_of (reg_service_targets reg) unit of
        None \<Rightarrow> Returns ((None, Some (OperationError ''service_not_allowlisted'' ''service is not in the mutation allowlist'')), w)
      | Some target \<Rightarrow>
          (case (reg_mutator reg, reg_health reg) of
             (Some m, Some health) \<Rightarrow>
               (let txCtx = withTimeout ctx (reg_transaction_timeout reg) (h_clock w) in
                case pr_status (reg_probe reg) txCtx unit w of
                  (Inl _, w1) \<Rightarrow>
                    Returns ((None, Some (OperationError ''service_precondition_failed'' ''service precondition could not be observed'')), w1)
                | (Inr precondition, w1) \<Rightarrow>
                    (let preActive = stateValue precondition ''active_state'';
                         result = [(''action'', GStr action), (''unit'', GStr unit), (''precondition'', GMap precondition),
                                   (''recovery_status'', GStr ''not_required'')];
                         (result1, w2) = preHealth health txCtx (tgt_health_url target) preActive result w1
                     in actAndVerify env (reg_probe reg) m health (reg_poll_interval reg) txCtx action unit
                          (tgt_health_url target) preActive result1 w2))
           | _ \<Rightarrow> Panics))"

subsection \<open>Handlers and direct execution\<close>

definition unitParameter :: "operation_request \<Rightarrow> string" where
  "unitParameter req = (case map_of (req_parameters req) ''unit'' of None \<Rightarrow> [] | Some v \<Rightarrow> v)"

definition observed :: "(string + anymap) \<times> host \<Rightarrow> ((anymap option \<times> op_error option) \<times> host) outcome" where
  "observed x = (case x of
     (Inl e, w) \<Rightarrow> Returns ((None, Some (PlainError e)), w)
   | (Inr m, w) \<Rightarrow> Returns ((Some m, None), w))"

definition runHandler ::
  "host_env \<Rightarrow> registry \<Rightarrow> operation_handler option \<Rightarrow> go_context \<Rightarrow> operation_request \<Rightarrow> host \<Rightarrow>
   ((anymap option \<times> op_error option) \<times> host) outcome" where
  "runHandler env reg handler ctx req w =
     (case handler of
        None \<Rightarrow> Panics
      | Some SnapshotHandler \<Rightarrow> observed (pr_snapshot (reg_probe reg) ctx w)
      | Some StatusHandler \<Rightarrow>
          observed (pr_status (reg_probe reg) (withTimeout ctx (10 * second) (h_clock w)) (unitParameter req) w)
      | Some (TransactionHandler action) \<Rightarrow> runServiceTransaction env reg ctx action (unitParameter req) w)"

definition newResponse :: "string \<Rightarrow> string \<Rightarrow> string \<Rightarrow> gotime \<Rightarrow> operation_response" where
  "newResponse requestID action auditID now =
     \<lparr>resp_request_id = requestID, resp_action = action, resp_status = ''rejected'', resp_risk = [], resp_started_at = now,
      resp_finished_at = 0, resp_audit_id = auditID, resp_result = [], resp_error = None\<rparr>"

definition requestIDOr :: "string \<Rightarrow> bytes option \<Rightarrow> gotime \<Rightarrow> string" where
  "requestIDOr given rnd now = (if given = [] then newID ''request'' rnd now else given)"

text \<open>How a handler's result ends a response.\<close>

definition finishResponse :: "operation_response \<Rightarrow> anymap \<Rightarrow> op_error option \<Rightarrow> gotime \<Rightarrow> operation_response" where
  "finishResponse resp result e now =
     (let done = resp\<lparr>resp_result := result, resp_finished_at := now\<rparr> in
      case e of
        Some err \<Rightarrow> done\<lparr>resp_status := ''failed'', resp_error := Some (problemFromOperationError err)\<rparr>
      | None \<Rightarrow> done\<lparr>resp_status := ''completed''\<rparr>)"

definition execute ::
  "host_env \<Rightarrow> registry \<Rightarrow> (nat \<Rightarrow> bytes option) \<Rightarrow> go_context \<Rightarrow> operation_request \<Rightarrow> host \<Rightarrow> (operation_response \<times> host) outcome" where
  "execute env reg rnd ctx req w =
     (let now = h_clock w;
          base = newResponse (requestIDOr (req_id req) (rnd 1) now) (req_action req) (newID ''audit'' (rnd 0) now) now
      in case validate reg req True of
           Inl p \<Rightarrow> Returns (base\<lparr>resp_error := Some p, resp_finished_at := now\<rparr>, w)
         | Inr oper \<Rightarrow>
             (case runHandler env reg (ro_handler oper) ctx req w of
                Returns ((result, e), w1) \<Rightarrow>
                  Returns (finishResponse (base\<lparr>resp_risk := def_risk (ro_definition oper)\<rparr>)
                             (case result of None \<Rightarrow> [] | Some m \<Rightarrow> m) e (h_clock w1), w1)
              | Panics \<Rightarrow> Panics
              | Diverges \<Rightarrow> Diverges))"

subsection \<open>Approved plans\<close>

fun exactParameters :: "smap \<Rightarrow> parameter list \<Rightarrow> problem + smap" where
  "exactParameters m [] = Inr m"
| "exactParameters m (p # ps) =
     (let name = trimSpace (param_name p) in
      if name = [] then Inl (mkProblem ''invalid_plan'' ''operation plan contains an empty parameter name'')
      else if map_of m name \<noteq> None then Inl (mkProblem ''invalid_plan'' ''operation plan contains duplicate parameters'')
      else exactParameters (AList.update name (param_value p) m) ps)"

definition exactPlanParameters :: "operation_plan \<Rightarrow> problem + smap" where
  "exactPlanParameters plan = exactParameters [] (plan_parameters plan)"

definition planRequestOf :: "operation_plan \<Rightarrow> smap \<Rightarrow> operation_request" where
  "planRequestOf plan params =
     \<lparr>req_id = plan_request_id plan, req_action = plan_action plan, req_actor = actor_id (plan_actor plan),
      req_parameters = params, req_confirmation = []\<rparr>"

definition planTimeProblem :: "gotime \<Rightarrow> operation_plan \<Rightarrow> problem option" where
  "planTimeProblem now plan =
     (if plan_created_at plan = 0 \<or> plan_expires_at plan = 0 \<or> \<not> plan_created_at plan < plan_expires_at plan then
        Some (mkProblem ''invalid_plan_time'' ''operation plan time bounds are invalid'')
      else if now + 30 * second < plan_created_at plan \<or> \<not> now < plan_expires_at plan then
        Some (mkProblem ''expired_plan'' ''operation plan is stale or expired'')
      else if 15 * minute < plan_expires_at plan - plan_created_at plan then
        Some (mkProblem ''invalid_plan_time'' ''operation plan lifetime exceeds policy'')
      else None)"

definition validateApprovedPlan :: "registry \<Rightarrow> gotime \<Rightarrow> operation_plan \<Rightarrow> problem option" where
  "validateApprovedPlan reg now plan =
     (if plan_schema plan \<noteq> PlanSchema \<or> \<not> plan_valid plan \<or> \<not> plan_requires_confirmation plan then
        Some (mkProblem ''invalid_plan'' ''operation plan is not executable'')
      else if \<not> verifyPlanDigest plan then
        Some (mkProblem ''invalid_plan_digest'' ''operation plan digest verification failed'')
      else if trimSpace (plan_id plan) = [] \<or> trimSpace (actor_id (plan_actor plan)) = [] \<or> trimSpace (plan_session_id plan) = [] then
        Some (mkProblem ''invalid_plan'' ''operation plan identity or correlation data is missing'')
      else case planTimeProblem now plan of
        Some p \<Rightarrow> Some p
      | None \<Rightarrow>
          (case exactPlanParameters plan of
             Inl p \<Rightarrow> Some p
           | Inr params \<Rightarrow>
               (case validate reg (planRequestOf plan params) False of
                  Inl p \<Rightarrow> Some p
                | Inr oper \<Rightarrow>
                    if \<not> def_requires_confirmation (ro_definition oper) \<or> def_risk (ro_definition oper) \<noteq> plan_risk plan then
                      Some (mkProblem ''stale_plan_policy'' ''operation policy changed after the plan was created'')
                    else None)))"

definition mayMutate :: "actor \<Rightarrow> bool" where
  "mayMutate a \<longleftrightarrow> \<not> (kind a = ActorTCI \<or> \<not> hasPermission a PermissionOperationMutate)"

definition withPlanIdentity :: "operation_plan \<Rightarrow> actor \<Rightarrow> anymap option \<Rightarrow> anymap" where
  "withPlanIdentity plan executor result =
     AList.update ''plan_digest'' (GStr (plan_digest plan))
      (AList.update ''plan_id'' (GStr (plan_id plan))
       (AList.update ''plan_actor_id'' (GStr (actor_id (plan_actor plan)))
        (AList.update ''executor_actor_id'' (GStr (actor_id executor)) (case result of None \<Rightarrow> [] | Some m \<Rightarrow> m))))"

definition executeApproved ::
  "host_env \<Rightarrow> registry \<Rightarrow> (nat \<Rightarrow> bytes option) \<Rightarrow> go_context \<Rightarrow> operation_plan \<Rightarrow> actor \<Rightarrow> host \<Rightarrow> (operation_response \<times> host) outcome" where
  "executeApproved env reg rnd ctx plan executor w =
     (let now = h_clock w;
          base = newResponse (requestIDOr (plan_request_id plan) (rnd 1) now) (plan_action plan) (newID ''audit'' (rnd 0) now) now
      in if \<not> mayMutate executor then
           Returns (base\<lparr>resp_error := Some (mkProblem ''mutation_forbidden'' ''executor is not authorized for service mutations''),
                         resp_finished_at := now\<rparr>, w)
         else case validateApprovedPlan reg now plan of
           Some p \<Rightarrow> Returns (base\<lparr>resp_error := Some p, resp_finished_at := now\<rparr>, w)
         | None \<Rightarrow>
             (let params = (case exactPlanParameters plan of Inl _ \<Rightarrow> [] | Inr m \<Rightarrow> m);
                  oper = (case map_of (reg_operations reg) (plan_action plan) of None \<Rightarrow> zeroOperation | Some x \<Rightarrow> x)
              in case runHandler env reg (ro_handler oper) ctx (planRequestOf plan params) w of
                   Returns ((result, e), w1) \<Rightarrow>
                     Returns (finishResponse (base\<lparr>resp_risk := def_risk (ro_definition oper)\<rparr>)
                                (withPlanIdentity plan executor result) e (h_clock w1), w1)
                 | Panics \<Rightarrow> Panics
                 | Diverges \<Rightarrow> Diverges))"

subsection \<open>The polling loop\<close>

text \<open>The verb of a lifecycle action.\<close>

definition verb_of :: "string \<Rightarrow> string" where
  "verb_of action = drop 8 action"

text \<open>
  What it means that a wait from \<open>w\<close> to \<open>w'\<close> ended well: after some observations a status probe of the unit
  returned a state, which has the expected value; if a health check is due it followed at once and passed;
  nothing happened after that.
\<close>

definition settled_state ::
  "(host_call \<Rightarrow> bool) \<Rightarrow> probe_api \<Rightarrow> health_checker \<Rightarrow> go_context \<Rightarrow> string \<Rightarrow> string \<Rightarrow> string \<Rightarrow> anymap option \<Rightarrow> host \<Rightarrow> host \<Rightarrow> bool" where
  "settled_state observes probe health ctx u url expected post w w' \<longleftrightarrow>
     (\<exists>s wa wb. post = Some s \<and> stateValue s ''active_state'' = expected \<and> adds observes w wa \<and> pr_status probe ctx u wa = (Inr s, wb) \<and>
        (if expected = ''active'' \<and> url \<noteq> [] then health ctx url wb = (None, w') else w' = wb))"

lemma settled_state_earlier:
  "adds observes v w \<Longrightarrow> settled_state observes probe health ctx u url expected post w w' \<Longrightarrow>
   settled_state observes probe health ctx u url expected post v w'"
  unfolding settled_state_def by (blast intro: adds_trans)

text \<open>The measure of the loop under a context done at \<open>d\<close>: ticks left before \<open>d\<close>, then one late tick at most.\<close>

definition ticks_left :: "gotime \<Rightarrow> gotime \<Rightarrow> duration \<Rightarrow> nat \<Rightarrow> host \<Rightarrow> nat" where
  "ticks_left d t0 p r w =
     (if h_clock w < d then 2 + fired t0 p d - r else if r < fired t0 p (h_clock w) then 1 else 0)"

lemma ticks_left_decreases:
  assumes "ctx_done ctx = Some d" "0 < p" "adds P w w1" "ctxErr ctx (h_clock w) \<Longrightarrow> h_clock w1 = h_clock w"
    and "selectTick env ctx t0 p r w1 = (Some r', w2)" "r \<le> fired t0 p (h_clock w)"
  shows "ticks_left d t0 p r' w2 < ticks_left d t0 p r w"
proof -
  from assms(5,2) have t: "r' = fired t0 p (h_clock w2)" "r < r'" "later w1 w2" "ctxErr ctx (h_clock w1) \<Longrightarrow> h_clock w2 = h_clock w1"
    by (auto elim: selectTick_cases)
  have err: "ctxErr ctx x \<longleftrightarrow> d \<le> x" for x using assms(1) by (simp add: ctxErr_def)
  show ?thesis
  proof (cases "h_clock w < d")
    case True
    have "fired t0 p (h_clock w2) \<le> fired t0 p d" if "h_clock w2 < d" using fired_mono [OF assms(2)] that by simp
    moreover have "r \<le> fired t0 p d" using assms(6) fired_mono [OF assms(2), of "h_clock w" d t0] True by simp
    ultimately show ?thesis using True t(1,2) by (auto simp: ticks_left_def)
  next
    case False
    with assms(4) have "h_clock w1 = h_clock w" by (simp add: err)
    moreover from this False t(4) have "h_clock w2 = h_clock w" by (simp add: err)
    ultimately show ?thesis using False t(1,2) by (simp add: ticks_left_def)
  qed
qed

text \<open>Every call that is not a mere observation.\<close>

definition mutation :: "(host_call \<Rightarrow> bool) \<Rightarrow> host_call \<Rightarrow> bool" where
  "mutation observes c \<longleftrightarrow> \<not> observes c"

definition recovery_statuses :: "string list" where
  "recovery_statuses = [''failed'', ''not_defined'', ''succeeded'']"

text \<open>The action \<open>as\<close> was executed, and then a wait that started right after it settled on the state \<open>s\<close>.\<close>

definition verified_after ::
  "(host_call \<Rightarrow> bool) \<Rightarrow> probe_api \<Rightarrow> health_checker \<Rightarrow> go_context \<Rightarrow> string \<Rightarrow> string \<Rightarrow> string \<Rightarrow> host_call list \<Rightarrow> anymap \<Rightarrow> host \<Rightarrow> host \<Rightarrow> bool" where
  "verified_after observes probe health ctx u url expected as s w w' \<longleftrightarrow>
     (\<exists>w1. grows (mutation observes) w w1 as \<and> settled_state observes probe health ctx u url expected (Some s) w1 w')"

text \<open>
  What a transaction reports and did: \<open>as\<close> is the requested action as executed (if it was), \<open>rs\<close> the recovery
  action (if there was one).
\<close>

definition txn_report ::
  "(host_call \<Rightarrow> bool) \<Rightarrow> probe_api \<Rightarrow> health_checker \<Rightarrow> go_context \<Rightarrow> string \<Rightarrow> string \<Rightarrow> string \<Rightarrow> anymap option \<Rightarrow> op_error option \<Rightarrow>
   host_call list \<Rightarrow> host_call list \<Rightarrow> host \<Rightarrow> host \<Rightarrow> bool" where
  "txn_report observes probe health ctx u url expected result e as rs w w' \<longleftrightarrow>
     (case e of
        None \<Rightarrow>
          as \<noteq> [] \<and> rs = [] \<and>
          (\<exists>m s. result = Some m \<and> map_of m ''postcondition'' = Some (GMap s) \<and>
             verified_after observes probe health ctx u url expected as s w w' \<and>
             map_of m ''postcondition_verified'' = Some (GBool True) \<and> map_of m ''recovery_status'' = Some (GStr ''not_required'') \<and>
             (expected = ''active'' \<and> url \<noteq> [] \<longrightarrow> map_of m ''health_verified'' = Some (GBool True)))
      | Some err \<Rightarrow>
          (\<exists>msg. err = OperationError ''service_precondition_failed'' msg) \<and> result = None \<and> as = [] \<and> rs = [] \<or>
          (\<exists>msg m status. err = OperationError ''service_action_failed'' msg \<and> result = Some m \<and> status \<in> set recovery_statuses \<and>
             map_of m ''recovery_status'' = Some (GStr status)) \<or>
          (\<exists>msg m. err = OperationError ''service_postcondition_failed'' msg \<and> result = Some m \<and> as \<noteq> [] \<and> rs = [] \<and>
             ctxErr ctx (h_clock w') \<and> map_of m ''recovery_status'' = Some (GStr ''failed'')))"

lemma txn_report_earlier:
  assumes "grows (mutation observes) v w []" "txn_report observes probe health ctx u url expected result e as rs w w'"
  shows "txn_report observes probe health ctx u url expected result e as rs v w'"
proof -
  have "verified_after observes probe health ctx u url expected as s v w'"
    if "verified_after observes probe health ctx u url expected as s w w'" for s
    using that grows_trans [OF assms(1)] unfolding verified_after_def by fastforce
  with assms(2) show ?thesis unfolding txn_report_def by (auto split: option.splits)
qed

context service_interfaces
begin

lemma apply_acts:
  "applyServiceAction mutator ctx action u w = (e, w') \<Longrightarrow> acted (mutates (verb_of action) u) e w w'"
  using start_acts stop_acts restart_acts
  by (auto simp: applyServiceAction_def verb_of_def acted_def split: if_splits)

lemma poll_adds:
  "pollOnce probe health ctx u url expected w = (x, w') \<Longrightarrow> adds observes w w'"
  by (auto simp: pollOnce_def split: prod.splits sum.splits if_splits dest: status_adds health_adds
      intro: adds_trans [of observes, OF status_adds health_adds])

lemma poll_expired:
  "pollOnce probe health ctx u url expected w = ((st, ok), w') \<Longrightarrow> ctxErr ctx (h_clock w) \<Longrightarrow> \<not> ok \<and> h_clock w' = h_clock w"
  by (auto simp: pollOnce_def split: prod.splits sum.splits if_splits dest: status_expired)

lemma poll_settled:
  "pollOnce probe health ctx u url expected w = ((st, True), w') \<Longrightarrow>
   settled_state observes probe health ctx u url expected st w w'"
  by (auto simp: pollOnce_def settled_state_def split: prod.splits sum.splits if_splits) (use adds_refl in blast)+

lemma waitLoop_returns:
  assumes "ctx_done ctx = Some d" "0 < p" "r \<le> fired t0 p (h_clock w)"
  shows "\<exists>post ok w'. waitLoop env probe health ctx u url expected p t0 r seen w = Some ((post, ok), w') \<and> adds observes w w' \<and>
    (if ok then settled_state observes probe health ctx u url expected post w w' else ctxErr ctx (h_clock w'))"
  using assms(3)
proof (induction "ticks_left d t0 p r w" arbitrary: r seen w rule: less_induct)
  case less
  obtain st settled w1 where poll: "pollOnce probe health ctx u url expected w = ((st, settled), w1)"
    by (metis prod.exhaust)
  obtain t w2 where sel: "selectTick env ctx t0 p r w1 = (t, w2)" by force
  let ?seen = "if st = None then seen else st"
  have step: "adds observes w w2"
    using poll_adds [OF poll] adds_selectTick [OF sel assms(2)] by (rule adds_trans)
  show ?case
  proof (cases settled)
    case True
    with poll poll_adds [OF poll] poll_settled [of ctx u url expected w st w1] show ?thesis
      by (subst waitLoop.simps) (auto simp: settled_state_def)
  next
    case False
    show ?thesis
    proof (cases t)
      case None
      with sel assms(2) have "ctxErr ctx (h_clock w2)" by (auto elim: selectTick_cases)
      with None False poll sel step show ?thesis by (subst waitLoop.simps) (auto simp: Let_def)
    next
      case (Some r')
      with sel assms(2) have "r' \<le> fired t0 p (h_clock w2)" by (auto elim: selectTick_cases)
      moreover have "ticks_left d t0 p r' w2 < ticks_left d t0 p r w"
        using poll_adds [OF poll] poll_expired [OF poll] sel Some less.prems
        by (intro ticks_left_decreases [OF assms(1,2)]) auto
      ultimately obtain post ok w' where
        "waitLoop env probe health ctx u url expected p t0 r' ?seen w2 = Some ((post, ok), w')" "adds observes w2 w'"
        "if ok then settled_state observes probe health ctx u url expected post w2 w' else ctxErr ctx (h_clock w')"
        using less.hyps by blast
      with poll sel False Some step show ?thesis by (subst waitLoop.simps) (auto intro: adds_trans settled_state_earlier)
    qed
  qed
qed

lemma wait_cases:
  assumes "0 < p" "ctx_done ctx = Some d"
  obtains post ok w' where "waitForServicePostcondition env probe health p ctx u url expected w = Returns ((post, ok), w')"
    "adds observes w w'" "if ok then settled_state observes probe health ctx u url expected post w w' else ctxErr ctx (h_clock w')"
proof -
  have "0 \<le> fired (h_clock w) p (h_clock w)" by simp
  from waitLoop_returns [OF assms(2,1) this, of env u url expected None] obtain post ok w' where
    "waitLoop env probe health ctx u url expected p (h_clock w) 0 None w = Some ((post, ok), w')" "adds observes w w'"
    "if ok then settled_state observes probe health ctx u url expected post w w' else ctxErr ctx (h_clock w')" by blast
  with assms(1) that show thesis by (simp add: waitForServicePostcondition_def)
qed

lemma observes_grows: "adds observes a b \<Longrightarrow> grows (mutation observes) a b []"
  by (erule adds_grows) (auto simp: mutation_def dest: disjoint)

lemma recover_cases:
  assumes "0 < p" "ctx_done ctx = Some d"
  obtains status w' rs where "recoverPrecondition env probe mutator health p ctx u pre w = Returns (status, w')"
    "grows (mutation observes) w w' rs" "length rs \<le> 1" "list_all (\<lambda>c. mutates ''start'' u c \<or> mutates ''stop'' u c) rs"
    "status \<in> set recovery_statuses" "ctxErr ctx (h_clock w) \<Longrightarrow> rs = [] \<and> status = ''failed'' \<and> w' = w"
proof (cases "ctxErr ctx (h_clock w) \<or> recoveryAction pre = None")
  case True
  then show thesis
    by (intro that [of "if ctxErr ctx (h_clock w) then ''failed'' else ''not_defined''" w "[]"])
      (auto simp: recoverPrecondition_def recovery_statuses_def)
next
  case False
  then obtain a where a: "recoveryAction pre = Some a" by auto
  obtain e w1 where act: "applyServiceAction mutator ctx a u w = (e, w1)" by force
  from acted_grows [OF apply_acts [OF act], of "mutation observes"] obtain rs where
    rs: "grows (mutation observes) w w1 rs" "length rs \<le> 1" "list_all (mutates (verb_of a) u) rs"
    by (auto simp: mutation_def dest: disjoint)
  have "verb_of a = ''start'' \<or> verb_of a = ''stop''"
    using a by (auto simp: recoveryAction_def verb_of_def split: if_splits)
  with rs(3) have kinds: "list_all (\<lambda>c. mutates ''start'' u c \<or> mutates ''stop'' u c) rs" by (auto simp: list_all_iff)
  obtain post ok w2 where wait:
    "waitForServicePostcondition env probe health p ctx u [] (expectedActiveState a) w1 = Returns ((post, ok), w2)" "adds observes w1 w2"
    using wait_cases [OF assms] by metis
  have "grows (mutation observes) w w2 rs"
    using grows_trans [OF rs(1) observes_grows [OF wait(2)]] by simp
  with False a act wait(1) rs kinds show thesis
    by (cases e)
      (auto intro!: that simp: recoverPrecondition_def recovery_statuses_def)
qed

lemma fail_cases:
  assumes "0 < p" "ctx_done ctx = Some d"
  obtains status w' rs where "failWithRecovery env probe mutator health p ctx u pre result e w =
      Returns ((Some (AList.update ''recovery_status'' (GStr status) result), Some e), w')"
    "grows (mutation observes) w w' rs" "length rs \<le> 1" "list_all (\<lambda>c. mutates ''start'' u c \<or> mutates ''stop'' u c) rs"
    "status \<in> set recovery_statuses" "ctxErr ctx (h_clock w) \<Longrightarrow> rs = [] \<and> status = ''failed'' \<and> w' = w"
proof -
  obtain status w' rs where "recoverPrecondition env probe mutator health p ctx u pre w = Returns (status, w')"
    "grows (mutation observes) w w' rs" "length rs \<le> 1" "list_all (\<lambda>c. mutates ''start'' u c \<or> mutates ''stop'' u c) rs"
    "status \<in> set recovery_statuses" "ctxErr ctx (h_clock w) \<Longrightarrow> rs = [] \<and> status = ''failed'' \<and> w' = w"
    by (rule recover_cases [OF assms, of env u pre w]) blast
  then show thesis by (intro that) (simp_all add: failWithRecovery_def)
qed

lemma act_cases:
  assumes "0 < p" "ctx_done ctx = Some d" "map_of result ''recovery_status'' = Some (GStr ''not_required'')"
  obtains res e w' as rs where "actAndVerify env probe mutator health p ctx action u url pre result w = Returns ((res, e), w')"
    "grows (mutation observes) w w' (as @ rs)" "length as \<le> 1" "list_all (mutates (verb_of action) u) as"
    "length rs \<le> 1" "list_all (\<lambda>c. mutates ''start'' u c \<or> mutates ''stop'' u c) rs"
    "txn_report observes probe health ctx u url (expectedActiveState action) res e as rs w w'"
proof -
  note obs = observes_grows
  obtain e w1 where act: "applyServiceAction mutator ctx action u w = (e, w1)" by force
  from acted_grows [OF apply_acts [OF act], of "mutation observes"] obtain as where
    as: "grows (mutation observes) w w1 as" "length as \<le> 1" "list_all (mutates (verb_of action) u) as" "e = None \<longrightarrow> as \<noteq> []"
    by (auto simp: mutation_def dest: disjoint)
  show thesis
  proof (cases e)
    case (Some x)
    obtain st w2 where st: "pr_status probe ctx u w1 = (st, w2)" by force
    let ?res = "AList.update ''postcondition'' (goMap (case st of Inl _ \<Rightarrow> None | Inr s \<Rightarrow> Some s)) result"
    obtain status w' rs where f: "failWithRecovery env probe mutator health p ctx u pre ?res
        (OperationError ''service_action_failed'' ''service action failed before the expected postcondition was reached'') w2 =
        Returns ((Some (AList.update ''recovery_status'' (GStr status) ?res), Some (OperationError ''service_action_failed''
          ''service action failed before the expected postcondition was reached'')), w')"
      and rs: "grows (mutation observes) w2 w' rs" "length rs \<le> 1" "list_all (\<lambda>c. mutates ''start'' u c \<or> mutates ''stop'' u c) rs"
      and status: "status \<in> set recovery_statuses"
      by (rule fail_cases [OF assms(1,2), of env u pre ?res _ w2]) blast
    have "grows (mutation observes) w w' (as @ rs)"
      using grows_trans [OF grows_trans [OF as(1) obs [OF status_adds [OF st]]] rs(1)] by simp
    with Some act st f as rs status show thesis by (intro that) (auto simp: actAndVerify_def txn_report_def)
  next
    case None
    obtain post ok w2 where wait:
      "waitForServicePostcondition env probe health p ctx u url (expectedActiveState action) w1 = Returns ((post, ok), w2)"
      "adds observes w1 w2"
      "if ok then settled_state observes probe health ctx u url (expectedActiveState action) post w1 w2 else ctxErr ctx (h_clock w2)"
      using wait_cases [OF assms(1,2)] by metis
    have g: "grows (mutation observes) w w2 as" using grows_trans [OF as(1) obs [OF wait(2)]] by simp
    show thesis
    proof (cases ok)
      case True
      with wait(3) obtain s where "post = Some s" "settled_state observes probe health ctx u url (expectedActiveState action) (Some s) w1 w2"
        by (auto simp: settled_state_def)
      then have "post = Some s" "verified_after observes probe health ctx u url (expectedActiveState action) as s w w2"
        using as(1) by (auto simp: verified_after_def)
      with True None act wait(1) as g assms(3) show thesis
        by (intro that [of _ None w2 as "[]"]) (auto simp: actAndVerify_def txn_report_def goMap_def Let_def)
    next
      case False
      let ?res = "AList.update ''postcondition'' (goMap post) result"
      let ?e = "OperationError ''service_postcondition_failed'' ''service did not reach the required postcondition before timeout''"
      obtain status w' rs where f: "failWithRecovery env probe mutator health p ctx u pre ?res ?e w2 =
          Returns ((Some (AList.update ''recovery_status'' (GStr status) ?res), Some ?e), w')"
        and "ctxErr ctx (h_clock w2) \<Longrightarrow> rs = [] \<and> status = ''failed'' \<and> w' = w2"
        by (rule fail_cases [OF assms(1,2), of env u pre ?res ?e w2]) blast
      moreover have "ctxErr ctx (h_clock w2)" using False wait(3) by simp
      ultimately show thesis using False None act wait(1) as g
        by (intro that [of _ "Some ?e" w2 as "[]"]) (auto simp: actAndVerify_def txn_report_def Let_def)
    qed
  qed
qed

lemma transaction_cases:
  assumes "reg_probe reg = probe" "reg_mutator reg = Some mutator" "reg_health reg = Some health" "0 < reg_poll_interval reg"
    and "map_of (reg_service_targets reg) u = Some target"
  obtains res e w' as rs where "runServiceTransaction env reg ctx action u w = Returns ((res, e), w')"
    "grows (mutation observes) w w' (as @ rs)" "length as \<le> 1" "list_all (mutates (verb_of action) u) as"
    "length rs \<le> 1" "list_all (\<lambda>c. mutates ''start'' u c \<or> mutates ''stop'' u c) rs"
    "txn_report observes probe health (withTimeout ctx (reg_transaction_timeout reg) (h_clock w)) u (tgt_health_url target)
       (expectedActiveState action) res e as rs w w'"
proof -
  let ?ctx = "withTimeout ctx (reg_transaction_timeout reg) (h_clock w)"
  obtain d where d: "ctx_done ?ctx = Some d" using withTimeout_done by blast
  obtain st w1 where st: "pr_status probe ?ctx u w = (st, w1)" by force
  note g1 = observes_grows [OF status_adds [OF st]]
  show thesis
  proof (cases st)
    case (Inl x)
    with st g1 assms show thesis
      by (intro that [of None _ w1 "[]" "[]"]) (auto simp: runServiceTransaction_def Let_def txn_report_def)
  next
    case (Inr pre)
    let ?pre = "stateValue pre ''active_state''"
    let ?init = "[(''action'', GStr action), (''unit'', GStr u), (''precondition'', GMap pre), (''recovery_status'', GStr ''not_required'')]"
    obtain r1 w2 where r1: "preHealth health ?ctx (tgt_health_url target) ?pre ?init w1 = (r1, w2)" by force
    then have g2: "grows (mutation observes) w1 w2 []" and ms: "map_of r1 ''recovery_status'' = Some (GStr ''not_required'')"
      by (auto simp: preHealth_def split: if_splits prod.splits dest!: health_adds intro: observes_grows)
    obtain res e w' as rs where
      run: "actAndVerify env probe mutator health (reg_poll_interval reg) ?ctx action u (tgt_health_url target) ?pre r1 w2 = Returns ((res, e), w')"
      and rest: "grows (mutation observes) w2 w' (as @ rs)" "length as \<le> 1" "list_all (mutates (verb_of action) u) as"
        "length rs \<le> 1" "list_all (\<lambda>c. mutates ''start'' u c \<or> mutates ''stop'' u c) rs"
        "txn_report observes probe health ?ctx u (tgt_health_url target) (expectedActiveState action) res e as rs w2 w'"
      by (rule act_cases [OF assms(4) d ms, of env action u "tgt_health_url target" ?pre w2]) blast
    have "runServiceTransaction env reg ctx action u w = Returns ((res, e), w')"
      using assms st Inr r1 run by (simp add: runServiceTransaction_def Let_def)
    moreover have "grows (mutation observes) w w' (as @ rs)"
      using grows_trans [OF grows_trans [OF g1 g2] rest(1)] by simp
    moreover have "grows (mutation observes) w w2 []" using grows_trans [OF g1 g2] by simp
    note txn_report_earlier [OF this rest(6)]
    ultimately show thesis using rest that by blast
  qed
qed

end

lemma transaction_not_allowed:
  "map_of (reg_service_targets reg) u = None \<Longrightarrow>
   runServiceTransaction env reg ctx action u w =
     Returns ((None, Some (OperationError ''service_not_allowlisted'' ''service is not in the mutation allowlist'')), w)"
  by (simp add: runServiceTransaction_def)

subsection \<open>Transactions on the native adapters\<close>

text \<open>The registry of a broker that runs on the host: the native adapters under an environment \<open>env\<close>.\<close>

definition native_registry :: "host_env \<Rightarrow> native \<Rightarrow> (string \<Rightarrow> parsed_url option) \<Rightarrow> policy \<Rightarrow> registry \<Rightarrow> bool" where
  "native_registry env n parse p reg \<longleftrightarrow>
     enabled_registry (nativeProbe env) (nativeMutator n env) (healthCheck parse env) p reg"

lemmas native_facts = enabled_registry_facts [of "nativeProbe env" "nativeMutator n env" "healthCheck parse env" p reg for env n parse p reg,
    folded native_registry_def]

lemma native_poll: "native_registry env n parse p reg \<Longrightarrow> 0 < reg_poll_interval reg"
  using native_facts(8) [of env n parse p reg] by (simp add: duration_defs)

lemma native_target:
  assumes "native_registry env n parse p reg" "policySpec p u = Some spec"
  shows "map_of (reg_service_targets reg) u = Some \<lparr>tgt_health_url = spec_health_url spec\<rparr>"
  using native_facts(5) [OF assms(1)] assms(2) by simp

lemma native_transaction:
  assumes "native_registry env n parse p reg" "policySpec p u = Some spec"
  obtains res e w' as rs where "runServiceTransaction env reg ctx action u w = Returns ((res, e), w')"
    "grows (mutation native_observes) w w' (as @ rs)" "length as \<le> 1" "list_all (native_mutates (verb_of action) u) as"
    "length rs \<le> 1" "list_all (\<lambda>c. native_mutates ''start'' u c \<or> native_mutates ''stop'' u c) rs"
    "txn_report native_observes (nativeProbe env) (healthCheck parse env) (withTimeout ctx (reg_transaction_timeout reg) (h_clock w)) u
       (spec_health_url spec) (expectedActiveState action) res e as rs w w'"
proof -
  let ?target = "\<lparr>tgt_health_url = spec_health_url spec\<rparr>"
  obtain res e w' as rs where "runServiceTransaction env reg ctx action u w = Returns ((res, e), w')"
    "grows (mutation native_observes) w w' (as @ rs)" "length as \<le> 1" "list_all (native_mutates (verb_of action) u) as"
    "length rs \<le> 1" "list_all (\<lambda>c. native_mutates ''start'' u c \<or> native_mutates ''stop'' u c) rs"
    "txn_report native_observes (nativeProbe env) (healthCheck parse env) (withTimeout ctx (reg_transaction_timeout reg) (h_clock w)) u
       (tgt_health_url ?target) (expectedActiveState action) res e as rs w w'"
    by (rule native_host.transaction_cases [OF native_facts(2,3,4) [OF assms(1)] native_poll [OF assms(1)] native_target [OF assms],
          of env ctx action w]) blast
  then show thesis using that by simp
qed

lemma grows_calls:
  assumes "grows (mutation observes) w w' xs"
  obtains cs where "h_calls w' = h_calls w @ cs" "filter (\<lambda>c. \<not> observes c) cs = xs"
  using assms by (auto simp: grows_def mutation_def [abs_def])

lemma grows_single:
  assumes "grows (mutation observes) w w' [c]"
  obtains before after where "h_calls w' = h_calls w @ before @ [c] @ after" "list_all observes before" "list_all observes after"
proof -
  from assms obtain cs where cs: "h_calls w' = h_calls w @ cs" "filter (\<lambda>c. \<not> observes c) cs = [c]" by (rule grows_calls)
  from cs(2) obtain xs ys where "cs = xs @ c # ys" "\<forall>x \<in> set xs. observes x" "filter (\<lambda>c. \<not> observes c) ys = []"
    by (auto dest!: filter_eq_ConsD)
  with cs(1) that show thesis by (auto simp: list_all_iff filter_empty_conv)
qed

lemma status_handler_returns:
  "\<exists>x w'. observed y = Returns (x, w') \<and> w' = snd y"
  by (cases y; cases "fst y") (auto simp: observed_def)

lemma native_handler_returns:
  assumes "native_registry env n parse p reg" "map_of (reg_operations reg) a = Some oper"
  shows "\<exists>x w'. runHandler env reg (ro_handler oper) ctx req w = Returns (x, w')"
proof -
  have txn: "\<exists>x w'. runServiceTransaction env reg ctx action u w = Returns (x, w')" for action u
  proof (cases "policySpec p u")
    case None
    then show ?thesis using native_facts(5) [OF assms(1)] by (simp add: transaction_not_allowed)
  next
    case (Some spec)
    show ?thesis by (rule native_transaction [OF assms(1) Some, of ctx action w]) blast
  qed
  from assms(2) have "\<exists>h. ro_handler oper = Some h"
    unfolding native_facts(1) [OF assms(1)] by (auto simp: enabledOperations_def split: if_splits)
  then obtain h where "ro_handler oper = Some h" ..
  then show ?thesis using status_handler_returns txn by (cases h) (simp_all add: runHandler_def, metis+)
qed

text \<open>
  C31. Execution ends. On a broker built from the native adapters, whatever the host answers, however long each
  process takes and however the runtime resolves a \<^verbatim>\<open>select\<close> with two ready branches, a service transaction and a
  direct execution return: no polling loop runs forever and nothing panics.
\<close>

theorem execution_terminates:
  assumes "native_registry env n parse p reg"
  shows "(\<exists>res e w'. runServiceTransaction env reg ctx action u w = Returns ((res, e), w')) \<and>
         (\<exists>resp w'. execute env reg rnd ctx req w = Returns (resp, w'))"
proof
  show "\<exists>res e w'. runServiceTransaction env reg ctx action u w = Returns ((res, e), w')"
  proof (cases "policySpec p u")
    case None
    then show ?thesis using native_facts(5) [OF assms] by (simp add: transaction_not_allowed)
  next
    case (Some spec)
    show ?thesis by (rule native_transaction [OF assms Some, of ctx action w]) blast
  qed
  show "\<exists>resp w'. execute env reg rnd ctx req w = Returns (resp, w')"
  proof (cases "validate reg req True")
    case (Inl x)
    then show ?thesis by (simp add: execute_def Let_def)
  next
    case (Inr oper)
    then have "map_of (reg_operations reg) (trimSpace (req_action req)) = Some oper" by (simp add: validate_Inr)
    from native_handler_returns [OF assms this, of ctx req w] Inr show ?thesis
      by (auto simp: execute_def Let_def split: prod.splits)
  qed
qed

text \<open>The calls of a transaction for an action on a unit.\<close>

definition service_commands :: "string \<Rightarrow> string \<Rightarrow> host_call list \<Rightarrow> bool" where
  "service_commands action u cs \<longleftrightarrow>
     (\<exists>as rs. filter (\<lambda>c. \<not> native_observes c) cs = as @ rs \<and>
       length as \<le> 1 \<and> list_all (\<lambda>c. \<exists>binary. c = Exec [binary, verb_of action, ''--'', u]) as \<and>
       length rs \<le> 1 \<and> list_all (\<lambda>c. \<exists>binary. c = Exec [binary, ''start'', ''--'', u] \<or> c = Exec [binary, ''stop'', ''--'', u]) rs \<and>
       (if u \<in> fst ` set compiledServices then rx_match unitPattern u \<or> as @ rs = [] else cs = []))"

lemma service_commands_Nil [simp]: "service_commands action u []"
  by (auto simp: service_commands_def)

lemma transaction_calls:
  assumes "native_registry env n parse p reg" "policy_ok p"
    and "runServiceTransaction env reg ctx action u w = Returns (x, w')"
  shows "h_clock w \<le> h_clock w' \<and> (\<exists>cs. h_calls w' = h_calls w @ cs \<and> service_commands action u cs)"
proof (cases "policySpec p u")
  case None
  with assms(3) native_facts(5) [OF assms(1)] have "w' = w" by (simp add: transaction_not_allowed)
  then show ?thesis by simp
next
  case (Some spec)
  obtain res e v as rs where run: "runServiceTransaction env reg ctx action u w = Returns ((res, e), v)"
    and g: "grows (mutation native_observes) w v (as @ rs)"
    and as: "length as \<le> 1" "list_all (native_mutates (verb_of action) u) as"
    and rs: "length rs \<le> 1" "list_all (\<lambda>c. native_mutates ''start'' u c \<or> native_mutates ''stop'' u c) rs"
    by (rule native_transaction [OF assms(1) Some, of ctx action w]) blast
  from g obtain cs where "h_calls v = h_calls w @ cs" "filter (\<lambda>c. \<not> native_observes c) cs = as @ rs" by (rule grows_calls)
  moreover from run assms(3) have "v = w'" by simp
  moreover have "map_of compiledServices u = Some spec"
    using assms(2) Some by (auto simp: policy_ok_def policySpec_def map_le_def dom_def)
  then have "u \<in> fst ` set compiledServices" by (metis domI dom_map_of_conv_image_fst)
  moreover have "rx_match unitPattern u \<or> as @ rs = []"
    using as(2) rs(2) by (cases as; cases rs) (auto simp: native_mutates_def)
  moreover have "list_all (\<lambda>c. \<exists>binary. c = Exec [binary, verb_of action, ''--'', u]) as"
    using as(2) by (auto simp: list_all_iff native_mutates_def)
  moreover have "list_all (\<lambda>c. \<exists>binary. c = Exec [binary, ''start'', ''--'', u] \<or> c = Exec [binary, ''stop'', ''--'', u]) rs"
    using rs(2) by (auto simp: list_all_iff native_mutates_def)
  moreover have "h_clock w \<le> h_clock v" using g by (simp add: grows_def)
  ultimately show ?thesis using as(1) rs(1) unfolding service_commands_def by auto
qed

text \<open>
  C32. What a transaction runs. Apart from status probes and health requests a transaction starts at most two
  processes: the requested verb and then possibly one recovery, both of the form \<^verbatim>\<open>systemctl VERB -- UNIT\<close> for
  the unit of the request, and it touches the host only for a unit compiled into the program.
\<close>

theorem transaction_commands:
  assumes "native_registry env n parse p reg" "policy_ok p"
    and "runServiceTransaction env reg ctx action u w = Returns (x, w')"
  shows "\<exists>cs as rs. h_calls w' = h_calls w @ cs \<and> filter (\<lambda>c. \<not> native_observes c) cs = as @ rs \<and>
    length as \<le> 1 \<and> list_all (\<lambda>c. \<exists>binary. c = Exec [binary, verb_of action, ''--'', u]) as \<and>
    length rs \<le> 1 \<and> list_all (\<lambda>c. \<exists>binary. c = Exec [binary, ''start'', ''--'', u] \<or> c = Exec [binary, ''stop'', ''--'', u]) rs \<and>
    (if u \<in> fst ` set compiledServices then rx_match unitPattern u \<or> as @ rs = [] else cs = [])"
  using transaction_calls [OF assms] unfolding service_commands_def by blast

text \<open>The calls behind a settled wait on the native adapters, read off the end of the log.\<close>

lemma native_settled:
  assumes "settled_state native_observes (nativeProbe env) (healthCheck parse env) ctx u url expected (Some s) w w'"
  obtains during path out err k where "list_all native_observes during" "he_exec env k (path # statusArgs u) = Exited True out err"
    "parseStatus u out = Inr s" "stateValue s ''active_state'' = expected"
    "if expected = ''active'' \<and> url \<noteq> []
     then \<exists>target. parse url = Some target \<and> he_get env (Suc k) (url_text target) = Some 200 \<and> h_step w' = Suc (Suc k) \<and>
       h_calls w' = h_calls w @ during @ [Exec (path # statusArgs u), HttpGet (url_text target)]
     else h_step w' = Suc k \<and> h_calls w' = h_calls w @ during @ [Exec (path # statusArgs u)]"
proof -
  from assms obtain wa wb where s: "stateValue s ''active_state'' = expected" and a: "adds native_observes w wa"
    and st: "serviceStatus env ctx u wa = (Inr s, wb)"
    and h: "if expected = ''active'' \<and> url \<noteq> [] then healthCheck parse env ctx url wb = (None, w') else w' = wb"
    by (auto simp: settled_state_def nativeProbe_def)
  from a obtain during where d: "h_calls wa = h_calls w @ during" "list_all native_observes during" by (auto simp: adds_def)
  from st obtain path out err k where k: "h_calls wb = h_calls wa @ [Exec (path # statusArgs u)]" "h_step wb = Suc k"
    "he_exec env k (path # statusArgs u) = Exited True out err" "parseStatus u out = Inr s"
    by (rule serviceStatus_ok)
  show thesis
  proof (rule that [OF d(2) k(3,4) s])
    show "if expected = ''active'' \<and> url \<noteq> []
     then \<exists>target. parse url = Some target \<and> he_get env (Suc k) (url_text target) = Some 200 \<and> h_step w' = Suc (Suc k) \<and>
       h_calls w' = h_calls w @ during @ [Exec (path # statusArgs u), HttpGet (url_text target)]
     else h_step w' = Suc k \<and> h_calls w' = h_calls w @ during @ [Exec (path # statusArgs u)]"
      using h healthCheck_host(3) [of parse env ctx url wb None w'] k(1,2) d(1) by (auto split: if_splits)
  qed
qed

text \<open>
  C33. A transaction that reports success verified its postcondition, in this run and after the action. The
  processes it started are: observations, then the requested verb, then observations of which the last one is a
  status probe of the unit; that probe exited with status 0 and the reported postcondition is what its output
  says, with the expected state. Without a health URL, or for a stop, this probe is the last thing the
  transaction did; for an active target with a health URL the last thing is the request to that URL right
  after it, which was answered 200. (\<open>k\<close> counts the interactions with the host: the probe was number \<open>k\<close>, and the
  run ended with it or with the request that follows.)
\<close>

theorem transaction_success_verified:
  assumes "native_registry env n parse p reg" "policySpec p u = Some spec"
    and "runServiceTransaction env reg ctx action u w = Returns ((res, None), w')"
  shows "\<exists>m s before binary during path out err k.
    res = Some m \<and> map_of m ''postcondition'' = Some (GMap s) \<and>
    stateValue s ''active_state'' = (if action = ''service.stop'' then ''inactive'' else ''active'') \<and>
    map_of m ''postcondition_verified'' = Some (GBool True) \<and> map_of m ''recovery_status'' = Some (GStr ''not_required'') \<and>
    list_all native_observes before \<and> list_all native_observes during \<and>
    he_exec env k (path # statusArgs u) = Exited True out err \<and> parseStatus u out = Inr s \<and>
    (if action = ''service.stop'' \<or> spec_health_url spec = []
     then h_step w' = Suc k \<and>
       h_calls w' = h_calls w @ before @ [Exec [binary, verb_of action, ''--'', u]] @ during @ [Exec (path # statusArgs u)]
     else map_of m ''health_verified'' = Some (GBool True) \<and>
       (\<exists>target. parse (spec_health_url spec) = Some target \<and> he_get env (Suc k) (url_text target) = Some 200 \<and> h_step w' = Suc (Suc k) \<and>
          h_calls w' = h_calls w @ before @ [Exec [binary, verb_of action, ''--'', u]] @ during @
            [Exec (path # statusArgs u), HttpGet (url_text target)]))"
proof -
  obtain r e v as rs where run: "runServiceTransaction env reg ctx action u w = Returns ((r, e), v)"
    and as: "length as \<le> 1" "list_all (native_mutates (verb_of action) u) as"
    and report: "txn_report native_observes (nativeProbe env) (healthCheck parse env) (withTimeout ctx (reg_transaction_timeout reg) (h_clock w)) u
       (spec_health_url spec) (expectedActiveState action) r e as rs w v"
    by (rule native_transaction [OF assms(1,2), of ctx action w]) blast
  from run assms(3) have eq: "r = res" "e = None" "v = w'" by auto
  let ?need = "expectedActiveState action = ''active'' \<and> spec_health_url spec \<noteq> []"
  from report eq obtain m s w1 where m: "as \<noteq> []" "res = Some m" "map_of m ''postcondition'' = Some (GMap s)"
    "map_of m ''postcondition_verified'' = Some (GBool True)" "map_of m ''recovery_status'' = Some (GStr ''not_required'')"
    "?need \<longrightarrow> map_of m ''health_verified'' = Some (GBool True)"
    and g: "grows (mutation native_observes) w w1 as"
    and settled: "settled_state native_observes (nativeProbe env) (healthCheck parse env) (withTimeout ctx (reg_transaction_timeout reg) (h_clock w)) u
       (spec_health_url spec) (expectedActiveState action) (Some s) w1 w'"
    by (auto simp: txn_report_def verified_after_def)
  from m(1) as obtain binary where b: "as = [Exec [binary, verb_of action, ''--'', u]]"
    by (cases as) (auto simp: native_mutates_def)
  from g b obtain before after where cs: "h_calls w1 = h_calls w @ before @ [Exec [binary, verb_of action, ''--'', u]] @ after"
    "list_all native_observes before" "list_all native_observes after" by (auto elim!: grows_single)
  from settled obtain during path out err k where k: "list_all native_observes during"
    "he_exec env k (path # statusArgs u) = Exited True out err" "parseStatus u out = Inr s"
    "stateValue s ''active_state'' = expectedActiveState action"
    "if ?need
     then \<exists>target. parse (spec_health_url spec) = Some target \<and> he_get env (Suc k) (url_text target) = Some 200 \<and> h_step w' = Suc (Suc k) \<and>
       h_calls w' = h_calls w1 @ during @ [Exec (path # statusArgs u), HttpGet (url_text target)]
     else h_step w' = Suc k \<and> h_calls w' = h_calls w1 @ during @ [Exec (path # statusArgs u)]"
    by (rule native_settled)
  have need: "?need \<longleftrightarrow> \<not> (action = ''service.stop'' \<or> spec_health_url spec = [])" by (simp add: expectedActiveState_def)
  show ?thesis
    by (rule exI [of _ m], rule exI [of _ s], rule exI [of _ before], rule exI [of _ binary], rule exI [of _ "after @ during"],
        rule exI [of _ path], rule exI [of _ out], rule exI [of _ err], rule exI [of _ k])
      (use m k cs in \<open>simp add: need expectedActiveState_def [symmetric] split: if_splits\<close>)
qed

text \<open>
  C34. Recovery after a timeout is never attempted. A transaction fails its postcondition only once its context
  is done, and recovery gives up at once under such a context: it reports \<^verbatim>\<open>failed\<close> although no recovery
  process was started, whatever the precondition was.
\<close>

theorem late_recovery_not_attempted:
  assumes "native_registry env n parse p reg"
    and "runServiceTransaction env reg ctx action u w = Returns ((res, Some (OperationError ''service_postcondition_failed'' msg)), w')"
  shows "\<exists>cs binary m. h_calls w' = h_calls w @ cs \<and>
    filter (\<lambda>c. \<not> native_observes c) cs = [Exec [binary, verb_of action, ''--'', u]] \<and>
    res = Some m \<and> map_of m ''recovery_status'' = Some (GStr ''failed'') \<and>
    ctxErr (withTimeout ctx (reg_transaction_timeout reg) (h_clock w)) (h_clock w')"
proof (cases "policySpec p u")
  case None
  with assms native_facts(5) [OF assms(1)] show ?thesis by (simp add: transaction_not_allowed)
next
  case (Some spec)
  obtain r e v as rs where run: "runServiceTransaction env reg ctx action u w = Returns ((r, e), v)"
    and g: "grows (mutation native_observes) w v (as @ rs)"
    and as: "length as \<le> 1" "list_all (native_mutates (verb_of action) u) as"
    and report: "txn_report native_observes (nativeProbe env) (healthCheck parse env) (withTimeout ctx (reg_transaction_timeout reg) (h_clock w)) u
       (spec_health_url spec) (expectedActiveState action) r e as rs w v"
    by (rule native_transaction [OF assms(1) Some, of ctx action w]) blast
  from g obtain cs where cs: "h_calls v = h_calls w @ cs" "filter (\<lambda>c. \<not> native_observes c) cs = as @ rs" by (rule grows_calls)
  from run assms(2) have eq: "r = res" "e = Some (OperationError ''service_postcondition_failed'' msg)" "v = w'" by auto
  from report eq obtain m where m: "as \<noteq> []" "rs = []" "res = Some m" "map_of m ''recovery_status'' = Some (GStr ''failed'')"
    "ctxErr (withTimeout ctx (reg_transaction_timeout reg) (h_clock w)) (h_clock w')"
    by (auto simp: txn_report_def)
  from m(1) as obtain binary where "as = [Exec [binary, verb_of action, ''--'', u]]"
    by (cases as) (auto simp: native_mutates_def)
  then show ?thesis using cs m eq by auto
qed

subsection \<open>A concrete broker\<close>

text \<open>
  An environment in which \<^verbatim>\<open>systemctl\<close> reports a fixed state and the health endpoint answers 200, with the
  default policy; when \<open>slow\<close> holds the first probe after the action takes 40 seconds.
\<close>

definition demoLib :: go_lib where
  "demoLib = \<lparr>lib_regexp = (\<lambda>t. if t = serviceUnitPatternText then Some (rx_match unitPattern) else None), lib_quote = (\<lambda>s. s)\<rparr>"

definition demoEnv :: "string \<Rightarrow> bool \<Rightarrow> host_env" where
  "demoEnv state slow =
     \<lparr>he_look_path = (\<lambda>_ _. Some ''/usr/bin/systemctl''),
      he_exec = (\<lambda>_ argv. Exited True (''ActiveState='' @ state @ [CHR 0x0A]) []),
      he_get = (\<lambda>_ _. Some 200), he_cost = (\<lambda>k. if slow \<and> k = 5 then 40000000000 else 0), he_choice = (\<lambda>_. True),
      he_hostname = (\<lambda>_. Inr ''host''), he_file = (\<lambda>_ _. None), he_goos = ''linux'', he_goarch = ''amd64'', he_cpus = 2,
      he_parse_float = (\<lambda>_. None)\<rparr>"

definition demoParse :: "string \<Rightarrow> parsed_url option" where
  "demoParse s = Some \<lparr>url_scheme = ''http'', url_host = ''127.0.0.1:11450'', url_hostname = ''127.0.0.1'', url_text = s\<rparr>"

definition demoRegistry :: "host_env \<Rightarrow> registry" where
  "demoRegistry env = snd (enableServiceMutations (Some (nativeMutator \<lparr>nat_binary = []\<rparr> env)) (Some (healthCheck demoParse env))
     defaultPolicy (30 * second) (250 * millisecond) (newRegistry (nativeProbe env) demoLib))"

definition demoHost :: host where
  "demoHost = \<lparr>h_clock = 63800000000 * second, h_step = 0, h_calls = []\<rparr>"


lemma demo_registry: "native_registry env \<lparr>nat_binary = []\<rparr> demoParse defaultPolicy (demoRegistry env)"
proof -
  have "enable_ok (Some m) (Some h) (30 * second) (250 * millisecond)" for m h by (simp add: enable_ok_def duration_defs)
  from enable_cases(2) [OF this] show ?thesis
    unfolding native_registry_def enabled_registry_def demoRegistry_def by (metis (no_types) snd_conv)
qed

lemma demo_timeouts:
  "reg_transaction_timeout (demoRegistry env) = 30 * second" "reg_poll_interval (demoRegistry env) = 250 * millisecond"
  using allowedUnits_targets [of defaultPolicy]
  by (auto simp: demoRegistry_def enableServiceMutations_def Let_def duration_defs registerService_def registerOp_def)

lemma demo_target:
  "map_of (reg_service_targets (demoRegistry env)) ''quantum-runtime.service'' = Some \<lparr>tgt_health_url = ''http://127.0.0.1:11450/healthz''\<rparr>"
  by (simp add: native_facts(5) [OF demo_registry] policySpec_def defaultPolicy_allowed compiledServices_def)

lemmas demo_fields = demo_timeouts demo_target native_facts(2,3,4) [OF demo_registry]

lemma demo_status:
  assumes "list_all graphic state" "list_all ascii state" "length state < 100"
  shows "parseStatus u (''ActiveState='' @ state @ [CHR 0x0A]) = Inr [(''unit'', GStr u), (''active_state'', GStr state)]"
proof -
  have "showProperties [(''ActiveState'', state)] = ''ActiveState='' @ state @ [CHR 0x0A]" by (simp add: showProperties_def)
  moreover have "CHR 0x0A \<notin> set state" "CHR 0x0D \<notin> set state" using assms(1) by (auto simp: list_all_iff graphic_def)
  then have "list_all printable_property [(''ActiveState'', state)]"
    using assms(3) by (simp add: printable_property_def maxScanTokenSize_def)
  ultimately have "scanLines (''ActiveState='' @ state @ [CHR 0x0A]) = ([''ActiveState='' @ state], True)"
    using scan_showProperties by fastforce
  moreover have "cut (CHR ''='') (''ActiveState='' @ state) = (''ActiveState'', state, True)"
    using cut_at [of "CHR ''=''" "''ActiveState''" state] by simp
  ultimately show ?thesis by (simp add: parseStatus_def statusLine_def snake_unit_properties)
qed


definition demoCtx :: go_context where
  "demoCtx = \<lparr>ctx_done = Some (63800000030 * second), ctx_cause = ''context deadline exceeded''\<rparr>"

lemma demo_ctx: "withTimeout background (30 * second) (h_clock demoHost) = demoCtx"
  by (simp add: withTimeout_def background_def demoHost_def demoCtx_def duration_defs)

lemma demo_unit: "rx_match unitPattern ''quantum-runtime.service''"
  by code_simp

lemma demo_stateValue:
  "stateValue [(''unit'', GStr u), (''active_state'', GStr ''active'')] ''active_state'' = ''active''"
  "stateValue [(''unit'', GStr u), (''active_state'', GStr ''inactive'')] ''active_state'' = ''inactive''"
proof -
  have "toLower (trimSpace ''active'') = ''active''" "toLower (trimSpace ''inactive'') = ''inactive''" by code_simp+
  then show "stateValue [(''unit'', GStr u), (''active_state'', GStr ''active'')] ''active_state'' = ''active''"
    "stateValue [(''unit'', GStr u), (''active_state'', GStr ''inactive'')] ''active_state'' = ''inactive''"
    by (simp_all add: stateValue_def)
qed

lemma demo_parse:
  "parseStatus u ''ActiveState=active\<newline>'' = Inr [(''unit'', GStr u), (''active_state'', GStr ''active'')]"
  "parseStatus u ''ActiveState=inactive\<newline>'' = Inr [(''unit'', GStr u), (''active_state'', GStr ''inactive'')]"
  using demo_status [of "''active''" u] demo_status [of "''inactive''" u] by (simp_all add: graphic_def ascii_def)


definition hostAt :: "nat \<Rightarrow> host_call list \<Rightarrow> host" where
  "hostAt k cs = \<lparr>h_clock = 63800000000 * second, h_step = k, h_calls = cs\<rparr>"

lemma hostAt_sel [simp]: "h_clock (hostAt k cs) = 63800000000 * second" "h_step (hostAt k cs) = k" "h_calls (hostAt k cs) = cs"
  by (simp_all add: hostAt_def)

lemma hostAt_step [simp]: "nextStep (hostAt k cs) = hostAt (Suc k) cs"
  by (simp add: hostAt_def nextStep_def)

lemma demo_fresh [simp]: "\<not> ctxErr demoCtx (63800000000 * second)"
  by (simp add: ctxErr_def demoCtx_def duration_defs)

lemma demo_called: "\<not> slow \<or> k \<noteq> 5 \<Longrightarrow> called (demoEnv st slow) c (hostAt k cs) = hostAt (Suc k) (cs @ [c])"
  by (simp add: called_def hostAt_def demoEnv_def)

lemma demo_run:
  "\<not> slow \<or> k \<noteq> 5 \<Longrightarrow> runProcess (demoEnv st slow) demoCtx argv (hostAt k cs) =
     (Exited True (''ActiveState='' @ st @ [CHR 0x0A]) [], hostAt (Suc k) (cs @ [Exec argv]))"
proof -
  have "he_exec (demoEnv st slow) k argv = Exited True (''ActiveState='' @ st @ [CHR 0x0A]) []" by (simp add: demoEnv_def)
  moreover assume "\<not> slow \<or> k \<noteq> 5"
  ultimately show ?thesis by (simp add: runProcess_def demo_called Let_def)
qed

lemma demo_look: "lookPath (demoEnv st slow) x (hostAt k cs) = (Some ''/usr/bin/systemctl'', hostAt (Suc k) cs)"
  by (simp add: lookPath_def) (simp add: demoEnv_def)

lemma demo_observe:
  "\<not> slow \<or> k \<noteq> 4 \<Longrightarrow> serviceStatus (demoEnv st slow) demoCtx u (hostAt k cs) =
     (parseStatus u (''ActiveState='' @ st @ [CHR 0x0A]), hostAt (Suc (Suc k)) (cs @ [Exec (''/usr/bin/systemctl'' # statusArgs u)]))"
  by (simp add: serviceStatus_def demo_look demo_run)

lemma demo_act:
  "\<not> slow \<or> k \<noteq> 4 \<Longrightarrow> nativeStart \<lparr>nat_binary = []\<rparr> (demoEnv st slow) demoCtx ''quantum-runtime.service'' (hostAt k cs) =
     (None, hostAt (Suc (Suc k)) (cs @ [Exec [''/usr/bin/systemctl'', ''start'', ''--'', ''quantum-runtime.service'']]))"
  by (simp add: nativeStart_def nativeRun_def validateUnit_def demo_unit demo_look execRun_def demo_run)

lemma demo_health:
  "healthCheck demoParse (demoEnv st False) demoCtx url (hostAt k cs) = (None, hostAt (Suc k) (cs @ [HttpGet url]))"
proof -
  obtain ip where "parseIP ''127.0.0.1'' = Some ip" "isLoopback ip" using address_examples(1) by auto
  then show ?thesis
    by (simp add: healthCheck_def demoParse_def httpGet_def demo_called Let_def) (simp add: demoEnv_def)
qed

lemma demo_late:
  "runProcess (demoEnv st True) demoCtx argv (hostAt 5 cs) =
     (Exited False (''ActiveState='' @ st @ [CHR 0x0A]) [],
      \<lparr>h_clock = 63800000040 * second, h_step = 6, h_calls = cs @ [Exec argv]\<rparr>)"
  by (simp add: runProcess_def Let_def called_def) (simp add: demoEnv_def demoCtx_def ctxErr_def duration_defs)

lemma demo_late_observe:
  "serviceStatus (demoEnv st True) demoCtx u (hostAt (Suc (Suc (Suc (Suc 0)))) cs) =
     (Inl ''systemctl status failed: '', \<lparr>h_clock = 63800000040 * second, h_step = 6, h_calls = cs @ [Exec (''/usr/bin/systemctl'' # statusArgs u)]\<rparr>)"
proof -
  have "Suc (Suc (Suc (Suc (Suc 0)))) = 5" by simp
  then show ?thesis by (simp only: serviceStatus_def demo_look demo_late prod.case option.case exec_result.case if_False trimSpace_Nil append_Nil2)
qed

lemma demo_expired: "ctxErr demoCtx (63800000040 * second)"
  by (simp add: ctxErr_def demoCtx_def duration_defs)

lemma millisecond_pos: "\<not> millisecond \<le> 0"
  by (simp add: millisecond_def)

lemma demo_choice: "he_choice (demoEnv st slow) k"
  by (simp add: demoEnv_def)

lemma demo_host: "demoHost = hostAt 0 []"
  by (simp add: demoHost_def hostAt_def)

lemma demo_select:
  "selectTick env demoCtx (63800000000 * second) (250 * millisecond) 0 \<lparr>h_clock = 63800000040 * second, h_step = k, h_calls = cs\<rparr> =
     (if he_choice env k then None else Some 160, \<lparr>h_clock = 63800000040 * second, h_step = Suc k, h_calls = cs\<rparr>)"
  by (simp add: selectTick_def wakeTime_def ctxErr_def demoCtx_def duration_defs fired_def Let_def)

lemmas demo_txn = runServiceTransaction_def demo_fields demo_ctx [unfolded demo_host, simplified] demo_host
  nativeProbe_def nativeMutator_def demo_observe demo_act demo_health demo_parse [simplified] demo_stateValue preHealth_def actAndVerify_def
  applyServiceAction_def waitForServicePostcondition_def expectedActiveState_def pollOnce_def goMap_def

lemma demo_success:
 "\<exists>m w'. runServiceTransaction (demoEnv ''active'' False) (demoRegistry (demoEnv ''active'' False)) background ''service.start'' ''quantum-runtime.service'' demoHost
   = Returns ((Some m, None), w')" 
  by (simp add: demo_txn millisecond_pos Let_def) (subst waitLoop.simps, simp add: demo_txn Let_def)

lemma demo_timeout:
 "\<exists>m w' msg. runServiceTransaction (demoEnv ''inactive'' True) (demoRegistry (demoEnv ''inactive'' True)) background ''service.start'' ''quantum-runtime.service'' demoHost
   = Returns ((Some m, Some (OperationError ''service_postcondition_failed'' msg)), w')" 
  by (simp add: demo_txn millisecond_pos Let_def)
    (subst waitLoop.simps, simp add: demo_txn Let_def demo_late_observe demo_select demo_choice failWithRecovery_def
      recoverPrecondition_def demo_expired)

theorem execution_terminates_witness:
  "\<exists>res e w'. runServiceTransaction (demoEnv ''failed'' True) (demoRegistry (demoEnv ''failed'' True)) background
     ''service.restart'' ''quantum-runtime.service'' demoHost = Returns ((res, e), w')"
  using execution_terminates [OF demo_registry] by blast

theorem transaction_commands_witness:
  "\<exists>m w' cs as rs. runServiceTransaction (demoEnv ''active'' False) (demoRegistry (demoEnv ''active'' False)) background
     ''service.start'' ''quantum-runtime.service'' demoHost = Returns ((Some m, None), w') \<and> h_calls w' = cs \<and>
     filter (\<lambda>c. \<not> native_observes c) cs = as @ rs \<and> length as \<le> 1 \<and> length rs \<le> 1"
proof -
  obtain m w' where run: "runServiceTransaction (demoEnv ''active'' False) (demoRegistry (demoEnv ''active'' False)) background
     ''service.start'' ''quantum-runtime.service'' demoHost = Returns ((Some m, None), w')" using demo_success by blast
  have "policy_ok defaultPolicy" by (rule loadPolicy_ok [of "[]"]) (simp add: loadPolicy_def)
  from transaction_commands [OF demo_registry this run] run show ?thesis by (auto simp: demo_host)
qed

theorem transaction_success_verified_witness:
  "\<exists>m w' s before during binary path. runServiceTransaction (demoEnv ''active'' False) (demoRegistry (demoEnv ''active'' False)) background
     ''service.start'' ''quantum-runtime.service'' demoHost = Returns ((Some m, None), w') \<and>
     map_of m ''postcondition'' = Some (GMap s) \<and> stateValue s ''active_state'' = ''active'' \<and>
     h_calls w' = before @ [Exec [binary, ''start'', ''--'', ''quantum-runtime.service'']] @ during @
       [Exec (path # statusArgs ''quantum-runtime.service''), HttpGet ''http://127.0.0.1:11450/healthz'']"
proof -
  let ?u = "''quantum-runtime.service''"
  let ?spec = "\<lparr>spec_unit = ?u, spec_health_url = ''http://127.0.0.1:11450/healthz''\<rparr>"
  obtain m w' where run: "runServiceTransaction (demoEnv ''active'' False) (demoRegistry (demoEnv ''active'' False)) background
     ''service.start'' ?u demoHost = Returns ((Some m, None), w')" using demo_success by blast
  have spec: "policySpec defaultPolicy ?u = Some ?spec"
    by (simp add: policySpec_def defaultPolicy_allowed compiledServices_def)
  have e: "(''service.start'' = ''service.stop'' \<or> spec_health_url ?spec = []) = False" "(''service.start'' = ''service.stop'') = False"
    "h_calls demoHost = []" "verb_of ''service.start'' = ''start''"
    by (simp_all add: demo_host verb_of_def)
  from transaction_success_verified [OF demo_registry spec run, unfolded e if_False append_Nil] run show ?thesis
    by (elim exE conjE) (auto simp: demoParse_def)
qed

theorem late_recovery_not_attempted_witness:
  "\<exists>m w' msg. runServiceTransaction (demoEnv ''inactive'' True) (demoRegistry (demoEnv ''inactive'' True)) background
     ''service.start'' ''quantum-runtime.service'' demoHost = Returns ((Some m, Some (OperationError ''service_postcondition_failed'' msg)), w') \<and>
     map_of m ''recovery_status'' = Some (GStr ''failed'') \<and> length (filter (\<lambda>c. \<not> native_observes c) (h_calls w')) = 1"
proof -
  obtain m w' msg where run: "runServiceTransaction (demoEnv ''inactive'' True) (demoRegistry (demoEnv ''inactive'' True)) background
     ''service.start'' ''quantum-runtime.service'' demoHost = Returns ((Some m, Some (OperationError ''service_postcondition_failed'' msg)), w')"
    using demo_timeout by blast
  from late_recovery_not_attempted [OF demo_registry run] run show ?thesis by (auto simp: demo_host)
qed

subsection \<open>The entry points\<close>

lemma service_actions_confirm:
  assumes "native_registry env n parse p reg" "map_of (reg_operations reg) a = Some oper"
  shows "trimSpace a = a" "ro_handler oper \<noteq> None" "def_implemented (ro_definition oper)"
    and "def_requires_confirmation (ro_definition oper) \<longleftrightarrow> a \<in> set [''service.start'', ''service.stop'', ''service.restart'']"
    and "\<not> def_requires_confirmation (ro_definition oper) \<Longrightarrow> ro_handler oper = Some SnapshotHandler \<or> ro_handler oper = Some StatusHandler"
proof -
  have "trimSpace ''system.snapshot'' = ''system.snapshot''" "trimSpace ''service.status'' = ''service.status''"
    "trimSpace ''service.start'' = ''service.start''" "trimSpace ''service.stop'' = ''service.stop''"
    "trimSpace ''service.restart'' = ''service.restart''" by code_simp+
  moreover have "map_of (enabledOperations (allowedUnits p)) a = Some oper" using assms by (simp add: native_facts(1))
  ultimately show "trimSpace a = a" "ro_handler oper \<noteq> None" "def_implemented (ro_definition oper)"
    "def_requires_confirmation (ro_definition oper) \<longleftrightarrow> a \<in> set [''service.start'', ''service.stop'', ''service.restart'']"
    "\<not> def_requires_confirmation (ro_definition oper) \<Longrightarrow> ro_handler oper = Some SnapshotHandler \<or> ro_handler oper = Some StatusHandler"
    by (auto simp: enabledOperations_def snapshotDefinition_def statusDefinition_def serviceDefinition_def split: if_splits)
qed

lemma observed_adds:
  assumes "native_registry env n parse p reg" "h = SnapshotHandler \<or> h = StatusHandler"
    and "runHandler env reg (Some h) ctx req w = Returns (x, w')"
  shows "adds native_observes w w'"
proof -
  have snd: "observed y = Returns (x, w') \<Longrightarrow> \<exists>z. y = (z, w')" for y
    using status_handler_returns [of y] by (cases y) auto
  from assms(2) show ?thesis
  proof
    assume "h = SnapshotHandler"
    with assms(3) have "observed (pr_snapshot (nativeProbe env) ctx w) = Returns (x, w')"
      by (simp add: runHandler_def native_facts(2) [OF assms(1)])
    from snd [OF this] show ?thesis using native_host.snapshot_adds by blast
  next
    assume "h = StatusHandler"
    with assms(3) have "observed (pr_status (nativeProbe env) (withTimeout ctx (10 * second) (h_clock w)) (unitParameter req) w) = Returns (x, w')"
      by (simp add: runHandler_def native_facts(2) [OF assms(1)])
    from snd [OF this] show ?thesis using native_host.status_adds by blast
  qed
qed

text \<open>
  The direct execution endpoint cannot mutate. Whatever the request, \<^verbatim>\<open>Execute\<close> starts nothing but status
  probes, and a request for one of the three service operations is rejected for want of a confirmation before
  anything happens on the host.
\<close>

theorem execute_only_observes:
  assumes "native_registry env n parse p reg" "execute env reg rnd ctx req w = Returns (resp, w')"
  shows "(\<exists>cs. h_calls w' = h_calls w @ cs \<and> list_all native_observes cs) \<and>
    (trimSpace (req_action req) \<in> set [''service.start'', ''service.stop'', ''service.restart''] \<longrightarrow>
      w' = w \<and> resp_status resp = ''rejected'' \<and> map_option prob_code (resp_error resp) = Some ''confirmation_verifier_required'')"
proof (cases "validate reg req True")
  case (Inl pr)
  with assms(2) have w': "w' = w" and resp: "resp_status resp = ''rejected''" "resp_error resp = Some pr"
    by (auto simp: execute_def Let_def newResponse_def)
  have "prob_code pr = ''confirmation_verifier_required''"
    if a: "trimSpace (req_action req) \<in> set [''service.start'', ''service.stop'', ''service.restart'']"
  proof -
    from a obtain oper where oper: "map_of (reg_operations reg) (trimSpace (req_action req)) = Some oper"
      unfolding native_facts(1) [OF assms(1)] by (auto simp: enabledOperations_def)
    from service_actions_confirm [OF assms(1) oper] a Inl oper show ?thesis
      by (auto simp: validate_def Let_def mkProblem_def split: if_splits)
  qed
  with w' resp show ?thesis by (auto intro: exI [of _ "[]"])
next
  case (Inr oper)
  then have oper: "map_of (reg_operations reg) (trimSpace (req_action req)) = Some oper" "\<not> def_requires_confirmation (ro_definition oper)"
    by (auto simp: validate_Inr)
  note h = service_actions_confirm(4,5) [OF assms(1) oper(1)] oper(2)
  from Inr assms(2) obtain x where "runHandler env reg (ro_handler oper) ctx req w = Returns (x, w')"
    by (auto simp: execute_def Let_def split: outcome.splits prod.splits)
  then have "adds native_observes w w'" using h observed_adds [OF assms(1)] by metis
  with h show ?thesis by (auto simp: adds_def)
qed

text \<open>
  C35. An approved plan whose action carries surrounding white space passes every check and then crashes the
  handler: \<^verbatim>\<open>ValidateApprovedPlan\<close> trims the action, \<^verbatim>\<open>ExecuteApproved\<close> looks it up untrimmed and calls the nil handler
  of a missing entry. Every other validated plan returns a response.
\<close>

theorem approved_plan_panics_iff_untrimmed:
  assumes "native_registry env n parse p reg" "mayMutate executor" "validateApprovedPlan reg (h_clock w) plan = None"
  shows "(executeApproved env reg rnd ctx plan executor w = Panics \<longleftrightarrow> trimSpace (plan_action plan) \<noteq> plan_action plan) \<and>
    executeApproved env reg rnd ctx plan executor w \<noteq> Diverges"
proof -
  from assms(3) obtain params oper where params: "exactPlanParameters plan = Inr params"
    and "validate reg (planRequestOf plan params) False = Inr oper"
    by (auto simp: validateApprovedPlan_def split: if_splits option.splits sum.splits)
  then have oper: "map_of (reg_operations reg) (trimSpace (plan_action plan)) = Some oper"
    by (simp add: validate_Inr planRequestOf_def)
  show ?thesis
  proof (cases "trimSpace (plan_action plan) = plan_action plan")
    case True
    with native_handler_returns [OF assms(1) oper, of ctx "planRequestOf plan params" w] oper assms(2,3) params
    show ?thesis by (auto simp: executeApproved_def Let_def split: prod.splits)
  next
    case False
    with service_actions_confirm(1) [OF assms(1)] have "map_of (reg_operations reg) (plan_action plan) = None"
      by (cases "map_of (reg_operations reg) (plan_action plan)") auto
    with False assms(2,3) params show ?thesis
      by (simp add: executeApproved_def Let_def zeroOperation_def runHandler_def)
  qed
qed

theorem execute_only_observes_witness:
  "\<exists>resp. execute (demoEnv ''active'' False) (demoRegistry (demoEnv ''active'' False)) (\<lambda>_. None) background
     \<lparr>req_id = ''r-1'', req_action = ''service.stop'', req_actor = ''human:ada'',
      req_parameters = [(''unit'', ''quantum-runtime.service'')], req_confirmation = ''yes''\<rparr> demoHost = Returns (resp, demoHost) \<and>
     resp_status resp = ''rejected''"
proof -
  let ?req = "\<lparr>req_id = ''r-1'', req_action = ''service.stop'', req_actor = ''human:ada'',
      req_parameters = [(''unit'', ''quantum-runtime.service'')], req_confirmation = ''yes''\<rparr>"
  have "trimSpace ''service.stop'' = ''service.stop''" by code_simp
  then have "\<exists>pr. validate (demoRegistry (demoEnv ''active'' False)) ?req True = Inl pr"
    by (simp add: validate_def native_facts(1) [OF demo_registry] enabledOperations_def serviceDefinition_def)
  then obtain resp w' where run: "execute (demoEnv ''active'' False) (demoRegistry (demoEnv ''active'' False)) (\<lambda>_. None) background ?req demoHost =
      Returns (resp, w')" by (auto simp: execute_def Let_def)
  from execute_only_observes [OF demo_registry run] run show ?thesis
    using \<open>trimSpace ''service.stop'' = ''service.stop''\<close> by simp
qed

definition demoPlan :: "string \<Rightarrow> operation_plan" where
  "demoPlan action =
     (let d = \<lparr>plan_schema = PlanSchema, plan_id = ''plan-1'', plan_digest = [], plan_request_id = ''r-1'', plan_session_id = ''s-1'',
               plan_actor = exampleNormal, plan_action = action,
               plan_parameters = [\<lparr>param_name = ''unit'', param_value = ''quantum-runtime.service''\<rparr>], plan_risk = RiskLow,
               plan_requires_confirmation = True, plan_valid = True, plan_created_at = 63800000000 * second,
               plan_expires_at = 63800000060 * second, plan_error_code = []\<rparr>
      in d\<lparr>plan_digest := planDigest d\<rparr>)"

definition demoExecutor :: actor where
  "demoExecutor = \<lparr>actor_id = ''service:exec'', kind = ActorService, display_name = ''Executor'', roles = [''mutator''],
     permissions = [PermissionOperationMutate]\<rparr>"

lemma demoExecutor_mutates: "mayMutate demoExecutor"
  by (simp add: mayMutate_def demoExecutor_def hasPermission_iff kind_defs)

lemma demoPlan_sel [simp]:
  "plan_schema (demoPlan a) = PlanSchema" "plan_valid (demoPlan a)" "plan_requires_confirmation (demoPlan a)"
  "plan_id (demoPlan a) = ''plan-1''" "plan_session_id (demoPlan a) = ''s-1''" "plan_actor (demoPlan a) = exampleNormal"
  "plan_action (demoPlan a) = a" "plan_risk (demoPlan a) = RiskLow" "verifyPlanDigest (demoPlan a)"
  "plan_created_at (demoPlan a) = 63800000000 * second" "plan_expires_at (demoPlan a) = 63800000060 * second"
  "plan_parameters (demoPlan a) = [\<lparr>param_name = ''unit'', param_value = ''quantum-runtime.service''\<rparr>]"
  "plan_request_id (demoPlan a) = ''r-1''"
  by (simp_all add: demoPlan_def Let_def del: operation_plan.update_convs)

lemma demoPlan_valid:
  assumes "trimSpace a = ''service.start''"
  shows "validateApprovedPlan (demoRegistry env) (63800000000 * second) (demoPlan a) = None"
proof -
  have trim: "trimSpace ''plan-1'' \<noteq> []" "trimSpace ''s-1'' \<noteq> []" "trimSpace (actor_id exampleNormal) \<noteq> []"
    "trimSpace ''unit'' = ''unit''" "trimSpace ''quantum-runtime.service'' \<noteq> []" by code_simp+
  then have params: "exactPlanParameters (demoPlan a) = Inr [(''unit'', ''quantum-runtime.service'')]"
    by (simp add: exactPlanParameters_def Let_def)
  have units: "allowedUnits defaultPolicy = [''quantum-runtime.service'']"
    by (simp add: allowedUnits_def defaultPolicy_allowed compiledServices_def)
  let ?d = "serviceDefinition [''quantum-runtime.service''] ''service.start'' ''Start an allowlisted managed service'' RiskLow"
  have "parameters_ok lib (def_parameters ?d) [(''unit'', ''quantum-runtime.service'')]" for lib
    using trim(5) by (simp add: parameters_ok_def parameter_ok_def serviceDefinition_def)
  then have "validate (demoRegistry env) (planRequestOf (demoPlan a) [(''unit'', ''quantum-runtime.service'')]) False =
      Inr \<lparr>ro_definition = ?d, ro_handler = Some (TransactionHandler ''service.start'')\<rparr>"
    unfolding validate_Inr
    by (simp add: planRequestOf_def assms native_facts(1) [OF demo_registry] enabledOperations_def units)
      (simp add: serviceDefinition_def)
  moreover have "planTimeProblem (63800000000 * second) (demoPlan a) = None"
    by (simp add: planTimeProblem_def duration_defs)
  moreover have "def_requires_confirmation ?d" "def_risk ?d = RiskLow"
    by (simp_all add: serviceDefinition_def)
  ultimately show ?thesis using trim(1-3) params by (simp add: validateApprovedPlan_def)
qed

theorem approved_plan_panics_iff_untrimmed_witness:
  "executeApproved (demoEnv ''active'' False) (demoRegistry (demoEnv ''active'' False)) (\<lambda>_. None) background (demoPlan '' service.start'')
     demoExecutor demoHost = Panics \<and>
   executeApproved (demoEnv ''active'' False) (demoRegistry (demoEnv ''active'' False)) (\<lambda>_. None) background (demoPlan ''service.start'')
     demoExecutor demoHost \<noteq> Panics"
proof -
  have trim: "trimSpace '' service.start'' = ''service.start''" "trimSpace ''service.start'' = ''service.start''" by code_simp+
  have clock: "h_clock demoHost = 63800000000 * second" by (simp add: demoHost_def)
  note approved = approved_plan_panics_iff_untrimmed [OF demo_registry demoExecutor_mutates, where w = demoHost, unfolded clock, OF demoPlan_valid]
  show ?thesis using approved [OF trim(1)] approved [OF trim(2)] trim by simp
qed

end
