(* ===== verification/QC_Broker.thy ===== *)
theory QC_Broker
  imports QC_Grants QC_Transactions
begin

text \<open>
  The HTTP side of the broker (\<^verbatim>\<open>internal/broker/server.go\<close> and \<^verbatim>\<open>approval.go\<close>): the broker token, decoding of
  bodies, and the handlers, over the registry of \<^verbatim>\<open>QC_Registry\<close>, the execution of \<^verbatim>\<open>QC_Transactions\<close> and the grant
  store of \<^verbatim>\<open>QC_Grants\<close>.

  A body is what the strict JSON decoder makes of it: \<open>hb_decode limit\<close> is the value the first \<^verbatim>\<open>Decode\<close> yields
  when at most \<open>limit\<close> bytes may be read, \<open>hb_only\<close> says that nothing but white space follows. The state of
  the broker is the host and the grant store with its files; log lines are not modelled. A handler that panics
  is recovered by the HTTP server, which drops the connection: its response is \<open>None\<close>, and what it did before
  stays done.
\<close>

subsection \<open>Requests and responses\<close>

record 'a http_body =
  hb_length :: int
  hb_decode :: "int \<Rightarrow> 'a option"
  hb_only :: bool

record confirmation_envelope =
  ce_plan :: operation_plan
  ce_actor_token :: string

record approved_execution_envelope =
  ae_plan :: operation_plan
  ae_confirmation_token :: string
  ae_actor_token :: string

datatype broker_call =
    CallHealth
  | CallCatalog
  | CallPlan "operation_request http_body"
  | CallExecute "operation_request http_body"
  | CallConfirm "confirmation_envelope http_body"
  | CallExecuteApproved "approved_execution_envelope http_body"

record broker_request =
  br_token :: string
  br_ctx :: go_context
  br_call :: broker_call

datatype broker_payload =
    HealthPayload string
  | CatalogPayload "operation_definition list"
  | PlanPayload broker_plan
  | OperationPayload operation_response
  | GrantPayload grant_response
  | ProblemPayload problem gotime

record broker_response =
  hs_status :: nat
  hs_headers :: smap
  hs_payload :: broker_payload

definition writeJSON :: "nat \<Rightarrow> broker_payload \<Rightarrow> broker_response" where
  "writeJSON status payload =
     \<lparr>hs_status = status,
      hs_headers = [(''Content-Type'', ''application/json; charset=utf-8''), (''Cache-Control'', ''no-store''),
                    (''X-Content-Type-Options'', ''nosniff'')],
      hs_payload = payload\<rparr>"

definition writeProblem :: "nat \<Rightarrow> string \<Rightarrow> string \<Rightarrow> gotime \<Rightarrow> broker_response" where
  "writeProblem status code message now = writeJSON status (ProblemPayload (mkProblem code message) now)"

definition writeOperationResponse :: "operation_response \<Rightarrow> broker_response" where
  "writeOperationResponse response =
     writeJSON (if resp_status response = ''rejected'' then 400 else if resp_status response = ''failed'' then 500 else 200)
       (OperationPayload response)"

text \<open>\<^verbatim>\<open>decodeJSON\<close> under the body limit of the server.\<close>

definition decodeJSON :: "int \<Rightarrow> gotime \<Rightarrow> 'a http_body \<Rightarrow> broker_response + 'a" where
  "decodeJSON limit now b =
     (case hb_decode b limit of
        None \<Rightarrow> Inl (writeProblem 400 ''invalid_json'' ''valid JSON request required'' now)
      | Some x \<Rightarrow>
          if limit < hb_length b \<or> \<not> hb_only b then
            Inl (writeProblem 400 ''invalid_json'' ''request body must contain exactly one JSON object'' now)
          else Inr x)"

subsection \<open>The server\<close>

definition maxForwardedActorTokenBytes :: nat where "maxForwardedActorTokenBytes = 4096"

record broker_server =
  srv_registry :: registry
  srv_token :: string
  srv_body_limit :: int
  srv_actors :: "authenticator option"
  srv_version :: string

record broker_world =
  bw_host :: host
  bw_grants :: "grant_world option"

text \<open>What one request meets: the random bytes it draws and the failure of persisting the grant store, if any.\<close>

record request_env =
  rq_random :: "nat \<Rightarrow> bytes option"
  rq_token :: "bytes option"
  rq_grant_id :: "bytes option"
  rq_fault :: "persist_stage option"

definition grantEnv :: "request_env \<Rightarrow> gotime \<Rightarrow> grant_env" where
  "grantEnv re now = \<lparr>env_now = now, env_token = rq_token re, env_id = rq_grant_id re, env_clock = now, env_fault = rq_fault re\<rparr>"

datatype authn_error = ActorsNotConfigured | CredentialRequired

definition authenticateActor :: "authenticator option \<Rightarrow> string \<Rightarrow> authn_error + actor" where
  "authenticateActor actors token0 =
     (case actors of
        None \<Rightarrow> Inl ActorsNotConfigured
      | Some auth \<Rightarrow>
          (let token = trimSpace token0 in
           if token = [] \<or> length token > maxForwardedActorTokenBytes then Inl CredentialRequired
           else (case authenticateBearer auth token of None \<Rightarrow> Inl CredentialRequired | Some a \<Rightarrow> Inr a)))"

definition handleHealth :: "broker_server \<Rightarrow> broker_response" where
  "handleHealth srv = writeJSON 200 (HealthPayload (srv_version srv))"

definition handleCatalog :: "broker_server \<Rightarrow> broker_response" where
  "handleCatalog srv = writeJSON 200 (CatalogPayload (catalog (srv_registry srv)))"

definition handlePlan :: "broker_server \<Rightarrow> gotime \<Rightarrow> operation_request http_body \<Rightarrow> broker_response" where
  "handlePlan srv now body =
     (case decodeJSON (srv_body_limit srv) now body of
        Inl r \<Rightarrow> r
      | Inr req \<Rightarrow>
          (let plan = planRequest (srv_registry srv) req in
           writeJSON (if bp_valid plan then 200 else 400) (PlanPayload plan)))"

definition handleExecute ::
  "host_env \<Rightarrow> broker_server \<Rightarrow> request_env \<Rightarrow> go_context \<Rightarrow> operation_request http_body \<Rightarrow> host \<Rightarrow> (broker_response option \<times> host) outcome" where
  "handleExecute env srv re ctx body w =
     (case decodeJSON (srv_body_limit srv) (h_clock w) body of
        Inl r \<Rightarrow> Returns (Some r, w)
      | Inr req \<Rightarrow>
          (case execute env (srv_registry srv) (rq_random re) ctx req w of
             Returns (resp, w') \<Rightarrow> Returns (Some (writeOperationResponse resp), w')
           | Panics \<Rightarrow> Returns (None, w)
           | Diverges \<Rightarrow> Diverges))"

definition handleConfirm ::
  "broker_server \<Rightarrow> request_env \<Rightarrow> gotime \<Rightarrow> confirmation_envelope http_body \<Rightarrow> grant_world option \<Rightarrow> broker_response \<times> grant_world option" where
  "handleConfirm srv re now body grants =
     (case grants of
        None \<Rightarrow> (writeProblem 503 ''confirmation_unavailable'' ''broker confirmation state is unavailable'' now, grants)
      | Some g \<Rightarrow>
          (case decodeJSON (srv_body_limit srv) now body of
             Inl r \<Rightarrow> (r, grants)
           | Inr envelope \<Rightarrow>
               (case validateApprovedPlan (srv_registry srv) now (ce_plan envelope) of
                  Some p \<Rightarrow> (writeProblem 400 (prob_code p) (prob_message p) now, grants)
                | None \<Rightarrow>
                    (case authenticateActor (srv_actors srv) (ce_actor_token envelope) of
                       Inl _ \<Rightarrow> (writeProblem 401 ''approver_unauthorized'' ''valid human approver credential required'' now, grants)
                     | Inr approver \<Rightarrow>
                         if kind approver \<noteq> ActorHuman \<or> \<not> hasPermission approver PermissionConfirm then
                           (writeProblem 403 ''approver_forbidden'' ''actor may not issue confirmation grants'' now, grants)
                         else
                           (case issue (grantEnv re now) (ce_plan envelope) approver (w_store g) (w_fs g) of
                              (Inl _, s', fs') \<Rightarrow>
                                (writeProblem 400 ''confirmation_rejected'' ''operation plan cannot be confirmed under current policy'' now,
                                 Some \<lparr>w_store = s', w_fs = fs'\<rparr>)
                            | (Inr response, s', fs') \<Rightarrow>
                                (writeJSON 201 (GrantPayload response), Some \<lparr>w_store = s', w_fs = fs'\<rparr>))))))"

definition rejectedApprovedResponse :: "operation_plan \<Rightarrow> request_env \<Rightarrow> gotime \<Rightarrow> operation_response" where
  "rejectedApprovedResponse plan re now =
     (newResponse (requestIDOr (plan_request_id plan) (rq_random re 0) now) (plan_action plan) (newID ''audit'' (rq_random re 1) now) now)
       \<lparr>resp_risk := plan_risk plan\<rparr>"

definition rejectApproved :: "operation_plan \<Rightarrow> request_env \<Rightarrow> gotime \<Rightarrow> problem \<Rightarrow> broker_response" where
  "rejectApproved plan re now p =
     writeOperationResponse ((rejectedApprovedResponse plan re now)\<lparr>resp_error := Some p, resp_finished_at := now\<rparr>)"

definition handleExecuteApproved ::
  "host_env \<Rightarrow> broker_server \<Rightarrow> request_env \<Rightarrow> go_context \<Rightarrow> approved_execution_envelope http_body \<Rightarrow> broker_world \<Rightarrow>
   (broker_response option \<times> broker_world) outcome" where
  "handleExecuteApproved env srv re ctx body w =
     (let now = h_clock (bw_host w) in
      case decodeJSON (srv_body_limit srv) now body of
        Inl r \<Rightarrow> Returns (Some r, w)
      | Inr envelope \<Rightarrow>
          (let plan = ae_plan envelope;
               reject = (\<lambda>code message w'. Returns (Some (rejectApproved plan re now (mkProblem code message)), w'))
           in case bw_grants w of
                None \<Rightarrow> reject ''confirmation_unavailable'' ''broker confirmation state is unavailable'' w
              | Some g \<Rightarrow>
                  (case authenticateActor (srv_actors srv) (ae_actor_token envelope) of
                     Inl _ \<Rightarrow> reject ''mutation_forbidden'' ''executor is not authorized for service mutations'' w
                   | Inr executor \<Rightarrow>
                       if \<not> mayMutate executor then
                         reject ''mutation_forbidden'' ''executor is not authorized for service mutations'' w
                       else (case validateApprovedPlan (srv_registry srv) now plan of
                          Some p \<Rightarrow> Returns (Some (rejectApproved plan re now p), w)
                        | None \<Rightarrow>
                            (case consume (grantEnv re now) (ae_confirmation_token envelope) plan (actor_id (plan_actor plan))
                                    (plan_action plan) (w_store g) (w_fs g) of
                               (Inl _, s', fs') \<Rightarrow>
                                 reject ''confirmation_rejected'' ''confirmation grant is invalid, expired, stale, or already consumed''
                                   (w\<lparr>bw_grants := Some \<lparr>w_store = s', w_fs = fs'\<rparr>\<rparr>)
                             | (Inr _, s', fs') \<Rightarrow>
                                 (let w1 = w\<lparr>bw_grants := Some \<lparr>w_store = s', w_fs = fs'\<rparr>\<rparr> in
                                  case executeApproved env (srv_registry srv) (\<lambda>k. rq_random re (k + 2)) ctx plan executor (bw_host w1) of
                                    Returns (resp, h') \<Rightarrow> Returns (Some (writeOperationResponse resp), w1\<lparr>bw_host := h'\<rparr>)
                                  | Panics \<Rightarrow> Returns (None, w1)
                                  | Diverges \<Rightarrow> Diverges))))))"

text \<open>\<^verbatim>\<open>Handler\<close> with \<^verbatim>\<open>requireBrokerAuth\<close> in front of every route but the health route.\<close>

definition brokerAuthorized :: "broker_server \<Rightarrow> string \<Rightarrow> bool" where
  "brokerAuthorized srv header =
     (let provided = trimSpace header in \<not> (length provided \<noteq> length (srv_token srv) \<or> provided \<noteq> srv_token srv))"

definition needsBrokerAuth :: "broker_call \<Rightarrow> bool" where
  "needsBrokerAuth call = (case call of CallHealth \<Rightarrow> False | _ \<Rightarrow> True)"

definition serveBroker ::
  "host_env \<Rightarrow> broker_server \<Rightarrow> request_env \<Rightarrow> broker_request \<Rightarrow> broker_world \<Rightarrow> (broker_response option \<times> broker_world) outcome" where
  "serveBroker env srv re req w =
     (let now = h_clock (bw_host w) in
      if needsBrokerAuth (br_call req) \<and> \<not> brokerAuthorized srv (br_token req) then
        Returns (Some (writeProblem 401 ''unauthorized'' ''valid broker token required'' now), w)
      else case br_call req of
        CallHealth \<Rightarrow> Returns (Some (handleHealth srv), w)
      | CallCatalog \<Rightarrow> Returns (Some (handleCatalog srv), w)
      | CallPlan body \<Rightarrow> Returns (Some (handlePlan srv now body), w)
      | CallExecute body \<Rightarrow>
          (case handleExecute env srv re (br_ctx req) body (bw_host w) of
             Returns (resp, h') \<Rightarrow> Returns (resp, w\<lparr>bw_host := h'\<rparr>)
           | Panics \<Rightarrow> Panics
           | Diverges \<Rightarrow> Diverges)
      | CallConfirm body \<Rightarrow>
          (case handleConfirm srv re now body (bw_grants w) of
             (resp, g') \<Rightarrow> Returns (Some resp, w\<lparr>bw_grants := g'\<rparr>))
      | CallExecuteApproved body \<Rightarrow> handleExecuteApproved env srv re (br_ctx req) body w)"

subsection \<open>What a request may do\<close>

text \<open>The unit an approved plan names.\<close>

definition plan_unit :: "operation_plan \<Rightarrow> string" where
  "plan_unit plan =
     (case exactPlanParameters plan of Inl _ \<Rightarrow> [] | Inr m \<Rightarrow> (case map_of m ''unit'' of None \<Rightarrow> [] | Some u \<Rightarrow> u))"

text \<open>Calls a request added to the log of the host that are not observations.\<close>

definition mutations :: "host \<Rightarrow> host \<Rightarrow> host_call list" where
  "mutations w w' = filter (\<lambda>c. \<not> native_observes c) (drop (length (h_calls w)) (h_calls w'))"

lemma mutations_same [simp]: "mutations w w = []"
  by (simp add: mutations_def)

lemma adds_mutations: "adds native_observes w w' \<Longrightarrow> mutations w w' = []"
  by (auto simp: adds_def mutations_def list_all_iff filter_empty_conv)

lemma executeApproved_calls:
  assumes "native_registry env n parse p reg" "policy_ok p" "validateApprovedPlan reg (h_clock w) plan = None"
    and "executeApproved env reg rnd ctx plan executor w = Returns (resp, w')"
  shows "h_clock w \<le> h_clock w' \<and> (\<exists>cs. h_calls w' = h_calls w @ cs \<and> service_commands (plan_action plan) (plan_unit plan) cs)"
proof (cases "mayMutate executor")
  case False
  with assms(4) show ?thesis by (auto simp: executeApproved_def Let_def)
next
  case True
  from assms(3) obtain params oper where params: "exactPlanParameters plan = Inr params"
    and val: "validate reg (planRequestOf plan params) False = Inr oper" "def_requires_confirmation (ro_definition oper)"
    by (auto simp: validateApprovedPlan_def split: if_splits option.splits sum.splits)
  have "map_of (reg_operations reg) (trimSpace (plan_action plan)) = Some oper"
    using val(1) by (simp add: validate_Inr planRequestOf_def)
  obtain oper' where oper': "map_of (reg_operations reg) (plan_action plan) = Some oper'"
  proof (cases "map_of (reg_operations reg) (plan_action plan)")
    case None
    with assms(3,4) True params show thesis by (simp add: executeApproved_def Let_def zeroOperation_def runHandler_def)
  qed (rule that)
  note facts = service_actions_confirm [OF assms(1) oper']
  from facts(1) \<open>map_of (reg_operations reg) (trimSpace (plan_action plan)) = Some oper\<close> oper' have "oper = oper'" by simp
  with val(2) facts(4) have "ro_handler oper' = Some (TransactionHandler (plan_action plan))"
    using oper' unfolding native_facts(1) [OF assms(1)] by (auto simp: enabledOperations_def split: if_splits)
  moreover have "unitParameter (planRequestOf plan params) = plan_unit plan"
    by (simp add: unitParameter_def planRequestOf_def plan_unit_def params)
  ultimately obtain x where "runServiceTransaction env reg ctx (plan_action plan) (plan_unit plan) w = Returns (x, w')"
    using assms(3,4) True params oper'
    by (auto simp: executeApproved_def Let_def runHandler_def split: outcome.splits prod.splits)
  then show ?thesis by (rule transaction_calls [OF assms(1,2)])
qed

lemma execute_calls:
  assumes "native_registry env n parse p reg" "execute env reg rnd ctx req w = Returns (resp, w')"
  shows "adds native_observes w w'"
proof (cases "validate reg req True")
  case (Inr oper)
  then have oper: "map_of (reg_operations reg) (trimSpace (req_action req)) = Some oper" "\<not> def_requires_confirmation (ro_definition oper)"
    by (auto simp: validate_Inr)
  from Inr assms(2) obtain x where "runHandler env reg (ro_handler oper) ctx req w = Returns (x, w')"
    by (auto simp: execute_def Let_def split: outcome.splits prod.splits)
  then show ?thesis using service_actions_confirm(5) [OF assms(1) oper] observed_adds [OF assms(1)] by metis
qed (use assms(2) in \<open>auto simp: execute_def Let_def\<close>)

text \<open>What handling an approved execution amounts to.\<close>

lemma executeApproved_cases:
  assumes "native_registry env n parse p (srv_registry srv)" "policy_ok p"
    and "handleExecuteApproved env srv re ctx body w = Returns (resp, w')"
  obtains (Rejected) "w' = w"
  | (GrantRejected) envelope g e s' fs' where "decodeJSON (srv_body_limit srv) (h_clock (bw_host w)) body = Inr envelope" "bw_grants w = Some g"
      "consume (grantEnv re (h_clock (bw_host w))) (ae_confirmation_token envelope) (ae_plan envelope)
         (actor_id (plan_actor (ae_plan envelope))) (plan_action (ae_plan envelope)) (w_store g) (w_fs g) = (Inl e, s', fs')"
      "w' = w\<lparr>bw_grants := Some \<lparr>w_store = s', w_fs = fs'\<rparr>\<rparr>"
  | (Executed) envelope g executor grant s' fs' h' cs where "decodeJSON (srv_body_limit srv) (h_clock (bw_host w)) body = Inr envelope" "bw_grants w = Some g"
      "authenticateActor (srv_actors srv) (ae_actor_token envelope) = Inr executor" "mayMutate executor"
      "validateApprovedPlan (srv_registry srv) (h_clock (bw_host w)) (ae_plan envelope) = None"
      "consume (grantEnv re (h_clock (bw_host w))) (ae_confirmation_token envelope) (ae_plan envelope)
         (actor_id (plan_actor (ae_plan envelope))) (plan_action (ae_plan envelope)) (w_store g) (w_fs g) = (Inr grant, s', fs')"
      "w' = w\<lparr>bw_grants := Some \<lparr>w_store = s', w_fs = fs'\<rparr>, bw_host := h'\<rparr>" "h_clock (bw_host w) \<le> h_clock h'"
      "h_calls h' = h_calls (bw_host w) @ cs" "service_commands (plan_action (ae_plan envelope)) (plan_unit (ae_plan envelope)) cs"
proof (cases "decodeJSON (srv_body_limit srv) (h_clock (bw_host w)) body")
  case (Inl r)
  with assms(3) show thesis by (intro Rejected) (simp add: handleExecuteApproved_def Let_def)
next
  case (Inr envelope)
  note d = Inr
  let ?now = "h_clock (bw_host w)" and ?plan = "ae_plan envelope"
  show thesis
  proof (cases "bw_grants w = None \<or> (\<exists>e. authenticateActor (srv_actors srv) (ae_actor_token envelope) = Inl e) \<or>
      (\<exists>x. authenticateActor (srv_actors srv) (ae_actor_token envelope) = Inr x \<and> \<not> mayMutate x) \<or>
      validateApprovedPlan (srv_registry srv) ?now ?plan \<noteq> None")
    case True
    with assms(3) d show thesis
      by (intro Rejected) (auto simp: handleExecuteApproved_def Let_def split: option.splits sum.splits if_splits)
  next
    case False
    then obtain g executor where g: "bw_grants w = Some g" "authenticateActor (srv_actors srv) (ae_actor_token envelope) = Inr executor"
      "mayMutate executor" "validateApprovedPlan (srv_registry srv) ?now ?plan = None"
      by (cases "authenticateActor (srv_actors srv) (ae_actor_token envelope)") auto
    obtain r s' fs' where c: "consume (grantEnv re ?now) (ae_confirmation_token envelope) ?plan (actor_id (plan_actor ?plan))
        (plan_action ?plan) (w_store g) (w_fs g) = (r, s', fs')" by (metis prod.exhaust)
    show thesis
    proof (cases r)
      case (Inl e)
      with assms(3) d g c show thesis
        by (intro GrantRejected [OF d g(1)]) (auto simp: handleExecuteApproved_def Let_def)
    next
      case (Inr grant)
      show thesis
      proof (cases "executeApproved env (srv_registry srv) (\<lambda>k. rq_random re (k + 2)) ctx ?plan executor (bw_host w)")
        case Diverges
        with assms(3) d g c Inr show thesis by (simp add: handleExecuteApproved_def Let_def)
      next
        case Panics
        with assms(3) d g c Inr have "w' = w\<lparr>bw_grants := Some \<lparr>w_store = s', w_fs = fs'\<rparr>\<rparr>"
          by (simp add: handleExecuteApproved_def Let_def)
        with d g c Inr show thesis
          by (intro Executed [of envelope g executor grant s' fs' "bw_host w" "[]"]) auto
      next
        case (Returns x)
        obtain rsp h' where x: "x = (rsp, h')" by force
        from executeApproved_calls [OF assms(1,2) g(4) Returns [unfolded x]] obtain cs where
          cs: "h_clock (bw_host w) \<le> h_clock h'" "h_calls h' = h_calls (bw_host w) @ cs" "service_commands (plan_action ?plan) (plan_unit ?plan) cs"
          by blast
        from assms(3) d g c Inr Returns x have "w' = w\<lparr>bw_grants := Some \<lparr>w_store = s', w_fs = fs'\<rparr>, bw_host := h'\<rparr>"
          by (auto simp: handleExecuteApproved_def Let_def)
        with d g c Inr cs show thesis
          by (intro Executed [of envelope g executor grant s' fs' h' cs]) auto
      qed
    qed
  qed
qed

text \<open>What a request amounts to for the host and the grant store.\<close>

lemma serve_cases:
  assumes "native_registry env n parse p (srv_registry srv)" "policy_ok p"
    and "serveBroker env srv re req w = Returns (resp, w')"
  obtains (Observed) "bw_grants w' = bw_grants w" "adds native_observes (bw_host w) (bw_host w')"
  | (Confirmed) body envelope g approver r s' fs' where "br_call req = CallConfirm body" "brokerAuthorized srv (br_token req)"
      "decodeJSON (srv_body_limit srv) (h_clock (bw_host w)) body = Inr envelope" "bw_grants w = Some g"
      "validateApprovedPlan (srv_registry srv) (h_clock (bw_host w)) (ce_plan envelope) = None"
      "authenticateActor (srv_actors srv) (ce_actor_token envelope) = Inr approver"
      "kind approver = ActorHuman" "hasPermission approver PermissionConfirm"
      "issue (grantEnv re (h_clock (bw_host w))) (ce_plan envelope) approver (w_store g) (w_fs g) = (r, s', fs')"
      "w' = w\<lparr>bw_grants := Some \<lparr>w_store = s', w_fs = fs'\<rparr>\<rparr>"
      "resp = Some (case r of Inl _ \<Rightarrow> writeProblem 400 ''confirmation_rejected'' ''operation plan cannot be confirmed under current policy'' (h_clock (bw_host w))
                    | Inr response \<Rightarrow> writeJSON 201 (GrantPayload response))"
  | (Approved) body where "br_call req = CallExecuteApproved body" "brokerAuthorized srv (br_token req)"
      "handleExecuteApproved env srv re (br_ctx req) body w = Returns (resp, w')"
proof (cases "brokerAuthorized srv (br_token req)")
  case False
  with assms(3) have "w' = w" by (cases "br_call req") (auto simp: serveBroker_def needsBrokerAuth_def)
  then show thesis by (intro Observed) simp_all
next
  case auth: True
  show thesis
  proof (cases "br_call req")
    case (CallExecute body)
    show thesis
    proof (cases "decodeJSON (srv_body_limit srv) (h_clock (bw_host w)) body")
      case (Inl r)
      with assms(3) auth CallExecute have "w' = w" by (auto simp: serveBroker_def handleExecute_def)
      then show thesis by (intro Observed) simp_all
    next
      case (Inr r)
      with assms(3) auth CallExecute execute_calls [OF assms(1)] show thesis
        by (intro Observed) (auto simp: serveBroker_def handleExecute_def split: outcome.splits prod.splits)
    qed
  next
    case (CallConfirm body)
    then have h: "(case handleConfirm srv re (h_clock (bw_host w)) body (bw_grants w) of (rsp, g') \<Rightarrow> (Some rsp, w\<lparr>bw_grants := g'\<rparr>)) = (resp, w')"
      using assms(3) auth by (auto simp: serveBroker_def split: prod.splits)
    show thesis
    proof (cases "snd (handleConfirm srv re (h_clock (bw_host w)) body (bw_grants w)) = bw_grants w")
      case True
      with h show thesis by (intro Observed) (auto split: prod.splits)
    next
      case False
      then obtain g envelope approver where g: "bw_grants w = Some g"
        "decodeJSON (srv_body_limit srv) (h_clock (bw_host w)) body = Inr envelope"
        "validateApprovedPlan (srv_registry srv) (h_clock (bw_host w)) (ce_plan envelope) = None"
        "authenticateActor (srv_actors srv) (ce_actor_token envelope) = Inr approver"
        "kind approver = ActorHuman" "hasPermission approver PermissionConfirm"
        by (auto simp: handleConfirm_def split: option.splits sum.splits if_splits)
      obtain r s' fs' where i: "issue (grantEnv re (h_clock (bw_host w))) (ce_plan envelope) approver (w_store g) (w_fs g) = (r, s', fs')"
        by (metis prod.exhaust)
      from h g i show thesis
        by (intro Confirmed [OF CallConfirm auth g(2,1,3-6) i]) (auto simp: handleConfirm_def split: sum.splits)
    qed
  next
    case (CallExecuteApproved body)
    with assms(3) auth show thesis by (intro Approved) (auto simp: serveBroker_def)
  qed (use assms(3) auth in \<open>auto simp: serveBroker_def intro: Observed\<close>)
qed

text \<open>
  What stands behind a privileged process: the executor authenticated with the mutate permission and is no AI identity, the plan
  passed revalidation, its grant was consumed in the store, and the commands are those of the plan.
\<close>

definition approved_by ::
  "broker_server \<Rightarrow> request_env \<Rightarrow> approved_execution_envelope http_body \<Rightarrow> approved_execution_envelope \<Rightarrow> broker_world \<Rightarrow> broker_world \<Rightarrow> bool" where
  "approved_by srv re body envelope w w' \<longleftrightarrow>
    (\<exists>executor g grant s' fs' cs. decodeJSON (srv_body_limit srv) (h_clock (bw_host w)) body = Inr envelope \<and>
    authenticateActor (srv_actors srv) (ae_actor_token envelope) = Inr executor \<and>
    kind executor \<noteq> ActorTCI \<and> PermissionOperationMutate \<in> set (permissions executor) \<and>
    validateApprovedPlan (srv_registry srv) (h_clock (bw_host w)) (ae_plan envelope) = None \<and> bw_grants w = Some g \<and>
    consume (grantEnv re (h_clock (bw_host w))) (ae_confirmation_token envelope) (ae_plan envelope)
      (actor_id (plan_actor (ae_plan envelope))) (plan_action (ae_plan envelope)) (w_store g) (w_fs g) = (Inr grant, s', fs') \<and>
    bw_grants w' = Some \<lparr>w_store = s', w_fs = fs'\<rparr> \<and> h_calls (bw_host w') = h_calls (bw_host w) @ cs \<and>
    service_commands (plan_action (ae_plan envelope)) (plan_unit (ae_plan envelope)) cs)"

lemma serve_mutation:
  assumes "native_registry env n parse p (srv_registry srv)" "policy_ok p"
    and "serveBroker env srv re req w = Returns (resp, w')" "mutations (bw_host w) (bw_host w') \<noteq> []"
  shows "\<exists>body envelope. br_call req = CallExecuteApproved body \<and> trimSpace (br_token req) = srv_token srv \<and>
    approved_by srv re body envelope w w'"
  using assms(1-3)
proof (cases rule: serve_cases)
  case Observed
  with assms(4) show ?thesis by (simp add: adds_mutations)
next
  case Confirmed
  with assms(4) show ?thesis by simp
next
  case (Approved body)
  then have token: "trimSpace (br_token req) = srv_token srv" by (simp add: brokerAuthorized_def Let_def)
  from assms(1,2) Approved(3) show ?thesis
  proof (cases rule: executeApproved_cases)
    case Rejected
    with assms(4) show ?thesis by simp
  next
    case GrantRejected
    with assms(4) show ?thesis by simp
  next
    case (Executed envelope g executor grant s' fs' h' cs)
    then have "approved_by srv re body envelope w w'"
      unfolding approved_by_def by (auto simp: mayMutate_def hasPermission_iff)
    with token Approved(1) show ?thesis by blast
  qed
qed

text \<open>
  C4. A privileged process is started only for an approved execution. If handling a request starts anything
  but probes, then the request was for the approved execution endpoint with the broker token, its executor
  authenticated with the mutate permission and is not an AI identity, the plan passed revalidation at that
  moment, and the matching grant was consumed in the store before; what ran is the action of the plan on its
  unit, and possibly one recovery.
\<close>

theorem broker_mutation_authorised:
  assumes "native_registry env n parse p (srv_registry srv)" "policy_ok p"
    and "serveBroker env srv re req w = Returns (resp, w')" "mutations (bw_host w) (bw_host w') \<noteq> []"
  shows "\<exists>body envelope executor g grant s' fs' cs. br_call req = CallExecuteApproved body \<and> trimSpace (br_token req) = srv_token srv \<and>
    decodeJSON (srv_body_limit srv) (h_clock (bw_host w)) body = Inr envelope \<and>
    authenticateActor (srv_actors srv) (ae_actor_token envelope) = Inr executor \<and>
    kind executor \<noteq> ActorTCI \<and> PermissionOperationMutate \<in> set (permissions executor) \<and>
    validateApprovedPlan (srv_registry srv) (h_clock (bw_host w)) (ae_plan envelope) = None \<and> bw_grants w = Some g \<and>
    consume (grantEnv re (h_clock (bw_host w))) (ae_confirmation_token envelope) (ae_plan envelope)
      (actor_id (plan_actor (ae_plan envelope))) (plan_action (ae_plan envelope)) (w_store g) (w_fs g) = (Inr grant, s', fs') \<and>
    bw_grants w' = Some \<lparr>w_store = s', w_fs = fs'\<rparr> \<and> h_calls (bw_host w') = h_calls (bw_host w) @ cs \<and>
    service_commands (plan_action (ae_plan envelope)) (plan_unit (ae_plan envelope)) cs"
  using serve_mutation [OF assms] unfolding approved_by_def by blast

text \<open>
  C5. A confirmation is a human decision on a plan that is valid now. The broker answers a request with a grant
  only on the confirm endpoint, for a caller with the broker token and an actor token of a human with the
  confirm permission who is not the subject of the plan; the plan passed revalidation; and the grant returned
  is bound to its ID, digest, subject, session and action and expires no later than the plan.
\<close>

theorem broker_grant_is_human_decision:
  assumes "native_registry env n parse p (srv_registry srv)" "policy_ok p"
    and "serveBroker env srv re req w = Returns (Some resp, w')" "hs_payload resp = GrantPayload r"
  shows "\<exists>body envelope approver. br_call req = CallConfirm body \<and> trimSpace (br_token req) = srv_token srv \<and>
    decodeJSON (srv_body_limit srv) (h_clock (bw_host w)) body = Inr envelope \<and>
    authenticateActor (srv_actors srv) (ce_actor_token envelope) = Inr approver \<and>
    kind approver = ActorHuman \<and> PermissionConfirm \<in> set (permissions approver) \<and>
    actor_id approver \<noteq> actor_id (plan_actor (ce_plan envelope)) \<and>
    validateApprovedPlan (srv_registry srv) (h_clock (bw_host w)) (ce_plan envelope) = None \<and>
    grant_plan_id (gr_grant r) = plan_id (ce_plan envelope) \<and> grant_plan_digest (gr_grant r) = plan_digest (ce_plan envelope) \<and>
    grant_subject (gr_grant r) = actor_id (plan_actor (ce_plan envelope)) \<and>
    grant_session_id (gr_grant r) = plan_session_id (ce_plan envelope) \<and> grant_action (gr_grant r) = plan_action (ce_plan envelope) \<and>
    grant_expires_at (gr_grant r) \<le> plan_expires_at (ce_plan envelope) \<and> grant_approver (gr_grant r) = approver"
proof -
  obtain body where body: "br_call req = CallConfirm body" "brokerAuthorized srv (br_token req)"
  proof (cases "br_call req")
    case (CallConfirm body)
    with assms(3,4) show thesis
      by (intro that) (auto simp: serveBroker_def needsBrokerAuth_def writeProblem_def writeJSON_def Let_def split: if_splits prod.splits)
  qed (use assms(3,4) in \<open>auto simp: serveBroker_def handleHealth_def handleCatalog_def handlePlan_def handleExecute_def
      handleExecuteApproved_def writeProblem_def writeOperationResponse_def rejectApproved_def writeJSON_def decodeJSON_def Let_def
      split: if_splits option.splits sum.splits outcome.splits prod.splits\<close>)
  have h: "handleConfirm srv re (h_clock (bw_host w)) body (bw_grants w) = (resp, bw_grants w')"
    using assms(3) body by (auto simp: serveBroker_def split: prod.splits)
  then obtain g envelope approver s' fs' where g: "bw_grants w = Some g"
    "decodeJSON (srv_body_limit srv) (h_clock (bw_host w)) body = Inr envelope"
    "validateApprovedPlan (srv_registry srv) (h_clock (bw_host w)) (ce_plan envelope) = None"
    "authenticateActor (srv_actors srv) (ce_actor_token envelope) = Inr approver"
    "kind approver = ActorHuman" "hasPermission approver PermissionConfirm"
    and i: "issue (grantEnv re (h_clock (bw_host w))) (ce_plan envelope) approver (w_store g) (w_fs g) = (Inr r, s', fs')"
    using assms(4)
    by (auto simp: handleConfirm_def writeProblem_def writeJSON_def decodeJSON_def Let_def
        split: option.splits sum.splits if_splits prod.splits)
  from i have "actor_id approver \<noteq> actor_id (plan_actor (ce_plan envelope)) \<and>
      r = \<lparr>gr_grant = newGrant (grantEnv re (h_clock (bw_host w))) (store_ttl (w_store g)) (ce_plan envelope) approver, gr_token = gr_token r\<rparr>"
    by (elim issue_cases) (auto simp: issueChecks_def split: if_splits)
  then obtain t where "actor_id approver \<noteq> actor_id (plan_actor (ce_plan envelope))"
    "r = \<lparr>gr_grant = newGrant (grantEnv re (h_clock (bw_host w))) (store_ttl (w_store g)) (ce_plan envelope) approver, gr_token = t\<rparr>"
    by blast
  with body g show ?thesis
    by (auto simp: newGrant_def Let_def brokerAuthorized_def hasPermission_iff)
qed

subsection \<open>Runs of the broker\<close>

datatype broker_event = BServed "string option" "host_call list" | BStore | BIdle

text \<open>The confirmation token a request presents.\<close>

definition presentedToken :: "broker_server \<Rightarrow> broker_request \<Rightarrow> string option" where
  "presentedToken srv req =
     (case br_call req of
        CallExecuteApproved body \<Rightarrow> map_option ae_confirmation_token (hb_decode body (srv_body_limit srv))
      | _ \<Rightarrow> None)"

text \<open>
  A step of a broker: a request served to its end; a restart, or a crash while the grant store is being
  written, as in \<^verbatim>\<open>QC_Grants\<close>; or time passing. A request may be served by any broker built from the native
  adapters and a narrowing policy, so a run may change configuration between requests.
\<close>

inductive broker_step :: "broker_world \<Rightarrow> broker_event \<Rightarrow> broker_world \<Rightarrow> bool" where
  served: "native_registry env n parse p (srv_registry srv) \<Longrightarrow> policy_ok p \<Longrightarrow>
     serveBroker env srv re req w = Returns (resp, w') \<Longrightarrow>
     broker_step w (BServed (presentedToken srv req) (mutations (bw_host w) (bw_host w'))) w'"
| store: "bw_grants w = Some g \<Longrightarrow> grant_step g e g' \<Longrightarrow> event_key e = None \<Longrightarrow>
     broker_step w BStore (w\<lparr>bw_grants := Some g'\<rparr>)"
| idle: "h_clock (bw_host w) \<le> t \<Longrightarrow> broker_step w BIdle (w\<lparr>bw_host := (bw_host w)\<lparr>h_clock := t\<rparr>\<rparr>)"

definition broker_inv :: "broker_world \<Rightarrow> bool" where
  "broker_inv w \<longleftrightarrow> 0 < h_clock (bw_host w) \<and> (\<forall>g. bw_grants w = Some g \<longrightarrow> grant_inv g)"

definition broker_spent :: "broker_world \<Rightarrow> bytes \<Rightarrow> bool" where
  "broker_spent w k \<longleftrightarrow> (\<exists>g. bw_grants w = Some g \<and> spent_in (store_data (w_store g)) k)"

text \<open>The digest of the token a request used to start a privileged process.\<close>

fun mutation_key :: "broker_event \<Rightarrow> bytes option" where
  "mutation_key (BServed token ms) = (if ms = [] then None else map_option sha256 token)"
| "mutation_key _ = None"

lemma issue_keeps:
  assumes "issue env plan a (w_store g) (w_fs g) = (r, s', fs')" "grant_inv g"
  shows "grant_inv \<lparr>w_store = s', w_fs = fs'\<rparr>" "spent_in (store_data (w_store g)) k \<Longrightarrow> spent_in (store_data s') k"
proof -
  show "grant_inv \<lparr>w_store = s', w_fs = fs'\<rparr>"
    using assms by (auto elim!: issue_cases simp: grant_inv_def tokens_text_ok_issued)
  show "spent_in (store_data (w_store g)) k \<Longrightarrow> spent_in (store_data s') k"
    using assms by (auto elim!: issue_cases simp: issuedData_def spent_in_append)
qed

lemma consume_keeps:
  assumes "consume env token plan subject action (w_store g) (w_fs g) = (r, s', fs')" "grant_inv g" "env_now env \<noteq> 0"
  shows "grant_inv \<lparr>w_store = s', w_fs = fs'\<rparr>" "spent_in (store_data (w_store g)) k \<Longrightarrow> spent_in (store_data s') k"
    and "r = Inr x \<Longrightarrow> \<not> spent_in (store_data (w_store g)) (sha256 token)" "r = Inr x \<Longrightarrow> spent_in (store_data s') (sha256 token)"
proof -
  show "grant_inv \<lparr>w_store = s', w_fs = fs'\<rparr>"
    using assms by (auto elim!: consume_cases simp: grant_inv_def tokens_text_ok_setUsed)
  show "spent_in (store_data (w_store g)) k \<Longrightarrow> spent_in (store_data s') k"
    using assms by (auto elim!: consume_cases simp: spent_in_setUsed)
  show "r = Inr x \<Longrightarrow> \<not> spent_in (store_data (w_store g)) (sha256 token)"
    using assms by (auto elim!: consume_cases simp: spent_in_def consumeChecks_def split: if_splits)
  show "r = Inr x \<Longrightarrow> spent_in (store_data s') (sha256 token)"
    using assms by (auto elim!: consume_cases simp: spent_in_setUsed)
qed

lemma served_keeps:
  assumes "native_registry env n parse p (srv_registry srv)" "policy_ok p" "serveBroker env srv re req w = Returns (resp, w')" "broker_inv w"
  shows "broker_inv w'" "broker_spent w k \<Longrightarrow> broker_spent w' k"
    and "mutation_key (BServed (presentedToken srv req) (mutations (bw_host w) (bw_host w'))) = Some k \<Longrightarrow> \<not> broker_spent w k \<and> broker_spent w' k"
proof -
  have "broker_inv w' \<and> (broker_spent w k \<longrightarrow> broker_spent w' k) \<and>
      (mutation_key (BServed (presentedToken srv req) (mutations (bw_host w) (bw_host w'))) = Some k \<longrightarrow> \<not> broker_spent w k \<and> broker_spent w' k)"
    using assms(1-3)
  proof (cases rule: serve_cases)
    case Observed
    then show ?thesis using assms(4) adds_clock [OF Observed(2)] adds_mutations [OF Observed(2)]
      by (simp add: broker_inv_def broker_spent_def)
  next
    case (Confirmed body envelope g approver r s' fs')
    then show ?thesis using assms(4) issue_keeps [OF Confirmed(9)] by (simp add: broker_inv_def broker_spent_def)
  next
    case (Approved body)
    note body = this
    have now: "env_now (grantEnv re (h_clock (bw_host w))) \<noteq> 0" using assms(4) by (simp add: grantEnv_def broker_inv_def)
    from assms(1,2) Approved(3) show ?thesis
    proof (cases rule: executeApproved_cases)
      case Rejected
      with assms(4) show ?thesis by simp
    next
      case (GrantRejected envelope g e s' fs')
      then have "grant_inv g" using assms(4) by (simp add: broker_inv_def)
      with GrantRejected consume_keeps(1,2) [OF GrantRejected(3) _ now] assms(4) show ?thesis
        by (simp add: broker_inv_def broker_spent_def)
    next
      case (Executed envelope g executor grant s' fs' h' cs)
      then have "grant_inv g" using assms(4) by (simp add: broker_inv_def)
      note keeps = consume_keeps [OF Executed(6) this now]
      have "presentedToken srv req = Some (ae_confirmation_token envelope)"
        using body(1) Executed(1) by (auto simp: presentedToken_def decodeJSON_def split: option.splits if_splits)
      with Executed keeps assms(4) show ?thesis by (auto simp: broker_inv_def broker_spent_def)
    qed
  qed
  then show "broker_inv w'" "broker_spent w k \<Longrightarrow> broker_spent w' k"
    and "mutation_key (BServed (presentedToken srv req) (mutations (bw_host w) (bw_host w'))) = Some k \<Longrightarrow> \<not> broker_spent w k \<and> broker_spent w' k"
    by blast+
qed

text \<open>The broker is itself a single-use ledger: the interface of \<^verbatim>\<open>QC_Grants\<close> at the level of requests.\<close>

interpretation broker_ledger: single_use broker_step broker_inv mutation_key broker_spent
proof
  fix w e w' k
  assume w: "broker_inv w" and step: "broker_step w e w'"
  show "broker_inv w'" using step w
    by cases (auto simp: broker_inv_def [of w] broker_inv_def [of "_\<lparr>bw_grants := _\<rparr>"] broker_inv_def [of "_\<lparr>bw_host := _\<rparr>"]
        intro: grant_step_inv served_keeps(1) [OF _ _ _ w])
  show "broker_spent w' k" if "broker_spent w k"
    using step w that
    by cases (auto simp: broker_spent_def broker_inv_def intro: grant_step_spent served_keeps(2) [OF _ _ _ w, unfolded broker_spent_def])
  show "\<not> broker_spent w k" "broker_spent w' k" if "mutation_key e = Some k"
    using step w that served_keeps(3) [OF _ _ _ w] by (cases; fastforce)+
qed

text \<open>
  C3. A confirmation token starts at most one privileged operation. In every run of the broker - any requests
  in any order, served or rejected, handlers that panic, restarts, crashes at any point of writing the grant
  store, changes of configuration - the tokens of the requests that started a privileged process have
  pairwise different SHA-256 digests.
\<close>

theorem broker_no_replay:
  assumes "steps broker_step w es w'" "broker_inv w"
  shows "distinct (List.map_filter mutation_key es) \<and> broker_inv w'"
  using broker_ledger.keys_used_once [OF assms] by blast

subsection \<open>A confirmed execution\<close>

text \<open>A run on the concrete broker of \<^verbatim>\<open>QC_Transactions\<close>: an approver confirms a plan, an executor has it executed.\<close>

definition demoServer :: "actor \<Rightarrow> broker_server" where
  "demoServer a = \<lparr>srv_registry = demoRegistry (demoEnv ''active'' False), srv_token = ''broker'', srv_body_limit = 1048576,
     srv_actors = Some (RegistryAuthenticator (Some [\<lparr>cred_actor = a, token_sha256 = hexEncode (sha256 ''secret'')\<rparr>])), srv_version = ''v''\<rparr>"

definition demoRequestEnv :: request_env where
  "demoRequestEnv = \<lparr>rq_random = (\<lambda>_. None), rq_token = Some (replicate 32 (CHR ''t'')), rq_grant_id = Some (replicate 16 (CHR ''g'')),
     rq_fault = None\<rparr>"

definition demoBody :: "'a \<Rightarrow> 'a http_body" where
  "demoBody x = \<lparr>hb_length = 900, hb_decode = (\<lambda>_. Some x), hb_only = True\<rparr>"

definition confirmRequest :: broker_request where
  "confirmRequest = \<lparr>br_token = ''broker'', br_ctx = background,
     br_call = CallConfirm (demoBody \<lparr>ce_plan = demoPlan ''service.start'', ce_actor_token = ''secret''\<rparr>)\<rparr>"

definition executeRequest :: broker_request where
  "executeRequest = \<lparr>br_token = ''broker'', br_ctx = background,
     br_call = CallExecuteApproved (demoBody \<lparr>ae_plan = demoPlan ''service.start'', ae_confirmation_token = exampleToken, ae_actor_token = ''secret''\<rparr>)\<rparr>"

definition demoGrant :: confirmation_grant where
  "demoGrant = newGrant (grantEnv demoRequestEnv (63800000000 * second)) (5 * minute) (demoPlan ''service.start'') exampleApprover"

definition demoIssued :: grant_world where
  "demoIssued = (let data = \<lparr>gs_schema = grantStoreSchema, gs_grants = [\<lparr>sg_grant = demoGrant, sg_token_sha256 = sha256_hex exampleToken\<rparr>]\<rparr>
     in \<lparr>w_store = \<lparr>store_ttl = 5 * minute, store_data = data\<rparr>, w_fs = \<lparr>fs_target = stateFile data, fs_temp = None\<rparr>\<rparr>)"

definition demoStart :: broker_world where
  "demoStart = \<lparr>bw_host = demoHost, bw_grants = Some \<lparr>w_store = emptyStore, w_fs = emptyFs\<rparr>\<rparr>"

lemma demo_decode: "decodeJSON 1048576 now (demoBody x) = Inr x"
  by (simp add: decodeJSON_def demoBody_def)

lemma demo_trims: "trimSpace ''secret'' = ''secret''" "trimSpace ''broker'' = ''broker''" "trimSpace ''service.start'' = ''service.start''"
    "trimSpace ''s-1'' = ''s-1''"
  by code_simp+

lemma demo_auth: "authenticateActor (srv_actors (demoServer a)) ''secret'' = Inr a"
  by (simp add: authenticateActor_def demoServer_def demo_trims maxForwardedActorTokenBytes_def)

lemma demo_authorized: "brokerAuthorized (demoServer a) ''broker''"
  by (simp add: brokerAuthorized_def demoServer_def demo_trims)

lemma demo_times: "marshalable (63800000000 * second)" "marshalable (63800000060 * second)" "marshalable 0"
  by code_simp+

lemma demoGrant_sel [simp]:
  "grant_used_at demoGrant = 0" "grant_plan_id demoGrant = ''plan-1''" "grant_plan_digest demoGrant = plan_digest (demoPlan ''service.start'')"
  "grant_subject demoGrant = actor_id exampleNormal" "grant_session_id demoGrant = ''s-1''" "grant_action demoGrant = ''service.start''"
  "grant_issued_at demoGrant = 63800000000 * second" "grant_expires_at demoGrant = 63800000060 * second"
  by (simp_all add: demoGrant_def newGrant_def Let_def grantEnv_def duration_defs)

lemma demo_issue:
  "issue (grantEnv demoRequestEnv (63800000000 * second)) (demoPlan ''service.start'') exampleApprover emptyStore emptyFs =
     (Inr \<lparr>gr_grant = demoGrant, gr_token = exampleToken\<rparr>, w_store demoIssued, w_fs demoIssued)"
proof -
  have "actor_id exampleNormal \<noteq> actor_id exampleApprover" "kind exampleApprover = ActorHuman" "hasPermission exampleApprover PermissionConfirm"
    by (simp_all add: exampleNormal_def exampleApprover_def hasPermission_iff)
  then have "issueChecks (63800000000 * second) \<lparr>gs_schema = grantStoreSchema, gs_grants = []\<rparr> (demoPlan ''service.start'') exampleApprover = None"
    by (simp add: issueChecks_def demo_trims) (simp add: second_def)
  moreover have "grant_marshalable demoGrant" using demo_times by (simp add: grant_marshalable_def)
  ultimately show ?thesis
    by (simp add: issue_def grantEnv_def demoRequestEnv_def emptyStore_def emptyFs_def demoIssued_def persistLocked_eq exampleToken_def Let_def)
      (simp add: demoGrant_def grantEnv_def demoRequestEnv_def)
qed

lemma demo_confirm:
  "serveBroker (demoEnv ''active'' False) (demoServer exampleApprover) demoRequestEnv confirmRequest demoStart =
     Returns (Some (writeJSON 201 (GrantPayload \<lparr>gr_grant = demoGrant, gr_token = exampleToken\<rparr>)),
       \<lparr>bw_host = demoHost, bw_grants = Some demoIssued\<rparr>)"
proof -
  have "kind exampleApprover = ActorHuman" "hasPermission exampleApprover PermissionConfirm"
    by (simp_all add: exampleApprover_def hasPermission_iff)
  then have "handleConfirm (demoServer exampleApprover) demoRequestEnv (63800000000 * second)
      (demoBody \<lparr>ce_plan = demoPlan ''service.start'', ce_actor_token = ''secret''\<rparr>) (Some \<lparr>w_store = emptyStore, w_fs = emptyFs\<rparr>) =
      (writeJSON 201 (GrantPayload \<lparr>gr_grant = demoGrant, gr_token = exampleToken\<rparr>), Some demoIssued)"
    using demoPlan_valid [OF demo_trims(3), of "demoEnv ''active'' False"] demo_auth [of exampleApprover]
    by (simp add: handleConfirm_def demoServer_def demo_decode demo_issue)
  then show ?thesis
    by (simp add: serveBroker_def confirmRequest_def demo_authorized demoStart_def demoHost_def)
qed

lemma demo_consume:
  obtains grant s' fs' where "consume (grantEnv demoRequestEnv (63800000000 * second)) exampleToken (demoPlan ''service.start'')
    (actor_id exampleNormal) ''service.start'' (w_store demoIssued) (w_fs demoIssued) = (Inr grant, s', fs')"
proof -
  have "trimSpace exampleToken \<noteq> []" by (simp add: exampleToken_def)
  moreover have "grant_marshalable (demoGrant\<lparr>grant_used_at := 63800000000 * second\<rparr>)"
    using demo_times by (simp add: grant_marshalable_def)
  ultimately have "\<exists>grant s' fs'. consume (grantEnv demoRequestEnv (63800000000 * second)) exampleToken (demoPlan ''service.start'')
    (actor_id exampleNormal) ''service.start'' (w_store demoIssued) (w_fs demoIssued) = (Inr grant, s', fs')"
    by (simp add: consume_def consumePlanChecks_def consumeChecks_def grantEnv_def demoRequestEnv_def demoIssued_def
        persistLocked_eq token_matches_def sha256_hex_def setUsed_def Let_def) (simp add: second_def)
  then show thesis using that by blast
qed

lemma demo_execution:
  obtains m h' where "runServiceTransaction (demoEnv ''active'' False) (demoRegistry (demoEnv ''active'' False)) background
      ''service.start'' ''quantum-runtime.service'' demoHost = Returns ((Some m, None), h')" "mutations demoHost h' \<noteq> []"
proof -
  let ?env = "demoEnv ''active'' False"
  obtain m h' where run: "runServiceTransaction ?env (demoRegistry ?env) background ''service.start'' ''quantum-runtime.service'' demoHost =
      Returns ((Some m, None), h')" using demo_success by blast
  obtain spec where "policySpec defaultPolicy ''quantum-runtime.service'' = Some spec"
    by (simp add: policySpec_def defaultPolicy_allowed compiledServices_def)
  then obtain res e v as rs where t: "runServiceTransaction ?env (demoRegistry ?env) background ''service.start'' ''quantum-runtime.service'' demoHost =
      Returns ((res, e), v)" "grows (mutation native_observes) demoHost v (as @ rs)"
    "txn_report native_observes (nativeProbe ?env) (healthCheck demoParse ?env)
       (withTimeout background (reg_transaction_timeout (demoRegistry ?env)) (h_clock demoHost)) ''quantum-runtime.service''
       (spec_health_url spec) (expectedActiveState ''service.start'') res e as rs demoHost v"
    by (rule native_transaction [OF demo_registry, of "''quantum-runtime.service''" _ ?env background "''service.start''" demoHost]) blast
  with run have "as \<noteq> []" "v = h'" by (auto simp: txn_report_def)
  with t(2) have "mutations demoHost h' \<noteq> []" by (auto simp: grows_def mutations_def mutation_def [abs_def])
  with run show thesis by (rule that)
qed

lemma demo_execute:
  obtains resp w' where "serveBroker (demoEnv ''active'' False) (demoServer demoExecutor) demoRequestEnv executeRequest
      \<lparr>bw_host = demoHost, bw_grants = Some demoIssued\<rparr> = Returns (resp, w')" "mutations demoHost (bw_host w') \<noteq> []"
proof -
  let ?env = "demoEnv ''active'' False" and ?plan = "demoPlan ''service.start''"
  obtain m h' where run: "runServiceTransaction ?env (demoRegistry ?env) background ''service.start'' ''quantum-runtime.service'' demoHost =
      Returns ((Some m, None), h')" and mut: "mutations demoHost h' \<noteq> []" by (rule demo_execution)
  obtain grant s' fs' where c: "consume (grantEnv demoRequestEnv (63800000000 * second)) exampleToken ?plan
    (actor_id exampleNormal) ''service.start'' (w_store demoIssued) (w_fs demoIssued) = (Inr grant, s', fs')" by (rule demo_consume)
  have clock: "h_clock demoHost = 63800000000 * second" by (simp add: demoHost_def)
  have "trimSpace ''unit'' = ''unit''" by code_simp
  then have params: "exactPlanParameters ?plan = Inr [(''unit'', ''quantum-runtime.service'')]"
    by (simp add: exactPlanParameters_def Let_def)
  have "runHandler ?env (demoRegistry ?env) (Some (TransactionHandler ''service.start'')) background
      (planRequestOf ?plan [(''unit'', ''quantum-runtime.service'')]) demoHost = Returns ((Some m, None), h')"
    using run by (simp add: runHandler_def unitParameter_def planRequestOf_def)
  then have "\<exists>rsp. executeApproved ?env (demoRegistry ?env) rnd background ?plan demoExecutor demoHost = Returns (rsp, h')" for rnd
    using demoPlan_valid [OF demo_trims(3), of ?env] demoExecutor_mutates params
    by (simp add: executeApproved_def Let_def clock native_facts(1) [OF demo_registry] enabledOperations_def)
  then obtain rsp where "executeApproved ?env (demoRegistry ?env) (\<lambda>k. rq_random demoRequestEnv (k + 2)) background ?plan demoExecutor demoHost =
      Returns (rsp, h')" by blast
  then have "\<exists>resp. serveBroker ?env (demoServer demoExecutor) demoRequestEnv executeRequest \<lparr>bw_host = demoHost, bw_grants = Some demoIssued\<rparr> =
      Returns (resp, \<lparr>bw_host = h', bw_grants = Some \<lparr>w_store = s', w_fs = fs'\<rparr>\<rparr>)"
    using demoPlan_valid [OF demo_trims(3), of ?env] demoExecutor_mutates demo_auth [of demoExecutor] c
    by (simp add: serveBroker_def executeRequest_def demo_authorized handleExecuteApproved_def clock Let_def)
      (simp add: demoServer_def demo_decode)
  with mut that show thesis by auto
qed

lemma demo_server_native:
  "native_registry (demoEnv ''active'' False) \<lparr>nat_binary = []\<rparr> demoParse defaultPolicy (srv_registry (demoServer a))" "policy_ok defaultPolicy"
  using demo_registry by (simp_all add: demoServer_def) (rule loadPolicy_ok [of "[]"], simp add: loadPolicy_def)

theorem broker_mutation_authorised_witness:
  "\<exists>resp w' grant s' fs'. serveBroker (demoEnv ''active'' False) (demoServer demoExecutor) demoRequestEnv executeRequest
      \<lparr>bw_host = demoHost, bw_grants = Some demoIssued\<rparr> = Returns (resp, w') \<and> mutations demoHost (bw_host w') \<noteq> [] \<and>
     consume (grantEnv demoRequestEnv (h_clock demoHost)) exampleToken (demoPlan ''service.start'') (actor_id exampleNormal) ''service.start''
       (w_store demoIssued) (w_fs demoIssued) = (Inr grant, s', fs')"
proof -
  obtain resp w' where run: "serveBroker (demoEnv ''active'' False) (demoServer demoExecutor) demoRequestEnv executeRequest
      \<lparr>bw_host = demoHost, bw_grants = Some demoIssued\<rparr> = Returns (resp, w')" and mut: "mutations demoHost (bw_host w') \<noteq> []"
    by (rule demo_execute)
  from broker_mutation_authorised [OF demo_server_native run] mut run show ?thesis
    by (auto simp: executeRequest_def demoServer_def demo_decode)
qed

theorem broker_grant_is_human_decision_witness:
  "\<exists>resp w'. serveBroker (demoEnv ''active'' False) (demoServer exampleApprover) demoRequestEnv confirmRequest demoStart = Returns (Some resp, w') \<and>
     hs_payload resp = GrantPayload \<lparr>gr_grant = demoGrant, gr_token = exampleToken\<rparr> \<and> actor_id exampleApprover \<noteq> actor_id exampleNormal"
proof -
  have "hs_payload (writeJSON 201 (GrantPayload r)) = GrantPayload r" for r by (simp add: writeJSON_def)
  with broker_grant_is_human_decision [OF demo_server_native demo_confirm] demo_confirm show ?thesis
    by (auto simp: confirmRequest_def demoServer_def demo_decode demo_auth [unfolded demoServer_def, simplified])
qed

theorem broker_no_replay_witness:
  "\<exists>ms w'. steps broker_step demoStart [BServed None [], BServed (Some exampleToken) ms] w' \<and> ms \<noteq> [] \<and> broker_inv w'"
proof -
  obtain resp w' where run: "serveBroker (demoEnv ''active'' False) (demoServer demoExecutor) demoRequestEnv executeRequest
      \<lparr>bw_host = demoHost, bw_grants = Some demoIssued\<rparr> = Returns (resp, w')" and mut: "mutations demoHost (bw_host w') \<noteq> []"
    by (rule demo_execute)
  have tokens: "presentedToken (demoServer a) confirmRequest = None" "presentedToken (demoServer a) executeRequest = Some exampleToken" for a
    by (simp_all add: presentedToken_def confirmRequest_def executeRequest_def demoBody_def)
  have "broker_step demoStart (BServed None []) \<lparr>bw_host = demoHost, bw_grants = Some demoIssued\<rparr>"
    using broker_step.served [OF demo_server_native demo_confirm] by (simp add: tokens demoStart_def)
  moreover have "broker_step \<lparr>bw_host = demoHost, bw_grants = Some demoIssued\<rparr> (BServed (Some exampleToken) (mutations demoHost (bw_host w'))) w'"
    using broker_step.served [OF demo_server_native run] by (simp add: tokens)
  ultimately have "steps broker_step demoStart [BServed None [], BServed (Some exampleToken) (mutations demoHost (bw_host w'))] w'"
    by (blast intro: steps.intros)
  moreover have "broker_inv demoStart"
    by (simp add: broker_inv_def demoStart_def demoHost_def empty_world_inv duration_defs)
  ultimately show ?thesis using broker_no_replay mut by blast
qed

end
