(* ===== verification/QC_Client.thy ===== *)
theory QC_Client
  imports QC_Broker
begin

text \<open>
  The broker as the public service sees it: the interfaces \<^verbatim>\<open>API\<close> and \<^verbatim>\<open>ApprovalAPI\<close>, the HTTP client that
  implements them (\<^verbatim>\<open>internal/broker/client.go\<close>), and the Unix listener the broker accepts on
  (\<^verbatim>\<open>internal/broker/listener.go\<close>).

  The transport is a function \<open>send\<close> over a world \<open>'w\<close> that holds whatever is behind the socket: it may fail
  after the broker has acted. The JSON encoder and decoder of the standard library are the fields of a \<open>json_codec\<close>.
\<close>

subsection \<open>The interfaces\<close>

datatype client_error =
    EncodeRequest
  | BrokerRequest
  | ReadResponse
  | ResponseTooLarge
  | UnexpectedStatus nat string
  | DecodeResponse

record 'w approval_api =
  api_confirm :: "operation_plan \<Rightarrow> string \<Rightarrow> 'w \<Rightarrow> (client_error + grant_response) \<times> 'w"
  api_execute_approved :: "operation_plan \<Rightarrow> string \<Rightarrow> string \<Rightarrow> 'w \<Rightarrow> (client_error + operation_response) \<times> 'w"

record 'w broker_api =
  api_health :: "'w \<Rightarrow> client_error option \<times> 'w"
  api_catalog :: "'w \<Rightarrow> (client_error + operation_definition list) \<times> 'w"
  api_plan :: "operation_request \<Rightarrow> 'w \<Rightarrow> (client_error + broker_plan) \<times> 'w"
  api_execute :: "operation_request \<Rightarrow> 'w \<Rightarrow> (client_error + operation_response) \<times> 'w"
  api_approval :: "'w approval_api option"

subsection \<open>The client\<close>

definition maxBrokerResponseBytes :: int where "maxBrokerResponseBytes = 4194304"

record client_request =
  clr_method :: string
  clr_path :: string
  clr_headers :: smap
  clr_body :: "string option"

text \<open>A reply: the bytes of the body that arrive, and whether the stream ends there without an error.\<close>

record http_reply =
  rp_status :: nat
  rp_data :: string
  rp_intact :: bool

type_synonym 'w transport = "client_request \<Rightarrow> 'w \<Rightarrow> http_reply option \<times> 'w"

record json_codec =
  jc_request :: "operation_request \<Rightarrow> string option"
  jc_confirmation :: "confirmation_envelope \<Rightarrow> string option"
  jc_approved :: "approved_execution_envelope \<Rightarrow> string option"
  jd_object :: "string \<Rightarrow> anymap option"
  jd_catalog :: "string \<Rightarrow> operation_definition list option"
  jd_plan :: "string \<Rightarrow> broker_plan option"
  jd_response :: "string \<Rightarrow> operation_response option"
  jd_grant :: "string \<Rightarrow> grant_response option"

definition containsStatus :: "nat list \<Rightarrow> nat \<Rightarrow> bool" where
  "containsStatus statuses status = list_ex (\<lambda>accepted. accepted = status) statuses"

text \<open>\<^verbatim>\<open>io.ReadAll(io.LimitReader(body, limit))\<close>.\<close>

definition readLimited :: "int \<Rightarrow> http_reply \<Rightarrow> string option" where
  "readLimited limit reply =
     (let data = take (nat limit) (rp_data reply) in
      if int (length data) < limit \<and> \<not> rp_intact reply then None else Some data)"

definition readReply :: "nat list \<Rightarrow> (string \<Rightarrow> 'a option) \<Rightarrow> http_reply \<Rightarrow> client_error + 'a" where
  "readReply acceptedStatuses decode reply =
     (case readLimited (maxBrokerResponseBytes + 1) reply of
        None \<Rightarrow> Inl ReadResponse
      | Some data \<Rightarrow>
          if int (length data) > maxBrokerResponseBytes then Inl ResponseTooLarge
          else if \<not> containsStatus acceptedStatuses (rp_status reply) then
            Inl (UnexpectedStatus (rp_status reply) (take 65536 (trimSpace data)))
          else (case decode data of None \<Rightarrow> Inl DecodeResponse | Some x \<Rightarrow> Inr x))"

definition clientRequest :: "string \<Rightarrow> string \<Rightarrow> string \<Rightarrow> string option \<Rightarrow> bool \<Rightarrow> client_request" where
  "clientRequest token verb path body authenticated = \<lparr>clr_method = verb, clr_path = path,
     clr_headers = (if body = None then [] else [(''Content-Type'', ''application/json'')]) @
       (if authenticated then [(''X-Quantum-Broker-Token'', token)] else []),
     clr_body = body\<rparr>"

text \<open>\<open>input\<close> is \<open>None\<close> where the call has no body, and otherwise what \<^verbatim>\<open>json.Marshal\<close> makes of the input.\<close>

definition clientDo ::
  "'w transport \<Rightarrow> string \<Rightarrow> string \<Rightarrow> string \<Rightarrow> string option option \<Rightarrow> (string \<Rightarrow> 'a option) \<Rightarrow> bool \<Rightarrow> nat list \<Rightarrow>
   'w \<Rightarrow> (client_error + 'a) \<times> 'w" where
  "clientDo send token verb path input decode authenticated acceptedStatuses w =
     (case input of
        Some None \<Rightarrow> (Inl EncodeRequest, w)
      | _ \<Rightarrow>
          (case send (clientRequest token verb path (Option.bind input id) authenticated) w of
             (None, w') \<Rightarrow> (Inl BrokerRequest, w')
           | (Some reply, w') \<Rightarrow> (readReply acceptedStatuses decode reply, w')))"

definition clientHealth :: "'w transport \<Rightarrow> json_codec \<Rightarrow> string \<Rightarrow> 'w \<Rightarrow> client_error option \<times> 'w" where
  "clientHealth send codec token w =
     (case clientDo send token ''GET'' ''/healthz'' None (jd_object codec) False [200] w of
        (Inl e, w') \<Rightarrow> (Some e, w') | (Inr _, w') \<Rightarrow> (None, w'))"

definition clientCatalog :: "'w transport \<Rightarrow> json_codec \<Rightarrow> string \<Rightarrow> 'w \<Rightarrow> (client_error + operation_definition list) \<times> 'w" where
  "clientCatalog send codec token = clientDo send token ''GET'' ''/v1/operations'' None (jd_catalog codec) True [200]"

definition clientPlan :: "'w transport \<Rightarrow> json_codec \<Rightarrow> string \<Rightarrow> operation_request \<Rightarrow> 'w \<Rightarrow> (client_error + broker_plan) \<times> 'w" where
  "clientPlan send codec token request =
     clientDo send token ''POST'' ''/v1/plan'' (Some (jc_request codec request)) (jd_plan codec) True [200, 400]"

definition clientExecute :: "'w transport \<Rightarrow> json_codec \<Rightarrow> string \<Rightarrow> operation_request \<Rightarrow> 'w \<Rightarrow> (client_error + operation_response) \<times> 'w" where
  "clientExecute send codec token request =
     clientDo send token ''POST'' ''/v1/execute'' (Some (jc_request codec request)) (jd_response codec) True [200, 400, 500]"

definition clientConfirm :: "'w transport \<Rightarrow> json_codec \<Rightarrow> string \<Rightarrow> operation_plan \<Rightarrow> string \<Rightarrow> 'w \<Rightarrow> (client_error + grant_response) \<times> 'w" where
  "clientConfirm send codec token plan actorToken =
     clientDo send token ''POST'' ''/v1/confirm'' (Some (jc_confirmation codec \<lparr>ce_plan = plan, ce_actor_token = actorToken\<rparr>))
       (jd_grant codec) True [201]"

definition clientExecuteApproved ::
  "'w transport \<Rightarrow> json_codec \<Rightarrow> string \<Rightarrow> operation_plan \<Rightarrow> string \<Rightarrow> string \<Rightarrow> 'w \<Rightarrow> (client_error + operation_response) \<times> 'w" where
  "clientExecuteApproved send codec token plan confirmationToken actorToken =
     clientDo send token ''POST'' ''/v1/execute-approved''
       (Some (jc_approved codec \<lparr>ae_plan = plan, ae_confirmation_token = confirmationToken, ae_actor_token = actorToken\<rparr>))
       (jd_response codec) True [200, 400, 500]"

definition newClient :: "'w transport \<Rightarrow> json_codec \<Rightarrow> string \<Rightarrow> 'w broker_api" where
  "newClient send codec token = \<lparr>
     api_health = clientHealth send codec token, api_catalog = clientCatalog send codec token,
     api_plan = clientPlan send codec token, api_execute = clientExecute send codec token,
     api_approval = Some \<lparr>api_confirm = clientConfirm send codec token, api_execute_approved = clientExecuteApproved send codec token\<rparr>\<rparr>"

subsection \<open>The Unix listener\<close>

text \<open>
  \<^verbatim>\<open>ListenUnix\<close> over the state of one path: what is there, and what \<^verbatim>\<open>net.DialTimeout\<close> finds. The calls that may
  fail are the stages; \<open>fault\<close> is the one that fails, if any. A socket whose mode could not be set is taken away again.
\<close>

datatype socket_entry = NoEntry | StaleSocket | LiveSocket | SilentSocket | OtherEntry

datatype listen_stage = ListenMkdir | ListenInspect | ListenRemove | ListenBind | ListenChmod

datatype listen_error =
    CreateSocketDirectory | InvalidSocket | AlreadyListening | InspectListener | RemoveStaleSocket | InspectSocketPath
  | ListenOnSocket | SetSocketPermissions

text \<open>A path as the file system has it, with the listener this process holds on it.\<close>

record socket_state =
  sk_entry :: socket_entry
  sk_mode :: nat
  sk_bound :: bool

definition bindSocket :: "listen_stage option \<Rightarrow> socket_state \<Rightarrow> (listen_error option) \<times> socket_state" where
  "bindSocket fault st =
     (if fault = Some ListenBind \<or> sk_entry st \<noteq> NoEntry then (Some ListenOnSocket, st)
      else if fault = Some ListenChmod then (Some SetSocketPermissions, st)
      else (None, st\<lparr>sk_entry := LiveSocket, sk_mode := 0x1B0, sk_bound := True\<rparr>))"

definition listenUnix :: "listen_stage option \<Rightarrow> socket_state \<Rightarrow> listen_error option \<times> socket_state" where
  "listenUnix fault st =
     (if fault = Some ListenMkdir then (Some CreateSocketDirectory, st)
      else if fault = Some ListenInspect then (Some InspectSocketPath, st)
      else case sk_entry st of
        NoEntry \<Rightarrow> bindSocket fault st
      | OtherEntry \<Rightarrow> (Some InvalidSocket, st)
      | LiveSocket \<Rightarrow> (Some AlreadyListening, st)
      | SilentSocket \<Rightarrow> (Some InspectListener, st)
      | StaleSocket \<Rightarrow>
          if fault = Some ListenRemove then (Some RemoveStaleSocket, st)
          else bindSocket fault (st\<lparr>sk_entry := NoEntry\<rparr>))"

text \<open>
  \<^verbatim>\<open>cleanupListener.Close\<close>: both calls are made; the error of the listener comes first, and a missing file is no error
  of the removal. \<open>closeErr\<close> and \<open>removeErr\<close> say which call fails. A socket of this listener that is not removed has nobody listening.
\<close>

datatype close_error = CloseFailed | RemoveFailed

definition closeListener :: "bool \<Rightarrow> bool \<Rightarrow> socket_state \<Rightarrow> close_error option \<times> socket_state" where
  "closeListener closeErr removeErr st =
     (let st' = st\<lparr>sk_bound := False,
        sk_entry := (if \<not> removeErr then NoEntry else if sk_bound st \<and> sk_entry st = LiveSocket then StaleSocket else sk_entry st)\<rparr> in
      if closeErr then (Some CloseFailed, st')
      else if removeErr \<and> sk_entry st \<noteq> NoEntry then (Some RemoveFailed, st')
      else (None, st'))"

end
