(* ===== verification/QC_Config.thy ===== *)
theory QC_Config
  imports QC_Net QC_Registry QC_Grants
begin

text \<open>
  Configuration of the two services (\<^verbatim>\<open>internal/config/config.go\<close>): reading the environment, the broker token, and
  the validation of both configurations.

  The environment is a function from names to values, empty when unset, as \<^verbatim>\<open>os.Getenv\<close> reports it; the files are
  a function from paths to contents, \<open>None\<close> when unreadable. \<^verbatim>\<open>time.ParseDuration\<close> is a parameter \<open>pd\<close>, since it
  rounds fractions in floating point; \<^verbatim>\<open>strconv.ParseInt(s, 10, 64)\<close> is modelled.
\<close>

subsection \<open>Reading values\<close>

type_synonym environ = "string \<Rightarrow> string"

datatype config_error =
    TokenTooShort
  | TokenFileUnreadable string
  | ParseFailed string
  | BadListen
  | NotAbsolute string
  | APITokenTooShort
  | PlanTTLRange
  | BodyLimitTooSmall
  | TimeoutsNotPositive
  | OpenListenNeedsCredential
  | GrantTTLRange
  | TransactionTimeoutRange
  | PollIntervalRange

definition defaultControlListen :: string where "defaultControlListen = ''127.0.0.1:17440''"
definition defaultBrokerSocket :: string where "defaultBrokerSocket = ''/run/quantum-control/qcored.sock''"
definition defaultTokenFile :: string where "defaultTokenFile = ''/etc/quantum-control/broker.token''"
definition defaultAuditPath :: string where "defaultAuditPath = ''/var/lib/quantum-control/audit/audit.jsonl''"
definition defaultBrokerGrantPath :: string where "defaultBrokerGrantPath = ''/var/lib/quantum-control-broker/grants.json''"
definition defaultBodyLimit :: int where "defaultBodyLimit = 1048576"
definition defaultTransactionTimeout :: duration where "defaultTransactionTimeout = 30 * second"
definition defaultServicePoll :: duration where "defaultServicePoll = 250 * millisecond"

lemmas config_defaults = defaultControlListen_def defaultBrokerSocket_def defaultTokenFile_def defaultAuditPath_def
  defaultBrokerGrantPath_def defaultBodyLimit_def defaultTransactionTimeout_def defaultServicePoll_def

text \<open>\<^verbatim>\<open>strconv.ParseInt(s, 10, 64)\<close>: an optional sign, decimal digits, and the range of 64 bits.\<close>

fun digitsValue :: "nat \<Rightarrow> string \<Rightarrow> nat option" where
  "digitsValue v [] = Some v"
| "digitsValue v (c # cs) = (if is_digit c then digitsValue (v * 10 + (byte_of c - 0x30)) cs else None)"

definition parseInt64 :: "string \<Rightarrow> int option" where
  "parseInt64 s =
     (let neg = prefix ''-'' s; body = (if prefix ''-'' s \<or> prefix ''+'' s then tl s else s)
      in if body = [] then None
         else case digitsValue 0 body of
           None \<Rightarrow> None
         | Some v \<Rightarrow>
             (let n = (if neg then - int v else int v)
              in if n < - (2 ^ 63) \<or> 2 ^ 63 \<le> n then None else Some n))"

definition envOr :: "environ \<Rightarrow> string \<Rightarrow> string \<Rightarrow> string" where
  "envOr env key fallback = (let v = trimSpace (env key) in if v \<noteq> [] then v else fallback)"

definition envInt64 :: "environ \<Rightarrow> string \<Rightarrow> int \<Rightarrow> config_error + int" where
  "envInt64 env key fallback =
     (let v = trimSpace (env key) in
      if v = [] then Inr fallback
      else case parseInt64 v of None \<Rightarrow> Inl (ParseFailed key) | Some n \<Rightarrow> Inr n)"

definition envDuration :: "(string \<Rightarrow> duration option) \<Rightarrow> environ \<Rightarrow> string \<Rightarrow> duration \<Rightarrow> config_error + duration" where
  "envDuration pd env key fallback =
     (let v = trimSpace (env key) in
      if v = [] then Inr fallback
      else case pd v of None \<Rightarrow> Inl (ParseFailed key) | Some d \<Rightarrow> Inr d)"

definition loadBrokerToken :: "environ \<Rightarrow> (string \<Rightarrow> string option) \<Rightarrow> config_error + string" where
  "loadBrokerToken env files =
     (let token = trimSpace (env ''QUANTUM_CONTROL_BROKER_TOKEN'') in
      if token \<noteq> [] then (if length token < 32 then Inl TokenTooShort else Inr token)
      else
        (let path = envOr env ''QUANTUM_CONTROL_BROKER_TOKEN_FILE'' defaultTokenFile in
         case files path of
           None \<Rightarrow> Inl (TokenFileUnreadable path)
         | Some data \<Rightarrow>
             (let t = trimSpace data in if length t < 32 then Inl TokenTooShort else Inr t)))"

definition isAbs :: "string \<Rightarrow> bool" where
  "isAbs path = prefix ''/'' path"

definition isLoopbackListen :: "string \<Rightarrow> bool" where
  "isLoopbackListen address =
     (case splitHostPort address of
        None \<Rightarrow> False
      | Some (host0, _) \<Rightarrow>
          (let host = trimSpace (trimSet (set ''[]'') host0) in
           equalFold host ''localhost'' \<or> (case parseIP host of None \<Rightarrow> False | Some ip \<Rightarrow> isLoopback ip)))"

subsection \<open>The configurations\<close>

record control_config =
  cc_listen :: string
  cc_api_token :: string
  cc_actor_file :: string
  cc_audit_path :: string
  cc_plan_ttl :: duration
  cc_broker_socket :: string
  cc_broker_token :: string
  cc_body_limit :: int
  cc_header_timeout :: duration
  cc_idle_timeout :: duration
  cc_broker_timeout :: duration

record broker_config =
  bc_socket_path :: string
  bc_broker_token :: string
  bc_actor_file :: string
  bc_grant_path :: string
  bc_grant_ttl :: duration
  bc_service_policy_file :: string
  bc_transaction_timeout :: duration
  bc_service_poll_interval :: duration
  bc_body_limit :: int
  bc_header_timeout :: duration
  bc_idle_timeout :: duration

definition validateControl :: "control_config \<Rightarrow> config_error option" where
  "validateControl c =
     (if splitHostPort (cc_listen c) = None then Some BadListen
      else if \<not> isAbs (cc_broker_socket c) then Some (NotAbsolute ''QUANTUM_CONTROL_BROKER_SOCKET'')
      else if length (cc_broker_token c) < 32 then Some TokenTooShort
      else if cc_api_token c \<noteq> [] \<and> length (cc_api_token c) < 32 then Some APITokenTooShort
      else if cc_actor_file c \<noteq> [] \<and> \<not> isAbs (cc_actor_file c) then Some (NotAbsolute ''QUANTUM_CONTROL_ACTOR_FILE'')
      else if \<not> isAbs (cc_audit_path c) then Some (NotAbsolute ''QUANTUM_CONTROL_AUDIT_PATH'')
      else if cc_plan_ttl c \<le> 0 \<or> cc_plan_ttl c > 15 * minute then Some PlanTTLRange
      else if cc_body_limit c < 1024 then Some BodyLimitTooSmall
      else if cc_header_timeout c \<le> 0 \<or> cc_idle_timeout c \<le> 0 \<or> cc_broker_timeout c \<le> 0 then Some TimeoutsNotPositive
      else if \<not> isLoopbackListen (cc_listen c) \<and> cc_api_token c = [] \<and> cc_actor_file c = [] then Some OpenListenNeedsCredential
      else None)"

definition validateBroker :: "broker_config \<Rightarrow> config_error option" where
  "validateBroker c =
     (if \<not> isAbs (bc_socket_path c) then Some (NotAbsolute ''QUANTUM_CONTROL_BROKER_SOCKET'')
      else if length (bc_broker_token c) < 32 then Some TokenTooShort
      else if bc_actor_file c \<noteq> [] \<and> \<not> isAbs (bc_actor_file c) then Some (NotAbsolute ''QUANTUM_CONTROL_ACTOR_FILE'')
      else if \<not> isAbs (bc_grant_path c) then Some (NotAbsolute ''QUANTUM_CONTROL_GRANT_PATH'')
      else if bc_grant_ttl c \<le> 0 \<or> bc_grant_ttl c > 15 * minute then Some GrantTTLRange
      else if bc_service_policy_file c \<noteq> [] \<and> \<not> isAbs (bc_service_policy_file c) then Some (NotAbsolute ''QUANTUM_CONTROL_SERVICE_POLICY_FILE'')
      else if bc_transaction_timeout c < second \<or> bc_transaction_timeout c > 2 * minute then Some TransactionTimeoutRange
      else if bc_service_poll_interval c < 10 * millisecond \<or> bc_service_poll_interval c > 5 * second then Some PollIntervalRange
      else if bc_body_limit c < 1024 then Some BodyLimitTooSmall
      else if bc_header_timeout c \<le> 0 \<or> bc_idle_timeout c \<le> 0 then Some TimeoutsNotPositive
      else None)"

text \<open>The two loaders read their values in the order of the source and stop at the first error.\<close>

definition bindE :: "'e + 'a \<Rightarrow> ('a \<Rightarrow> 'e + 'b) \<Rightarrow> 'e + 'b" where
  "bindE x f = (case x of Inl e \<Rightarrow> Inl e | Inr a \<Rightarrow> f a)"

definition loadControl :: "(string \<Rightarrow> duration option) \<Rightarrow> environ \<Rightarrow> (string \<Rightarrow> string option) \<Rightarrow> config_error + control_config" where
  "loadControl pd env files =
     bindE (loadBrokerToken env files) (\<lambda>brokerToken.
     bindE (envInt64 env ''QUANTUM_CONTROL_REQUEST_BODY_LIMIT'' defaultBodyLimit) (\<lambda>bodyLimit.
     bindE (envDuration pd env ''QUANTUM_CONTROL_HEADER_TIMEOUT'' (10 * second)) (\<lambda>headerTimeout.
     bindE (envDuration pd env ''QUANTUM_CONTROL_IDLE_TIMEOUT'' (90 * second)) (\<lambda>idleTimeout.
     bindE (envDuration pd env ''QUANTUM_CONTROL_BROKER_TIMEOUT'' (15 * second)) (\<lambda>brokerTimeout.
     bindE (envDuration pd env ''QUANTUM_CONTROL_PLAN_TTL'' (5 * minute)) (\<lambda>planTTL.
       let cfg = \<lparr>cc_listen = envOr env ''QUANTUM_CONTROL_LISTEN'' defaultControlListen,
                  cc_api_token = trimSpace (env ''QUANTUM_CONTROL_API_TOKEN''),
                  cc_actor_file = trimSpace (env ''QUANTUM_CONTROL_ACTOR_FILE''),
                  cc_audit_path = envOr env ''QUANTUM_CONTROL_AUDIT_PATH'' defaultAuditPath,
                  cc_plan_ttl = planTTL,
                  cc_broker_socket = envOr env ''QUANTUM_CONTROL_BROKER_SOCKET'' defaultBrokerSocket,
                  cc_broker_token = brokerToken, cc_body_limit = bodyLimit, cc_header_timeout = headerTimeout,
                  cc_idle_timeout = idleTimeout, cc_broker_timeout = brokerTimeout\<rparr>
       in case validateControl cfg of Some e \<Rightarrow> Inl e | None \<Rightarrow> Inr cfg))))))"

definition loadBroker :: "(string \<Rightarrow> duration option) \<Rightarrow> environ \<Rightarrow> (string \<Rightarrow> string option) \<Rightarrow> config_error + broker_config" where
  "loadBroker pd env files =
     bindE (loadBrokerToken env files) (\<lambda>brokerToken.
     bindE (envInt64 env ''QUANTUM_CONTROL_BROKER_REQUEST_BODY_LIMIT'' defaultBodyLimit) (\<lambda>bodyLimit.
     bindE (envDuration pd env ''QUANTUM_CONTROL_BROKER_HEADER_TIMEOUT'' (10 * second)) (\<lambda>headerTimeout.
     bindE (envDuration pd env ''QUANTUM_CONTROL_BROKER_IDLE_TIMEOUT'' (30 * second)) (\<lambda>idleTimeout.
     bindE (envDuration pd env ''QUANTUM_CONTROL_GRANT_TTL'' (2 * minute)) (\<lambda>grantTTL.
     bindE (envDuration pd env ''QUANTUM_CONTROL_TRANSACTION_TIMEOUT'' defaultTransactionTimeout) (\<lambda>transactionTimeout.
     bindE (envDuration pd env ''QUANTUM_CONTROL_SERVICE_POLL_INTERVAL'' defaultServicePoll) (\<lambda>pollInterval.
       let cfg = \<lparr>bc_socket_path = envOr env ''QUANTUM_CONTROL_BROKER_SOCKET'' defaultBrokerSocket, bc_broker_token = brokerToken,
                  bc_actor_file = trimSpace (env ''QUANTUM_CONTROL_ACTOR_FILE''),
                  bc_grant_path = envOr env ''QUANTUM_CONTROL_GRANT_PATH'' defaultBrokerGrantPath, bc_grant_ttl = grantTTL,
                  bc_service_policy_file = trimSpace (env ''QUANTUM_CONTROL_SERVICE_POLICY_FILE''),
                  bc_transaction_timeout = transactionTimeout, bc_service_poll_interval = pollInterval, bc_body_limit = bodyLimit,
                  bc_header_timeout = headerTimeout, bc_idle_timeout = idleTimeout\<rparr>
       in case validateBroker cfg of Some e \<Rightarrow> Inl e | None \<Rightarrow> Inr cfg)))))))"

subsection \<open>What a loaded configuration promises\<close>

lemma bindE_Inr: "bindE x f = Inr b \<longleftrightarrow> (\<exists>a. x = Inr a \<and> f a = Inr b)"
  by (cases x) (auto simp: bindE_def)

lemma loadControl_valid:
  assumes "loadControl pd env files = Inr c"
  shows "validateControl c = None" "cc_api_token c = trimSpace (env ''QUANTUM_CONTROL_API_TOKEN'')"
    "cc_actor_file c = trimSpace (env ''QUANTUM_CONTROL_ACTOR_FILE'')"
  using assms by (auto simp: loadControl_def bindE_Inr Let_def split: option.splits)

lemma loadBroker_valid: "loadBroker pd env files = Inr c \<Longrightarrow> validateBroker c = None"
  by (auto simp: loadBroker_def bindE_Inr Let_def split: option.splits)

lemma loadControl_sources:
  assumes "loadControl pd env files = Inr c"
  shows "loadBrokerToken env files = Inr (cc_broker_token c)"
    "envInt64 env ''QUANTUM_CONTROL_REQUEST_BODY_LIMIT'' defaultBodyLimit = Inr (cc_body_limit c)"
    "envDuration pd env ''QUANTUM_CONTROL_HEADER_TIMEOUT'' (10 * second) = Inr (cc_header_timeout c)"
    "envDuration pd env ''QUANTUM_CONTROL_IDLE_TIMEOUT'' (90 * second) = Inr (cc_idle_timeout c)"
    "envDuration pd env ''QUANTUM_CONTROL_BROKER_TIMEOUT'' (15 * second) = Inr (cc_broker_timeout c)"
    "envDuration pd env ''QUANTUM_CONTROL_PLAN_TTL'' (5 * minute) = Inr (cc_plan_ttl c)"
    "cc_listen c = envOr env ''QUANTUM_CONTROL_LISTEN'' defaultControlListen"
  using assms by (auto simp: loadControl_def bindE_Inr Let_def split: option.splits)

text \<open>
  C39. The public API is never open to the network without credentials, and its limits are in range. A
  configuration that loads with neither an API token nor an actor file listens on a host that is
  \<^verbatim>\<open>localhost\<close> or a literal address on the loopback network. In every configuration that loads, an API token,
  where there is one, and the broker token have at least 32 bytes; the broker socket, the audit log and the
  actor file, where there is one, are absolute paths; plans live more than zero and at most fifteen minutes;
  the body limit is at least 1024 bytes; the three timeouts are positive; and the lifetime, the limit, the
  timeouts and the listen address are those of their environment variables, or the documented defaults where
  these are unset.
\<close>

theorem control_open_only_on_loopback:
  assumes "loadControl pd env files = Inr c"
  shows "32 \<le> length (cc_broker_token c) \<and> (cc_api_token c = [] \<or> 32 \<le> length (cc_api_token c)) \<and>
    (trimSpace (env ''QUANTUM_CONTROL_API_TOKEN'') = [] \<and> trimSpace (env ''QUANTUM_CONTROL_ACTOR_FILE'') = [] \<longrightarrow>
      (\<exists>host port. splitHostPort (cc_listen c) = Some (host, port) \<and>
        (equalFold (trimSpace (trimSet (set ''[]'') host)) ''localhost'' \<or>
         (\<exists>ip. parseIP (trimSpace (trimSet (set ''[]'') host)) = Some ip \<and> isLoopback ip)))) \<and>
    isAbs (cc_broker_socket c) \<and> isAbs (cc_audit_path c) \<and> (cc_actor_file c = [] \<or> isAbs (cc_actor_file c)) \<and>
    0 < cc_plan_ttl c \<and> cc_plan_ttl c \<le> 15 * minute \<and> 1024 \<le> cc_body_limit c \<and>
    0 < cc_header_timeout c \<and> 0 < cc_idle_timeout c \<and> 0 < cc_broker_timeout c \<and>
    envDuration pd env ''QUANTUM_CONTROL_PLAN_TTL'' (5 * minute) = Inr (cc_plan_ttl c) \<and>
    envInt64 env ''QUANTUM_CONTROL_REQUEST_BODY_LIMIT'' defaultBodyLimit = Inr (cc_body_limit c) \<and>
    envDuration pd env ''QUANTUM_CONTROL_HEADER_TIMEOUT'' (10 * second) = Inr (cc_header_timeout c) \<and>
    envDuration pd env ''QUANTUM_CONTROL_IDLE_TIMEOUT'' (90 * second) = Inr (cc_idle_timeout c) \<and>
    envDuration pd env ''QUANTUM_CONTROL_BROKER_TIMEOUT'' (15 * second) = Inr (cc_broker_timeout c) \<and>
    cc_listen c = envOr env ''QUANTUM_CONTROL_LISTEN'' defaultControlListen"
proof -
  note v = loadControl_valid [OF assms]
  have "trimSpace (env ''QUANTUM_CONTROL_API_TOKEN'') = [] \<and> trimSpace (env ''QUANTUM_CONTROL_ACTOR_FILE'') = [] \<longrightarrow>
      (\<exists>host port. splitHostPort (cc_listen c) = Some (host, port) \<and>
        (equalFold (trimSpace (trimSet (set ''[]'') host)) ''localhost'' \<or>
         (\<exists>ip. parseIP (trimSpace (trimSet (set ''[]'') host)) = Some ip \<and> isLoopback ip)))"
    using v by (auto simp: validateControl_def isLoopbackListen_def Let_def split: if_splits option.splits prod.splits)
  moreover have "32 \<le> length (cc_broker_token c)" "cc_api_token c = [] \<or> 32 \<le> length (cc_api_token c)"
      "isAbs (cc_broker_socket c)" "isAbs (cc_audit_path c)" "cc_actor_file c = [] \<or> isAbs (cc_actor_file c)"
      "0 < cc_plan_ttl c" "cc_plan_ttl c \<le> 15 * minute" "1024 \<le> cc_body_limit c"
      "0 < cc_header_timeout c" "0 < cc_idle_timeout c" "0 < cc_broker_timeout c"
    using v(1) by (auto simp: validateControl_def split: if_splits)
  ultimately show ?thesis by (intro conjI loadControl_sources [OF assms])
qed

text \<open>
  A broker configuration that loads is good enough to start with: the service operations can be enabled
  with its durations whatever the policy, the grant store does not refuse its path or lifetime, and grants
  live at most fifteen minutes.
\<close>

theorem broker_config_suffices:
  assumes "loadBroker pd env files = Inr c"
  shows "\<exists>reg'. enableServiceMutations (Some m) (Some h) p (bc_transaction_timeout c) (bc_service_poll_interval c) reg = (None, reg') \<and>
    openGrantStore (bc_grant_path c) (bc_grant_ttl c) emptyFs =
      Inr \<lparr>store_ttl = bc_grant_ttl c, store_data = \<lparr>gs_schema = grantStoreSchema, gs_grants = []\<rparr>\<rparr> \<and>
    0 < bc_grant_ttl c \<and> bc_grant_ttl c \<le> 15 * minute \<and> 32 \<le> length (bc_broker_token c)"
proof -
  from loadBroker_valid [OF assms] have v: "enable_ok (Some m) (Some h) (bc_transaction_timeout c) (bc_service_poll_interval c)"
    "isAbs (bc_grant_path c)" "0 < bc_grant_ttl c" "bc_grant_ttl c \<le> 15 * minute" "32 \<le> length (bc_broker_token c)"
    by (auto simp: validateBroker_def enable_ok_def split: if_splits)
  obtain reg' where "enableServiceMutations (Some m) (Some h) p (bc_transaction_timeout c) (bc_service_poll_interval c) reg = (None, reg')"
    using enable_cases(2) [OF v(1)] by blast
  moreover have "bc_grant_path c = envOr env ''QUANTUM_CONTROL_GRANT_PATH'' defaultBrokerGrantPath"
    using assms by (auto simp: loadBroker_def bindE_Inr Let_def split: option.splits)
  moreover have "trimSpace defaultBrokerGrantPath \<noteq> []" by code_simp
  then have "trimSpace (envOr env key defaultBrokerGrantPath) \<noteq> []" for key by (simp add: envOr_def Let_def)
  ultimately show ?thesis using v(3-5) by (simp add: openGrantStore_def emptyFs_def loadStore_def)
qed

text \<open>An environment that sets nothing but the token.\<close>

definition demoEnviron :: environ where
  "demoEnviron k = (if k = ''QUANTUM_CONTROL_BROKER_TOKEN'' then ''0123456789abcdef0123456789abcdef'' else [])"

lemma demo_token: "loadBrokerToken demoEnviron files = Inr ''0123456789abcdef0123456789abcdef''"
proof -
  have "trimSpace ''0123456789abcdef0123456789abcdef'' = ''0123456789abcdef0123456789abcdef''"
    by (rule trimSpace_graphic) (simp add: graphic_def)
  then show ?thesis by (simp add: loadBrokerToken_def demoEnviron_def)
qed

lemma demo_values:
  "k \<noteq> ''QUANTUM_CONTROL_BROKER_TOKEN'' \<Longrightarrow> envInt64 demoEnviron k n = Inr n"
  "k \<noteq> ''QUANTUM_CONTROL_BROKER_TOKEN'' \<Longrightarrow> envDuration pd demoEnviron k d = Inr d"
  "k \<noteq> ''QUANTUM_CONTROL_BROKER_TOKEN'' \<Longrightarrow> envOr demoEnviron k s = s"
  by (simp_all add: envInt64_def envDuration_def envOr_def demoEnviron_def)

lemma demo_loopback_listen: "isLoopbackListen defaultControlListen" "splitHostPort defaultControlListen \<noteq> None"
proof -
  have "splitHostPort ''127.0.0.1:17440'' = Some (''127.0.0.1'', ''17440'')" "trimSpace (trimSet (set ''[]'') ''127.0.0.1'') = ''127.0.0.1''"
    by code_simp+
  then show "isLoopbackListen defaultControlListen" "splitHostPort defaultControlListen \<noteq> None"
    using address_examples(1) by (auto simp: isLoopbackListen_def defaultControlListen_def)
qed

definition demoControl :: control_config where
  "demoControl = \<lparr>cc_listen = defaultControlListen, cc_api_token = [], cc_actor_file = [], cc_audit_path = defaultAuditPath,
     cc_plan_ttl = 5 * minute, cc_broker_socket = defaultBrokerSocket, cc_broker_token = ''0123456789abcdef0123456789abcdef'',
     cc_body_limit = defaultBodyLimit, cc_header_timeout = 10 * second, cc_idle_timeout = 90 * second, cc_broker_timeout = 15 * second\<rparr>"

definition demoBroker :: broker_config where
  "demoBroker = \<lparr>bc_socket_path = defaultBrokerSocket, bc_broker_token = ''0123456789abcdef0123456789abcdef'', bc_actor_file = [],
     bc_grant_path = defaultBrokerGrantPath, bc_grant_ttl = 2 * minute, bc_service_policy_file = [],
     bc_transaction_timeout = defaultTransactionTimeout, bc_service_poll_interval = defaultServicePoll, bc_body_limit = defaultBodyLimit,
     bc_header_timeout = 10 * second, bc_idle_timeout = 30 * second\<rparr>"

lemma demo_unset:
  "demoEnviron ''QUANTUM_CONTROL_API_TOKEN'' = []" "demoEnviron ''QUANTUM_CONTROL_ACTOR_FILE'' = []"
  "demoEnviron ''QUANTUM_CONTROL_SERVICE_POLICY_FILE'' = []"
  by (simp_all add: demoEnviron_def)

lemma demo_control_loads: "loadControl pd demoEnviron files = Inr demoControl"
proof -
  have "validateControl demoControl = None"
    using demo_loopback_listen
    by (simp add: validateControl_def demoControl_def) (simp add: isAbs_def config_defaults duration_defs)
  then show ?thesis
    by (simp add: loadControl_def bindE_def demo_token demo_values demo_unset demoControl_def [symmetric])
qed

lemma demo_broker_loads: "loadBroker pd demoEnviron files = Inr demoBroker"
proof -
  have "validateBroker demoBroker = None"
    by (simp add: validateBroker_def demoBroker_def) (simp add: isAbs_def config_defaults duration_defs)
  then show ?thesis
    by (simp add: loadBroker_def bindE_def demo_token demo_values demo_unset demoBroker_def [symmetric])
qed

theorem control_open_only_on_loopback_witness:
  "\<exists>c host port. loadControl (\<lambda>_. None) demoEnviron (\<lambda>_. None) = Inr c \<and> splitHostPort (cc_listen c) = Some (host, port) \<and>
     32 \<le> length (cc_broker_token c) \<and> cc_plan_ttl c = 5 * minute \<and> cc_broker_timeout c = 15 * second \<and>
     1024 \<le> cc_body_limit c \<and> 0 < cc_plan_ttl c \<and> cc_plan_ttl c \<le> 15 * minute"
proof -
  note c = demo_control_loads [of "\<lambda>_. None" "\<lambda>_. None"]
  note l = control_open_only_on_loopback [OF c]
  from l obtain host port where "splitHostPort (cc_listen demoControl) = Some (host, port)" by (auto simp: demo_unset)
  moreover from l have "32 \<le> length (cc_broker_token demoControl)" "1024 \<le> cc_body_limit demoControl"
    "0 < cc_plan_ttl demoControl" "cc_plan_ttl demoControl \<le> 15 * minute" by argo+
  moreover have "cc_plan_ttl demoControl = 5 * minute" "cc_broker_timeout demoControl = 15 * second"
    by (simp_all add: demoControl_def)
  ultimately show ?thesis using c by (intro exI [of _ demoControl] exI [of _ host] exI [of _ port] conjI)
qed

theorem broker_config_suffices_witness:
  "\<exists>c reg'. loadBroker (\<lambda>_. None) demoEnviron (\<lambda>_. None) = Inr c \<and>
     enableServiceMutations (Some (nativeMutator \<lparr>nat_binary = []\<rparr> exampleHostEnv)) (Some (healthCheck (\<lambda>_. None) exampleHostEnv)) defaultPolicy
       (bc_transaction_timeout c) (bc_service_poll_interval c) (newRegistry (nativeProbe exampleHostEnv) \<lparr>lib_regexp = (\<lambda>_. None), lib_quote = (\<lambda>s. s)\<rparr>) =
       (None, reg') \<and> 0 < bc_grant_ttl c"
proof -
  note c = demo_broker_loads [of "\<lambda>_. None" "\<lambda>_. None"]
  from broker_config_suffices [OF c] c show ?thesis by fastforce
qed

end
