(* ===== verification/QC_Inventory.thy ===== *)
theory QC_Inventory
  imports QC_Host "HOL-Library.Multiset" "HOL-Library.Char_ord" "HOL-Library.List_Lexorder"
begin

text \<open>
  The component inventory (\<^verbatim>\<open>internal/inventory/inventory.go\<close>): the read-only observer over the host, version
  strings, the scan of one component definition with its classification, the snapshot and the lookup.

  An \<open>observer\<close> is the Go interface as a record of functions, \<open>None\<close> standing for an error; a scan asks each
  question once. Whether the context is done is asked by number: \<open>ctx_err 0\<close> at the start of a snapshot,
  \<open>ctx_err i\<close> when the \<open>i\<close>-th definition is scanned; the value is the error reported.
\<close>

subsection \<open>Data\<close>

definition SchemaVersion :: string where "SchemaVersion = ''quantum.control/component-inventory/v1alpha1''"

definition OwnershipManaged :: string where "OwnershipManaged = ''managed''"
definition OwnershipExternal :: string where "OwnershipExternal = ''external''"
definition OwnershipDisabled :: string where "OwnershipDisabled = ''disabled''"
definition OwnershipUnknown :: string where "OwnershipUnknown = ''unknown''"

definition HealthHealthy :: string where "HealthHealthy = ''healthy''"
definition HealthDegraded :: string where "HealthDegraded = ''degraded''"
definition HealthDisabled :: string where "HealthDisabled = ''disabled''"
definition HealthUnknown :: string where "HealthUnknown = ''unknown''"

lemmas ownership_defs = OwnershipManaged_def OwnershipExternal_def OwnershipDisabled_def OwnershipUnknown_def
lemmas health_defs = HealthHealthy_def HealthDegraded_def HealthDisabled_def HealthUnknown_def

record listener =
  lis_address :: string
  lis_port :: int
  lis_protocol :: string

record evidence =
  evi_kind :: string
  evi_source :: string
  evi_detail :: string

record component =
  comp_id :: string
  comp_name :: string
  comp_category :: string
  comp_version :: string
  comp_ownership :: string
  comp_health :: string
  comp_services :: "string list"
  comp_listeners :: "listener list"
  comp_roots :: "string list"
  comp_capabilities :: "string list"
  comp_evidence :: "evidence list"
  comp_observed_at :: gotime
  comp_warnings :: "string list"

record inventory_snapshot =
  snap_schema :: string
  snap_observed_at :: gotime
  snap_components :: "component list"

record service_state =
  ss_unit :: string
  ss_load :: string
  ss_active :: string
  ss_sub :: string

record observer =
  ob_path_exists :: "string \<Rightarrow> bool option"
  ob_read_file :: "string \<Rightarrow> int \<Rightarrow> string option"
  ob_command :: "string \<Rightarrow> string list \<Rightarrow> string option"
  ob_service :: "string \<Rightarrow> service_state option"
  ob_glob :: "string \<Rightarrow> string list option"

record version_probe =
  vp_command :: string
  vp_args :: "string list"

record inv_definition =
  idef_id :: string
  idef_name :: string
  idef_category :: string
  idef_paths :: "string list"
  idef_managed_marker :: string
  idef_version_files :: "string list"
  idef_versions :: "version_probe list"
  idef_services :: "string list"
  idef_service_globs :: "string list"
  idef_globs :: "string list"
  idef_capabilities :: "string list"

subsection \<open>The native observer\<close>

text \<open>What the observer asks of the operating system.\<close>

datatype stat_result = StatPresent | StatMissing | StatFailed

record system_env =
  se_stat :: "string \<Rightarrow> stat_result"
  se_open :: "string \<Rightarrow> string option"
  se_look_path :: "string \<Rightarrow> string option"
  se_combined_output :: "string list \<Rightarrow> string option"
  se_output :: "string list \<Rightarrow> string option"
  se_glob :: "string \<Rightarrow> string list option"

definition nativePathExists :: "system_env \<Rightarrow> string \<Rightarrow> bool option" where
  "nativePathExists env path =
     (case se_stat env path of StatPresent \<Rightarrow> Some True | StatMissing \<Rightarrow> Some False | StatFailed \<Rightarrow> None)"

definition nativeReadFile :: "system_env \<Rightarrow> string \<Rightarrow> int \<Rightarrow> string option" where
  "nativeReadFile env path limit =
     (case se_open env path of
        None \<Rightarrow> None
      | Some contents \<Rightarrow>
          (let data = take (nat (limit + 1)) contents in
           if int (length data) > limit then None else Some data))"

definition nativeCommand :: "system_env \<Rightarrow> string \<Rightarrow> string list \<Rightarrow> string option" where
  "nativeCommand env name args =
     (case se_look_path env name of
        None \<Rightarrow> None
      | Some path \<Rightarrow> (case se_combined_output env (path # args) of None \<Rightarrow> None | Some data \<Rightarrow> Some (take 16384 data)))"

definition serviceLine :: "service_state \<Rightarrow> string \<Rightarrow> service_state" where
  "serviceLine st line =
     (case cut (CHR ''='') line of (key, value, ok) \<Rightarrow>
        if \<not> ok then st
        else if key = ''Id'' then st\<lparr>ss_unit := value\<rparr>
        else if key = ''LoadState'' then st\<lparr>ss_load := value\<rparr>
        else if key = ''ActiveState'' then st\<lparr>ss_active := value\<rparr>
        else if key = ''SubState'' then st\<lparr>ss_sub := value\<rparr>
        else st)"

definition nativeService :: "system_env \<Rightarrow> string \<Rightarrow> service_state option" where
  "nativeService env unit =
     (case se_look_path env ''systemctl'' of
        None \<Rightarrow> None
      | Some path \<Rightarrow>
          (case se_output env [path, ''show'', ''--no-page'', ''--property=Id,LoadState,ActiveState,SubState'', unit] of
             None \<Rightarrow> None
           | Some data \<Rightarrow>
               (case scanLines data of (ls, ok) \<Rightarrow>
                  if ok then Some (foldl serviceLine \<lparr>ss_unit = unit, ss_load = [], ss_active = [], ss_sub = []\<rparr> ls) else None)))"

definition nativeGlob :: "system_env \<Rightarrow> string \<Rightarrow> string list option" where
  "nativeGlob env pattern = se_glob env pattern"

definition nativeObserver :: "system_env \<Rightarrow> observer" where
  "nativeObserver env = \<lparr>ob_path_exists = nativePathExists env, ob_read_file = nativeReadFile env, ob_command = nativeCommand env,
     ob_service = nativeService env, ob_glob = nativeGlob env\<rparr>"

subsection \<open>Versions\<close>

text \<open>
  \<^verbatim>\<open>(?i)\b(?:v)?([0-9]+(?:\.[0-9]+){1,3}(?:[-+._][0-9A-Za-z.-]+)?)\b\<close>, matched leftmost first: the functions list the
  positions where a part of the pattern may end, in the order the matcher prefers them. Folding case adds
  U+017F and U+212A to the letters.
\<close>

definition wordChar :: "char \<Rightarrow> bool" where
  "wordChar c \<longleftrightarrow> is_alnum c \<or> c = CHR ''_''"

definition wordBoundary :: "string \<Rightarrow> nat \<Rightarrow> bool" where
  "wordBoundary s i \<longleftrightarrow> (0 < i \<and> i \<le> length s \<and> wordChar (s ! (i - 1))) \<noteq> (i < length s \<and> wordChar (s ! i))"

definition digitEnds :: "string \<Rightarrow> nat \<Rightarrow> nat list" where
  "digitEnds s i = map (\<lambda>k. i + k) (rev [1..<Suc (length (takeWhile is_digit (drop i s)))])"

definition dotDigitEnds :: "string \<Rightarrow> nat \<Rightarrow> nat list" where
  "dotDigitEnds s i = (if i < length s \<and> s ! i = CHR ''.'' then digitEnds s (Suc i) else [])"

fun groupEnds :: "string \<Rightarrow> nat \<Rightarrow> nat \<Rightarrow> nat list" where
  "groupEnds s 0 i = [i]"
| "groupEnds s (Suc n) i = concat (map (groupEnds s n) (dotDigitEnds s i)) @ [i]"

fun suffixEnds :: "nat \<Rightarrow> string \<Rightarrow> nat list" where
  "suffixEnds i [] = []"
| "suffixEnds i (c # cs) =
     (if is_alnum c \<or> c \<in> set ''.-'' then suffixEnds (Suc i) cs @ [Suc i]
      else if take 2 (c # cs) = [CHR 0xC5, CHR 0xBF] then suffixEnds (i + 2) (drop 1 cs) @ [i + 2]
      else if take 3 (c # cs) = [CHR 0xE2, CHR 0x84, CHR 0xAA] then suffixEnds (i + 3) (drop 2 cs) @ [i + 3]
      else [])"

definition optionalSuffixEnds :: "string \<Rightarrow> nat \<Rightarrow> nat list" where
  "optionalSuffixEnds s i =
     (if i < length s \<and> s ! i \<in> set ''-+._'' then suffixEnds (Suc i) (drop (Suc i) s) else []) @ [i]"

definition captureEnds :: "string \<Rightarrow> nat \<Rightarrow> nat list" where
  "captureEnds s j =
     concat (map (\<lambda>d. concat (map (\<lambda>g. concat (map (optionalSuffixEnds s) (groupEnds s 2 g))) (dotDigitEnds s d))) (digitEnds s j))"

definition versionAt :: "string \<Rightarrow> nat \<Rightarrow> (nat \<times> nat) list" where
  "versionAt s i =
     (if \<not> wordBoundary s i then []
      else concat (map (\<lambda>j. map (\<lambda>e. (j, e)) (filter (wordBoundary s) (captureEnds s j)))
             ((if i < length s \<and> s ! i \<in> set ''vV'' then [Suc i] else []) @ [i])))"

definition findVersion :: "string \<Rightarrow> string option" where
  "findVersion s =
     (case concat (map (versionAt s) [0..<Suc (length s)]) of
        [] \<Rightarrow> None
      | (j, e) # _ \<Rightarrow> Some (take (e - j) (drop j s)))"

definition forbiddenWords :: "string list" where
  "forbiddenWords = [''password'', ''token'', ''secret'', ''credential'']"

definition cleanVersion :: "string \<Rightarrow> string" where
  "cleanVersion value0 =
     (let value = trimSpace value0 in
      if value = [] then []
      else case findVersion value of
        Some v \<Rightarrow> trimPrefix v ''v''
      | None \<Rightarrow>
          (let v = take 128 value in
           if list_ex (\<lambda>c. byte_of c < 0x20 \<or> byte_of c = 0x7F) v then []
           else if list_ex (contains (toLower v)) forbiddenWords then []
           else v))"

subsection \<open>Scanning one component\<close>

definition appendUnique :: "string list \<Rightarrow> string \<Rightarrow> string list" where
  "appendUnique values value = (if value \<in> set values then values else values @ [value])"

text \<open>\<^verbatim>\<open>filepath.Base\<close>: the last element of a path.\<close>

definition baseName :: "string \<Rightarrow> string" where
  "baseName path =
     (if path = [] then ''.''
      else let p = rev (dropWhile ((=) (CHR ''/'')) (rev path)) in
        if p = [] then ''/'' else rev (takeWhile ((\<noteq>) (CHR ''/'')) (rev p)))"

text \<open>The local variables of \<^verbatim>\<open>scanDefinition\<close>.\<close>

record scan_state =
  sc_component :: component
  sc_positive :: nat
  sc_non_marker :: nat
  sc_errors :: nat
  sc_marker :: bool
  sc_active :: bool
  sc_inactive :: bool
  sc_versions :: "string list"

definition blankComponent :: "inv_definition \<Rightarrow> gotime \<Rightarrow> component" where
  "blankComponent d observed = \<lparr>
     comp_id = idef_id d, comp_name = idef_name d, comp_category = idef_category d, comp_version = [],
     comp_ownership = OwnershipDisabled, comp_health = HealthDisabled, comp_services = [], comp_listeners = [], comp_roots = [],
     comp_capabilities = idef_capabilities d, comp_evidence = [], comp_observed_at = observed, comp_warnings = []\<rparr>"

definition scanStart :: "inv_definition \<Rightarrow> gotime \<Rightarrow> scan_state" where
  "scanStart d observed = \<lparr>sc_component = blankComponent d observed, sc_positive = 0, sc_non_marker = 0, sc_errors = 0,
     sc_marker = False, sc_active = False, sc_inactive = False, sc_versions = []\<rparr>"

definition probeError :: "scan_state \<Rightarrow> scan_state" where
  "probeError st = st\<lparr>sc_errors := sc_errors st + 1\<rparr>"

definition addEvidence :: "string \<Rightarrow> string \<Rightarrow> string \<Rightarrow> scan_state \<Rightarrow> scan_state" where
  "addEvidence kind source detail st = (let c = sc_component st in
     st\<lparr>sc_positive := sc_positive st + 1,
        sc_component := c\<lparr>comp_evidence := comp_evidence c @ [\<lparr>evi_kind = kind, evi_source = source, evi_detail = detail\<rparr>]\<rparr>\<rparr>)"

definition confirmEvidence :: "string \<Rightarrow> string \<Rightarrow> string \<Rightarrow> scan_state \<Rightarrow> scan_state" where
  "confirmEvidence kind source detail st = addEvidence kind source detail (st\<lparr>sc_non_marker := sc_non_marker st + 1\<rparr>)"

definition addRoot :: "string \<Rightarrow> scan_state \<Rightarrow> scan_state" where
  "addRoot path st = (let c = sc_component st in st\<lparr>sc_component := c\<lparr>comp_roots := appendUnique (comp_roots c) path\<rparr>\<rparr>)"

definition addService :: "string \<Rightarrow> scan_state \<Rightarrow> scan_state" where
  "addService unit st = (let c = sc_component st in st\<lparr>sc_component := c\<lparr>comp_services := appendUnique (comp_services c) unit\<rparr>\<rparr>)"

definition addVersion :: "string \<Rightarrow> scan_state \<Rightarrow> scan_state" where
  "addVersion value st = st\<lparr>sc_versions := appendUnique (sc_versions st) value\<rparr>"

definition addWarning :: "string \<Rightarrow> component \<Rightarrow> component" where
  "addWarning w c = c\<lparr>comp_warnings := comp_warnings c @ [w]\<rparr>"

definition scanPath :: "observer \<Rightarrow> scan_state \<Rightarrow> string \<Rightarrow> scan_state" where
  "scanPath ob st path =
     (case ob_path_exists ob path of
        None \<Rightarrow> probeError st
      | Some False \<Rightarrow> st
      | Some True \<Rightarrow> confirmEvidence ''path'' path ''present'' (addRoot path st))"

definition scanMarker :: "observer \<Rightarrow> string \<Rightarrow> scan_state \<Rightarrow> scan_state" where
  "scanMarker ob marker st =
     (if marker = [] then st
      else case ob_path_exists ob marker of
        None \<Rightarrow> probeError st
      | Some False \<Rightarrow> st
      | Some True \<Rightarrow> addEvidence ''ownership-marker'' marker ''present'' (st\<lparr>sc_marker := True\<rparr>))"

definition scanGlob :: "observer \<Rightarrow> scan_state \<Rightarrow> string \<Rightarrow> scan_state" where
  "scanGlob ob st pattern =
     (case ob_glob ob pattern of
        None \<Rightarrow> probeError st
      | Some matches \<Rightarrow> foldl (\<lambda>st match. confirmEvidence ''filesystem'' match ''present'' st) st matches)"

definition scanServiceGlob :: "observer \<Rightarrow> scan_state \<times> string list \<Rightarrow> string \<Rightarrow> scan_state \<times> string list" where
  "scanServiceGlob ob acc pattern =
     (case acc of (st, names) \<Rightarrow>
        (case ob_glob ob pattern of
           None \<Rightarrow> (probeError st, names)
         | Some matches \<Rightarrow> (st, foldl (\<lambda>ns match. appendUnique ns (baseName match)) names matches)))"

definition scanService :: "observer \<Rightarrow> scan_state \<Rightarrow> string \<Rightarrow> scan_state" where
  "scanService ob st unit =
     (case ob_service ob unit of
        None \<Rightarrow> probeError st
      | Some state \<Rightarrow>
          if ss_load state = [] \<or> ss_load state = ''not-found'' then st
          else let st1 = confirmEvidence ''service'' (ss_unit state) (ss_load state @ ''/'' @ ss_active state @ ''/'' @ ss_sub state)
                           (addService (ss_unit state) st) in
            if ss_active state = ''active'' then st1\<lparr>sc_active := True\<rparr> else st1\<lparr>sc_inactive := True\<rparr>)"

definition scanVersionFile :: "observer \<Rightarrow> scan_state \<Rightarrow> string \<Rightarrow> scan_state" where
  "scanVersionFile ob st file =
     (case ob_path_exists ob file of
        None \<Rightarrow> probeError st
      | Some False \<Rightarrow> st
      | Some True \<Rightarrow>
          (case ob_read_file ob file 4096 of
             None \<Rightarrow> probeError st
           | Some data \<Rightarrow>
               (let value = cleanVersion data in
                if value = [] then st else confirmEvidence ''version-file'' file value (addVersion value st))))"

definition scanVersion :: "observer \<Rightarrow> scan_state \<Rightarrow> version_probe \<Rightarrow> scan_state" where
  "scanVersion ob st probe =
     (case ob_command ob (vp_command probe) (vp_args probe) of
        None \<Rightarrow> st
      | Some out \<Rightarrow>
          (let value = cleanVersion out in
           if value = [] then st else confirmEvidence ''version'' (vp_command probe) value (addVersion value st)))"

definition reportVersion :: "scan_state \<Rightarrow> component \<Rightarrow> component" where
  "reportVersion st c =
     (case sc_versions st of
        [] \<Rightarrow> c
      | [v] \<Rightarrow> c\<lparr>comp_version := v\<rparr>
      | _ \<Rightarrow> addWarning ''conflicting version evidence was withheld'' c)"

definition classifyOwnership :: "scan_state \<Rightarrow> component \<Rightarrow> component" where
  "classifyOwnership st c =
     (if sc_marker st \<and> sc_non_marker st = 0
        then addWarning ''managed marker exists without confirming runtime evidence'' (c\<lparr>comp_ownership := OwnershipUnknown, comp_health := HealthUnknown\<rparr>)
      else if sc_marker st then c\<lparr>comp_ownership := OwnershipManaged\<rparr>
      else if sc_positive st > 0 then c\<lparr>comp_ownership := OwnershipExternal\<rparr>
      else if sc_errors st > 0
        then addWarning ''one or more read-only probes were inconclusive'' (c\<lparr>comp_ownership := OwnershipUnknown, comp_health := HealthUnknown\<rparr>)
      else c\<lparr>comp_ownership := OwnershipDisabled, comp_health := HealthDisabled\<rparr>)"

definition classifyHealth :: "scan_state \<Rightarrow> component \<Rightarrow> component" where
  "classifyHealth st c =
     (if comp_ownership c = OwnershipManaged \<or> comp_ownership c = OwnershipExternal
      then let c1 = c\<lparr>comp_health := (if sc_active st then HealthHealthy else if sc_inactive st then HealthDegraded else HealthUnknown)\<rparr> in
        if sc_errors st > 0 then addWarning ''some optional read-only probes were unavailable'' c1 else c1
      else c)"

definition sortComponent :: "component \<Rightarrow> component" where
  "sortComponent c = c\<lparr>comp_services := sort (comp_services c), comp_roots := sort (comp_roots c), comp_capabilities := sort (comp_capabilities c)\<rparr>"

definition probeAll :: "observer \<Rightarrow> inv_definition \<Rightarrow> gotime \<Rightarrow> scan_state" where
  "probeAll ob d observed =
     (let st1 = foldl (scanPath ob) (scanStart d observed) (idef_paths d);
          st2 = scanMarker ob (idef_managed_marker d) st1;
          st3 = foldl (scanGlob ob) st2 (idef_globs d) in
      case foldl (scanServiceGlob ob) (st3, idef_services d) (idef_service_globs d) of (st4, names) \<Rightarrow>
        foldl (scanVersion ob) (foldl (scanVersionFile ob) (foldl (scanService ob) st4 names) (idef_version_files d)) (idef_versions d))"

definition scanDefinition :: "observer \<Rightarrow> string option \<Rightarrow> inv_definition \<Rightarrow> gotime \<Rightarrow> string + component" where
  "scanDefinition ob ctx_err d observed =
     (case ctx_err of
        Some err \<Rightarrow> Inl err
      | None \<Rightarrow>
          (let st = probeAll ob d observed in
           Inr (sortComponent (classifyHealth st (classifyOwnership st (reportVersion st (sc_component st)))))))"

subsection \<open>The compiled component definitions\<close>

definition def_keyhelp :: inv_definition where
  "def_keyhelp = \<lparr>
     idef_id = ''keyhelp'', idef_name = ''KeyHelp'', idef_category = ''hosting-control'',
     idef_paths = [''/etc/keyhelp'', ''/home/keyhelp''], idef_managed_marker = [],
     idef_version_files = [],
     idef_versions = [],
     idef_services = [''keyhelp.service''],
     idef_service_globs = [],
     idef_globs = [], idef_capabilities = [''databases'', ''domains'', ''hosting-control'', ''tls'']\<rparr>"

definition def_apache :: inv_definition where
  "def_apache = \<lparr>
     idef_id = ''apache'', idef_name = ''Apache HTTP Server'', idef_category = ''web-server'',
     idef_paths = [''/etc/apache2'', ''/etc/httpd''], idef_managed_marker = [],
     idef_version_files = [],
     idef_versions = [\<lparr>vp_command = ''apache2'', vp_args = [''-v'']\<rparr>, \<lparr>vp_command = ''httpd'', vp_args = [''-v'']\<rparr>],
     idef_services = [''apache2.service'', ''httpd.service''],
     idef_service_globs = [],
     idef_globs = [], idef_capabilities = [''http'', ''reverse-proxy'']\<rparr>"

definition def_nginx :: inv_definition where
  "def_nginx = \<lparr>
     idef_id = ''nginx'', idef_name = ''Nginx'', idef_category = ''web-server'',
     idef_paths = [''/etc/nginx''], idef_managed_marker = [],
     idef_version_files = [],
     idef_versions = [\<lparr>vp_command = ''nginx'', vp_args = [''-v'']\<rparr>],
     idef_services = [''nginx.service''],
     idef_service_globs = [],
     idef_globs = [], idef_capabilities = [''http'', ''reverse-proxy'']\<rparr>"

definition def_php :: inv_definition where
  "def_php = \<lparr>
     idef_id = ''php'', idef_name = ''PHP / PHP-FPM'', idef_category = ''application-runtime'',
     idef_paths = [''/etc/php''], idef_managed_marker = [],
     idef_version_files = [],
     idef_versions = [\<lparr>vp_command = ''php'', vp_args = [''-v'']\<rparr>],
     idef_services = [''php-fpm.service''],
     idef_service_globs = [''/etc/systemd/system/php*-fpm.service'', ''/lib/systemd/system/php*-fpm.service'', ''/usr/lib/systemd/system/php*-fpm.service''],
     idef_globs = [''/run/php/php*-fpm.sock''], idef_capabilities = [''fastcgi'', ''php'']\<rparr>"

definition def_mariadb :: inv_definition where
  "def_mariadb = \<lparr>
     idef_id = ''mariadb'', idef_name = ''MariaDB / MySQL'', idef_category = ''database'',
     idef_paths = [''/etc/mysql'', ''/var/lib/mysql''], idef_managed_marker = [],
     idef_version_files = [],
     idef_versions = [\<lparr>vp_command = ''mariadb'', vp_args = [''--version'']\<rparr>, \<lparr>vp_command = ''mysql'', vp_args = [''--version'']\<rparr>],
     idef_services = [''mariadb.service'', ''mysql.service''],
     idef_service_globs = [],
     idef_globs = [], idef_capabilities = [''sql'']\<rparr>"

definition def_postgresql :: inv_definition where
  "def_postgresql = \<lparr>
     idef_id = ''postgresql'', idef_name = ''PostgreSQL'', idef_category = ''database'',
     idef_paths = [''/etc/postgresql'', ''/var/lib/postgresql''], idef_managed_marker = [],
     idef_version_files = [],
     idef_versions = [\<lparr>vp_command = ''psql'', vp_args = [''--version'']\<rparr>],
     idef_services = [''postgresql.service''],
     idef_service_globs = [],
     idef_globs = [], idef_capabilities = [''sql'']\<rparr>"

definition def_container_runtime :: inv_definition where
  "def_container_runtime = \<lparr>
     idef_id = ''container-runtime'', idef_name = ''Container Runtime'', idef_category = ''containers'',
     idef_paths = [''/var/lib/docker'', ''/var/lib/containers''], idef_managed_marker = [],
     idef_version_files = [],
     idef_versions = [\<lparr>vp_command = ''docker'', vp_args = [''--version'']\<rparr>, \<lparr>vp_command = ''podman'', vp_args = [''--version'']\<rparr>],
     idef_services = [''docker.service'', ''podman.service''],
     idef_service_globs = [],
     idef_globs = [], idef_capabilities = [''containers'']\<rparr>"

definition def_ollama :: inv_definition where
  "def_ollama = \<lparr>
     idef_id = ''ollama'', idef_name = ''Ollama'', idef_category = ''ai-runtime'',
     idef_paths = [''/usr/local/bin/ollama'', ''/usr/bin/ollama''], idef_managed_marker = [],
     idef_version_files = [],
     idef_versions = [\<lparr>vp_command = ''ollama'', vp_args = [''--version'']\<rparr>],
     idef_services = [''ollama.service''],
     idef_service_globs = [],
     idef_globs = [], idef_capabilities = [''local-inference'']\<rparr>"

definition def_quantum_runtime :: inv_definition where
  "def_quantum_runtime = \<lparr>
     idef_id = ''quantum-runtime'', idef_name = ''Quantum Runtime'', idef_category = ''ai-runtime'',
     idef_paths = [''/usr/local/bin/quantum-runtime'', ''/etc/quantum-runtime''], idef_managed_marker = ''/etc/quantum-runtime/.managed.json'',
     idef_version_files = [],
     idef_versions = [],
     idef_services = [''quantum-runtime.service''],
     idef_service_globs = [],
     idef_globs = [], idef_capabilities = [''local-inference'', ''model-registry'', ''streaming'']\<rparr>"

definition def_searxng :: inv_definition where
  "def_searxng = \<lparr>
     idef_id = ''searxng'', idef_name = ''SearXNG'', idef_category = ''search'',
     idef_paths = [''/etc/searxng'', ''/opt/searxng''], idef_managed_marker = [],
     idef_version_files = [],
     idef_versions = [\<lparr>vp_command = ''searxng'', vp_args = [''--version'']\<rparr>],
     idef_services = [''searxng.service''],
     idef_service_globs = [],
     idef_globs = [], idef_capabilities = [''web-search'']\<rparr>"

definition def_ember_coreui :: inv_definition where
  "def_ember_coreui = \<lparr>
     idef_id = ''ember-coreui'', idef_name = ''Ember CoreUI'', idef_category = ''application'',
     idef_paths = [''/opt/ember-coreui'', ''/srv/ember-coreui'', ''/var/lib/ember-coreui''], idef_managed_marker = [],
     idef_version_files = [''/opt/ember-coreui/VERSION'', ''/srv/ember-coreui/VERSION''],
     idef_versions = [],
     idef_services = [''ember-coreui.service''],
     idef_service_globs = [],
     idef_globs = [], idef_capabilities = [''ai-ui'']\<rparr>"

definition def_starlight_unit_game :: inv_definition where
  "def_starlight_unit_game = \<lparr>
     idef_id = ''starlight-unit-game'', idef_name = ''ST'' @ [CHR 0xCE, CHR 0x9B] @ ''RLIGHT UNIT Game/Repack'', idef_category = ''application'',
     idef_paths = [''/opt/starlight-unit-game'', ''/srv/starlight-unit-game'', ''/var/www/starlight-unit''], idef_managed_marker = [],
     idef_version_files = [''/opt/starlight-unit-game/VERSION'', ''/srv/starlight-unit-game/VERSION''],
     idef_versions = [],
     idef_services = [''starlight-unit-game.service'', ''ember-worker.service'', ''ember-worker-media.service''],
     idef_service_globs = [],
     idef_globs = [], idef_capabilities = [''ember-workers'', ''game'']\<rparr>"

lemmas inv_definition_defs = def_keyhelp_def def_apache_def def_nginx_def def_php_def def_mariadb_def def_postgresql_def def_container_runtime_def def_ollama_def def_quantum_runtime_def def_searxng_def def_ember_coreui_def def_starlight_unit_game_def

definition defaultDefinitions :: "inv_definition list" where
  "defaultDefinitions =
     [def_keyhelp, def_apache, def_nginx, def_php, def_mariadb, def_postgresql, def_container_runtime, def_ollama, def_quantum_runtime, def_searxng, def_ember_coreui, def_starlight_unit_game]"

subsection \<open>The scanner\<close>

record inv_service =
  is_observer :: observer
  is_definitions :: "inv_definition list"

definition newScanner :: "system_env \<Rightarrow> observer option \<Rightarrow> inv_service" where
  "newScanner env ob = \<lparr>is_observer = (case ob of None \<Rightarrow> nativeObserver env | Some o1 \<Rightarrow> o1), is_definitions = defaultDefinitions\<rparr>"

fun scanAll :: "observer \<Rightarrow> (nat \<Rightarrow> string option) \<Rightarrow> gotime \<Rightarrow> nat \<Rightarrow> inv_definition list \<Rightarrow> string + component list" where
  "scanAll ob ctx_err observed i [] = Inr []"
| "scanAll ob ctx_err observed i (d # ds) =
     (case scanDefinition ob (ctx_err i) d observed of
        Inl err \<Rightarrow> Inl err
      | Inr c \<Rightarrow> (case scanAll ob ctx_err observed (Suc i) ds of Inl err \<Rightarrow> Inl err | Inr cs \<Rightarrow> Inr (c # cs)))"

definition inventorySnapshot :: "inv_service \<Rightarrow> (nat \<Rightarrow> string option) \<Rightarrow> gotime \<Rightarrow> string + inventory_snapshot" where
  "inventorySnapshot s ctx_err now =
     (case ctx_err 0 of
        Some err \<Rightarrow> Inl err
      | None \<Rightarrow>
          (case scanAll (is_observer s) ctx_err now 1 (is_definitions s) of
             Inl err \<Rightarrow> Inl err
           | Inr components \<Rightarrow>
               Inr \<lparr>snap_schema = SchemaVersion, snap_observed_at = now, snap_components = sort_key comp_id components\<rparr>))"

definition inventoryComponent :: "inv_service \<Rightarrow> string option \<Rightarrow> string \<Rightarrow> gotime \<Rightarrow> string + component option" where
  "inventoryComponent s ctx_err ident now =
     (case find (\<lambda>d. idef_id d = ident) (is_definitions s) of
        None \<Rightarrow> Inr None
      | Some d \<Rightarrow> (case scanDefinition (is_observer s) ctx_err d now of Inl err \<Rightarrow> Inl err | Inr c \<Rightarrow> Inr (Some c)))"

subsection \<open>What a scan observes\<close>

text \<open>The evidence a definition has on a host, described without the loops and counters of the scan.\<close>

definition evidenceOf :: "string \<Rightarrow> string \<Rightarrow> string \<Rightarrow> evidence" where
  "evidenceOf kind source detail = \<lparr>evi_kind = kind, evi_source = source, evi_detail = detail\<rparr>"

definition presentPaths :: "observer \<Rightarrow> string list \<Rightarrow> string list" where
  "presentPaths ob ps = filter (\<lambda>p. ob_path_exists ob p = Some True) ps"

definition failingPaths :: "observer \<Rightarrow> string list \<Rightarrow> string list" where
  "failingPaths ob ps = filter (\<lambda>p. ob_path_exists ob p = None) ps"

definition globMatches :: "observer \<Rightarrow> string list \<Rightarrow> string list" where
  "globMatches ob ps = concat (map (\<lambda>p. case ob_glob ob p of None \<Rightarrow> [] | Some ms \<Rightarrow> ms) ps)"

definition failingGlobs :: "observer \<Rightarrow> string list \<Rightarrow> string list" where
  "failingGlobs ob ps = filter (\<lambda>p. ob_glob ob p = None) ps"

definition unitNames :: "observer \<Rightarrow> inv_definition \<Rightarrow> string list" where
  "unitNames ob d = foldl appendUnique (idef_services d) (map baseName (globMatches ob (idef_service_globs d)))"

definition loadedState :: "observer \<Rightarrow> string \<Rightarrow> service_state option" where
  "loadedState ob u =
     (case ob_service ob u of None \<Rightarrow> None | Some s \<Rightarrow> if ss_load s = [] \<or> ss_load s = ''not-found'' then None else Some s)"

definition loadedUnits :: "observer \<Rightarrow> string list \<Rightarrow> service_state list" where
  "loadedUnits ob us = List.map_filter (loadedState ob) us"

definition failingUnits :: "observer \<Rightarrow> string list \<Rightarrow> string list" where
  "failingUnits ob us = filter (\<lambda>u. ob_service ob u = None) us"

definition unitEvidence :: "service_state \<Rightarrow> evidence" where
  "unitEvidence s = evidenceOf ''service'' (ss_unit s) (ss_load s @ ''/'' @ ss_active s @ ''/'' @ ss_sub s)"

definition fileVersion :: "observer \<Rightarrow> string \<Rightarrow> (string \<times> string) option" where
  "fileVersion ob f =
     (if ob_path_exists ob f = Some True
      then case ob_read_file ob f 4096 of None \<Rightarrow> None | Some s \<Rightarrow> if cleanVersion s = [] then None else Some (f, cleanVersion s)
      else None)"

definition fileVersions :: "observer \<Rightarrow> string list \<Rightarrow> (string \<times> string) list" where
  "fileVersions ob fs = List.map_filter (fileVersion ob) fs"

definition failingFiles :: "observer \<Rightarrow> string list \<Rightarrow> string list" where
  "failingFiles ob fs = filter (\<lambda>f. ob_path_exists ob f = None \<or> (ob_path_exists ob f = Some True \<and> ob_read_file ob f 4096 = None)) fs"

definition commandVersion :: "observer \<Rightarrow> version_probe \<Rightarrow> (string \<times> string) option" where
  "commandVersion ob p =
     (case ob_command ob (vp_command p) (vp_args p) of
        None \<Rightarrow> None | Some s \<Rightarrow> if cleanVersion s = [] then None else Some (vp_command p, cleanVersion s))"

definition commandVersions :: "observer \<Rightarrow> version_probe list \<Rightarrow> (string \<times> string) list" where
  "commandVersions ob ps = List.map_filter (commandVersion ob) ps"

definition markerFound :: "observer \<Rightarrow> inv_definition \<Rightarrow> bool" where
  "markerFound ob d \<longleftrightarrow> idef_managed_marker d \<noteq> [] \<and> ob_path_exists ob (idef_managed_marker d) = Some True"

definition markerFails :: "observer \<Rightarrow> inv_definition \<Rightarrow> bool" where
  "markerFails ob d \<longleftrightarrow> idef_managed_marker d \<noteq> [] \<and> ob_path_exists ob (idef_managed_marker d) = None"

definition versionsFound :: "observer \<Rightarrow> inv_definition \<Rightarrow> string list" where
  "versionsFound ob d = map snd (fileVersions ob (idef_version_files d) @ commandVersions ob (idef_versions d))"

definition runtimeEvidence1 :: "observer \<Rightarrow> inv_definition \<Rightarrow> evidence list" where
  "runtimeEvidence1 ob d = map (\<lambda>p. evidenceOf ''path'' p ''present'') (presentPaths ob (idef_paths d))"

definition runtimeEvidence2 :: "observer \<Rightarrow> inv_definition \<Rightarrow> evidence list" where
  "runtimeEvidence2 ob d =
     map (\<lambda>m. evidenceOf ''filesystem'' m ''present'') (globMatches ob (idef_globs d)) @
     map unitEvidence (loadedUnits ob (unitNames ob d)) @
     map (\<lambda>(f, v). evidenceOf ''version-file'' f v) (fileVersions ob (idef_version_files d)) @
     map (\<lambda>(c, v). evidenceOf ''version'' c v) (commandVersions ob (idef_versions d))"

definition markerEvidence :: "observer \<Rightarrow> inv_definition \<Rightarrow> evidence list" where
  "markerEvidence ob d = (if markerFound ob d then [evidenceOf ''ownership-marker'' (idef_managed_marker d) ''present''] else [])"

definition probeFailed :: "observer \<Rightarrow> inv_definition \<Rightarrow> bool" where
  "probeFailed ob d \<longleftrightarrow>
     failingPaths ob (idef_paths d) \<noteq> [] \<or> markerFails ob d \<or> failingGlobs ob (idef_globs d) \<noteq> [] \<or>
     failingGlobs ob (idef_service_globs d) \<noteq> [] \<or> failingUnits ob (unitNames ob d) \<noteq> [] \<or> failingFiles ob (idef_version_files d) \<noteq> []"

subsection \<open>The loops of a scan\<close>

text \<open>What a loop adds to the state: evidence, failed probes, roots, services and versions.\<close>

definition observedMore ::
    "evidence list \<Rightarrow> nat \<Rightarrow> string list \<Rightarrow> string list \<Rightarrow> string list \<Rightarrow> scan_state \<Rightarrow> scan_state" where
  "observedMore es n rs us vs st = st\<lparr>
     sc_positive := sc_positive st + length es, sc_non_marker := sc_non_marker st + length es, sc_errors := sc_errors st + n,
     sc_versions := foldl appendUnique (sc_versions st) vs,
     sc_component := (sc_component st)\<lparr>comp_evidence := comp_evidence (sc_component st) @ es,
       comp_roots := foldl appendUnique (comp_roots (sc_component st)) rs,
       comp_services := foldl appendUnique (comp_services (sc_component st)) us\<rparr>\<rparr>"

lemma observedMore_none [simp]: "observedMore [] 0 [] [] [] st = st"
  by (simp add: observedMore_def)

lemma observedMore_twice [simp]:
  "observedMore es' n' rs' us' vs' (observedMore es n rs us vs st) =
   observedMore (es @ es') (n + n') (rs @ rs') (us @ us') (vs @ vs') st"
  by (simp add: observedMore_def)

lemma probeError_observedMore: "probeError st = observedMore [] 1 [] [] [] st"
  by (simp add: probeError_def observedMore_def)

lemma confirmEvidence_observedMore: "confirmEvidence k s t st = observedMore [evidenceOf k s t] 0 [] [] [] st"
  by (simp add: confirmEvidence_def addEvidence_def evidenceOf_def observedMore_def Let_def)

lemma addRoot_observedMore: "addRoot p st = observedMore [] 0 [p] [] [] st"
  by (simp add: addRoot_def observedMore_def Let_def)

lemma addService_observedMore: "addService u st = observedMore [] 0 [] [u] [] st"
  by (simp add: addService_def observedMore_def Let_def)

lemma addVersion_observedMore: "addVersion v st = observedMore [] 0 [] [] [v] st"
  by (simp add: addVersion_def observedMore_def)

lemmas observedMore_intros =
  probeError_observedMore confirmEvidence_observedMore addRoot_observedMore addService_observedMore addVersion_observedMore

lemma observedMore_flags [simp]:
  "(observedMore es n rs us vs st)\<lparr>sc_active := b\<rparr> = observedMore es n rs us vs (st\<lparr>sc_active := b\<rparr>)"
  "(observedMore es n rs us vs st)\<lparr>sc_inactive := b\<rparr> = observedMore es n rs us vs (st\<lparr>sc_inactive := b\<rparr>)"
  "sc_active (observedMore es n rs us vs st) = sc_active st"
  "sc_inactive (observedMore es n rs us vs st) = sc_inactive st"
  "sc_marker (observedMore es n rs us vs st) = sc_marker st"
  by (simp_all add: observedMore_def)

lemma foldl_scanPath:
  "foldl (scanPath ob) st ps =
   observedMore (map (\<lambda>p. evidenceOf ''path'' p ''present'') (presentPaths ob ps)) (length (failingPaths ob ps)) (presentPaths ob ps) [] [] st"
  by (induction ps arbitrary: st)
     (auto simp: scanPath_def presentPaths_def failingPaths_def observedMore_intros split: option.splits bool.splits)

lemma foldl_confirmEvidence:
  "foldl (\<lambda>st m. confirmEvidence k m t st) st ms = observedMore (map (\<lambda>m. evidenceOf k m t) ms) 0 [] [] [] st"
  by (induction ms arbitrary: st) (auto simp: observedMore_intros)

lemma foldl_scanGlob:
  "foldl (scanGlob ob) st ps =
   observedMore (map (\<lambda>m. evidenceOf ''filesystem'' m ''present'') (globMatches ob ps)) (length (failingGlobs ob ps)) [] [] [] st"
  by (induction ps arbitrary: st)
     (auto simp: scanGlob_def globMatches_def failingGlobs_def foldl_confirmEvidence probeError_observedMore split: option.splits)

lemma foldl_appendUnique_map: "foldl (\<lambda>ns m. appendUnique ns (f m)) ns ms = foldl appendUnique ns (map f ms)"
  by (induction ms arbitrary: ns) auto

lemma foldl_scanServiceGlob:
  "foldl (scanServiceGlob ob) (st, ns) ps =
   (observedMore [] (length (failingGlobs ob ps)) [] [] [] st, foldl appendUnique ns (map baseName (globMatches ob ps)))"
  by (induction ps arbitrary: st ns)
     (auto simp: scanServiceGlob_def globMatches_def failingGlobs_def foldl_appendUnique_map [of baseName] probeError_observedMore split: option.splits)

lemma scanVersionFile_step:
  "scanVersionFile ob st f =
   (case fileVersion ob f of
      None \<Rightarrow> observedMore [] (length (failingFiles ob [f])) [] [] [] st
    | Some (g, v) \<Rightarrow> observedMore [evidenceOf ''version-file'' g v] 0 [] [] [v] st)"
proof (cases "ob_path_exists ob f = Some True \<and> ob_read_file ob f 4096 \<noteq> None")
  case True
  then obtain s where "ob_path_exists ob f = Some True" "ob_read_file ob f 4096 = Some s" by auto
  then show ?thesis
    by (cases "cleanVersion s = []") (simp_all add: scanVersionFile_def fileVersion_def failingFiles_def observedMore_intros Let_def)
next
  case False
  then consider "ob_path_exists ob f = None" | "ob_path_exists ob f = Some False"
    | "ob_path_exists ob f = Some True" "ob_read_file ob f 4096 = None" by (cases "ob_path_exists ob f") auto
  then show ?thesis
    by cases (simp_all add: scanVersionFile_def fileVersion_def failingFiles_def observedMore_intros)
qed

lemma fileVersion_not_failing: "fileVersion ob f = Some x \<Longrightarrow> failingFiles ob [f] = []"
  by (auto simp: fileVersion_def failingFiles_def split: if_splits option.splits)

lemma failingFiles_Cons: "failingFiles ob (f # fs) = failingFiles ob [f] @ failingFiles ob fs"
  by (simp add: failingFiles_def)

lemma foldl_scanVersionFile:
  "foldl (scanVersionFile ob) st fs =
   observedMore (map (\<lambda>(f, v). evidenceOf ''version-file'' f v) (fileVersions ob fs)) (length (failingFiles ob fs)) [] [] (map snd (fileVersions ob fs)) st"
proof (induction fs arbitrary: st)
  case Nil
  then show ?case by (simp add: fileVersions_def failingFiles_def map_filter_simps)
next
  case (Cons f fs)
  then show ?case
    by (simp add: scanVersionFile_step fileVersions_def failingFiles_Cons [of ob f fs] map_filter_simps fileVersion_not_failing
        split: option.split prod.split)
qed

lemma scanVersion_step:
  "scanVersion ob st p =
   (case commandVersion ob p of
      None \<Rightarrow> st
    | Some (c, v) \<Rightarrow> observedMore [evidenceOf ''version'' c v] 0 [] [] [v] st)"
  by (cases "ob_command ob (vp_command p) (vp_args p)") (simp_all add: scanVersion_def commandVersion_def observedMore_intros Let_def)

lemma foldl_scanVersion:
  "foldl (scanVersion ob) st ps =
   observedMore (map (\<lambda>(c, v). evidenceOf ''version'' c v) (commandVersions ob ps)) 0 [] [] (map snd (commandVersions ob ps)) st"
  by (induction ps arbitrary: st)
     (simp_all add: scanVersion_step commandVersions_def map_filter_simps split: option.split prod.split)

definition noteUnits :: "service_state list \<Rightarrow> scan_state \<Rightarrow> scan_state" where
  "noteUnits ss st = st\<lparr>
     sc_active := sc_active st \<or> (\<exists>s \<in> set ss. ss_active s = ''active''),
     sc_inactive := sc_inactive st \<or> (\<exists>s \<in> set ss. ss_active s \<noteq> ''active'')\<rparr>"

lemma noteUnits_observedMore [simp]:
  "noteUnits ss (observedMore es n rs us vs st) = observedMore es n rs us vs (noteUnits ss st)"
  by (simp add: noteUnits_def observedMore_def)

lemma noteUnits_simps [simp]: "noteUnits [] st = st" "noteUnits ss' (noteUnits ss st) = noteUnits (ss @ ss') st"
  by (simp_all add: noteUnits_def bex_Un)

lemma scanService_step:
  "scanService ob st u =
   (case loadedState ob u of
      None \<Rightarrow> observedMore [] (length (failingUnits ob [u])) [] [] [] st
    | Some s \<Rightarrow> observedMore [unitEvidence s] 0 [] [ss_unit s] [] (noteUnits [s] st))"
proof (cases "loadedState ob u")
  case None
  then show ?thesis
    by (auto simp: scanService_def loadedState_def failingUnits_def probeError_observedMore split: option.splits if_splits)
next
  case (Some s)
  then have "ob_service ob u = Some s" "ss_load s \<noteq> []" "ss_load s \<noteq> ''not-found''"
    by (auto simp: loadedState_def split: option.splits if_splits)
  with Some show ?thesis
    by (simp add: scanService_def unitEvidence_def confirmEvidence_observedMore addService_observedMore noteUnits_def Let_def)
qed

lemma loadedState_not_failing: "loadedState ob u = Some s \<Longrightarrow> failingUnits ob [u] = []"
  by (auto simp: loadedState_def failingUnits_def split: option.splits)

lemma failingUnits_Cons: "failingUnits ob (u # us) = failingUnits ob [u] @ failingUnits ob us"
  by (simp add: failingUnits_def)

lemma foldl_scanService:
  "foldl (scanService ob) st us =
   observedMore (map unitEvidence (loadedUnits ob us)) (length (failingUnits ob us)) [] (map ss_unit (loadedUnits ob us)) []
     (noteUnits (loadedUnits ob us) st)"
proof (induction us arbitrary: st)
  case Nil
  then show ?case by (simp add: loadedUnits_def failingUnits_def map_filter_simps)
next
  case (Cons u us)
  then show ?case
    by (simp add: scanService_step loadedUnits_def failingUnits_Cons [of ob u us] map_filter_simps loadedState_not_failing
        split: option.split)
qed

lemma set_appendUnique [simp]: "set (appendUnique xs x) = insert x (set xs)"
  by (auto simp: appendUnique_def)

lemma distinct_appendUnique: "distinct xs \<Longrightarrow> distinct (appendUnique xs x)"
  by (simp add: appendUnique_def)

lemma foldl_appendUnique: "set (foldl appendUnique xs ys) = set xs \<union> set ys" "distinct xs \<Longrightarrow> distinct (foldl appendUnique xs ys)"
  by (induction ys arbitrary: xs) (auto simp: distinct_appendUnique)

lemma runtimeEvidence1_length: "length (runtimeEvidence1 ob d) = length (presentPaths ob (idef_paths d))"
  by (simp add: runtimeEvidence1_def)

lemma scanMarker_eq:
  "scanMarker ob (idef_managed_marker d) st =
   (let st1 = (if markerFound ob d then addEvidence ''ownership-marker'' (idef_managed_marker d) ''present'' (st\<lparr>sc_marker := True\<rparr>) else st) in
    observedMore [] (if markerFails ob d then 1 else 0) [] [] [] st1)"
  by (auto simp: scanMarker_def markerFound_def markerFails_def probeError_observedMore split: option.split bool.split)

lemma probeAll_eq:
  "probeAll ob d t =
   observedMore (runtimeEvidence2 ob d)
     ((if markerFails ob d then 1 else 0) + length (failingGlobs ob (idef_globs d)) + length (failingGlobs ob (idef_service_globs d)) +
        length (failingUnits ob (unitNames ob d)) + length (failingFiles ob (idef_version_files d)))
     [] (map ss_unit (loadedUnits ob (unitNames ob d))) (versionsFound ob d)
     (noteUnits (loadedUnits ob (unitNames ob d))
       (let st = observedMore (runtimeEvidence1 ob d) (length (failingPaths ob (idef_paths d))) (presentPaths ob (idef_paths d)) [] [] (scanStart d t) in
        if markerFound ob d then addEvidence ''ownership-marker'' (idef_managed_marker d) ''present'' (st\<lparr>sc_marker := True\<rparr>) else st))"
  by (simp add: probeAll_def foldl_scanPath scanMarker_eq foldl_scanGlob foldl_scanServiceGlob foldl_scanService foldl_scanVersionFile
      foldl_scanVersion runtimeEvidence1_def runtimeEvidence2_def versionsFound_def unitNames_def [symmetric] Let_def algebra_simps)

lemma probeAll_counts:
  "sc_non_marker (probeAll ob d t) = length (runtimeEvidence1 ob d @ runtimeEvidence2 ob d)"
  "sc_positive (probeAll ob d t) = length (runtimeEvidence1 ob d @ markerEvidence ob d @ runtimeEvidence2 ob d)"
  "0 < sc_errors (probeAll ob d t) \<longleftrightarrow> probeFailed ob d"
  "sc_marker (probeAll ob d t) \<longleftrightarrow> markerFound ob d"
  by (auto simp: probeAll_eq observedMore_def noteUnits_def addEvidence_def scanStart_def markerEvidence_def probeFailed_def Let_def)

lemma probeAll_units:
  "sc_active (probeAll ob d t) \<longleftrightarrow> (\<exists>s \<in> set (loadedUnits ob (unitNames ob d)). ss_active s = ''active'')"
  "sc_inactive (probeAll ob d t) \<longleftrightarrow> (\<exists>s \<in> set (loadedUnits ob (unitNames ob d)). ss_active s \<noteq> ''active'')"
  "sc_versions (probeAll ob d t) = foldl appendUnique [] (versionsFound ob d)"
  by (auto simp: probeAll_eq observedMore_def noteUnits_def addEvidence_def scanStart_def Let_def)

lemma probeAll_component:
  "sc_component (probeAll ob d t) = (blankComponent d t)\<lparr>
     comp_evidence := runtimeEvidence1 ob d @ markerEvidence ob d @ runtimeEvidence2 ob d,
     comp_roots := foldl appendUnique [] (presentPaths ob (idef_paths d)),
     comp_services := foldl appendUnique [] (map ss_unit (loadedUnits ob (unitNames ob d)))\<rparr>"
  by (simp add: probeAll_eq observedMore_def noteUnits_def addEvidence_def scanStart_def blankComponent_def markerEvidence_def evidenceOf_def Let_def)

subsection \<open>Classification\<close>

definition reported :: "scan_state \<Rightarrow> component" where
  "reported st = sortComponent (classifyHealth st (classifyOwnership st (reportVersion st (sc_component st))))"

lemma scanDefinition_reported: "scanDefinition ob None d t = Inr (reported (probeAll ob d t))"
  by (simp add: scanDefinition_def reported_def Let_def)

lemmas classify_defs = reported_def sortComponent_def classifyHealth_def classifyOwnership_def reportVersion_def addWarning_def Let_def

lemma reported_fields:
  "comp_id (reported st) = comp_id (sc_component st)"
  "comp_evidence (reported st) = comp_evidence (sc_component st)"
  "comp_services (reported st) = sort (comp_services (sc_component st))"
  "comp_roots (reported st) = sort (comp_roots (sc_component st))"
  by (auto simp: classify_defs split: list.split)

lemma reported_version: "comp_version (reported st) = (case sc_versions st of [v] \<Rightarrow> v | _ \<Rightarrow> comp_version (sc_component st))"
  by (auto simp: classify_defs split: list.split)

definition ownershipClass :: "scan_state \<Rightarrow> string" where
  "ownershipClass st =
     (if sc_marker st \<and> sc_non_marker st = 0 then OwnershipUnknown else if sc_marker st then OwnershipManaged
      else if sc_positive st > 0 then OwnershipExternal else if sc_errors st > 0 then OwnershipUnknown else OwnershipDisabled)"

lemma ownership_distinct [simp]:
  "OwnershipManaged \<noteq> OwnershipExternal" "OwnershipManaged \<noteq> OwnershipUnknown" "OwnershipManaged \<noteq> OwnershipDisabled"
  "OwnershipExternal \<noteq> OwnershipUnknown" "OwnershipExternal \<noteq> OwnershipDisabled" "OwnershipUnknown \<noteq> OwnershipDisabled"
  "OwnershipExternal \<noteq> OwnershipManaged" "OwnershipUnknown \<noteq> OwnershipManaged" "OwnershipDisabled \<noteq> OwnershipManaged"
  "OwnershipUnknown \<noteq> OwnershipExternal" "OwnershipDisabled \<noteq> OwnershipExternal" "OwnershipDisabled \<noteq> OwnershipUnknown"
  by (simp_all add: ownership_defs)

lemma health_distinct [simp]:
  "HealthHealthy \<noteq> HealthDegraded" "HealthHealthy \<noteq> HealthUnknown" "HealthHealthy \<noteq> HealthDisabled"
  "HealthDegraded \<noteq> HealthUnknown" "HealthDegraded \<noteq> HealthDisabled" "HealthUnknown \<noteq> HealthDisabled"
  "HealthDegraded \<noteq> HealthHealthy" "HealthUnknown \<noteq> HealthHealthy" "HealthDisabled \<noteq> HealthHealthy"
  "HealthUnknown \<noteq> HealthDegraded" "HealthDisabled \<noteq> HealthDegraded" "HealthDisabled \<noteq> HealthUnknown"
  by (simp_all add: health_defs)

lemma classified_ownership:
  "comp_ownership (reported st) = ownershipClass st"
  by (simp add: classify_defs ownershipClass_def split: list.split)

lemma classified_health:
  "comp_health (reported st) =
     (if ownershipClass st = OwnershipManaged \<or> ownershipClass st = OwnershipExternal
      then if sc_active st then HealthHealthy else if sc_inactive st then HealthDegraded else HealthUnknown
      else if ownershipClass st = OwnershipUnknown then HealthUnknown else HealthDisabled)"
  by (simp add: classify_defs ownershipClass_def split: list.split)

lemma unitEvidence_runtime: "runtimeEvidence2 ob d = [] \<Longrightarrow> loadedUnits ob (unitNames ob d) = []"
  by (simp add: runtimeEvidence2_def)

definition activeUnit :: "observer \<Rightarrow> inv_definition \<Rightarrow> bool" where
  "activeUnit ob d \<longleftrightarrow> list_ex (\<lambda>s. ss_active s = ''active'') (loadedUnits ob (unitNames ob d))"

lemma probeAll_activity:
  "sc_active (probeAll ob d t) \<longleftrightarrow> activeUnit ob d"
  "\<not> activeUnit ob d \<Longrightarrow> sc_inactive (probeAll ob d t) \<longleftrightarrow> loadedUnits ob (unitNames ob d) \<noteq> []"
  "runtimeEvidence2 ob d = [] \<Longrightarrow> \<not> activeUnit ob d"
  by (cases "loadedUnits ob (unitNames ob d)"; auto simp: activeUnit_def probeAll_units list_ex_iff unitEvidence_runtime)+

lemma scan_health:
  "comp_health (reported (probeAll ob d t)) = HealthHealthy \<longleftrightarrow> activeUnit ob d"
  "comp_health (reported (probeAll ob d t)) = HealthDegraded \<longleftrightarrow> loadedUnits ob (unitNames ob d) \<noteq> [] \<and> \<not> activeUnit ob d"
  "comp_health (reported (probeAll ob d t)) = HealthDisabled \<longleftrightarrow> comp_ownership (reported (probeAll ob d t)) = OwnershipDisabled"
  using probeAll_activity(1) [of ob d t] probeAll_activity(2) [of ob d t] probeAll_activity(3) [of ob d] unitEvidence_runtime [of ob d]
  by (cases "activeUnit ob d"; cases "runtimeEvidence2 ob d = []";
      simp add: classified_health classified_ownership ownershipClass_def probeAll_counts)+

lemma scan_ownership:
  "comp_ownership (reported (probeAll ob d t)) = OwnershipManaged \<longleftrightarrow> markerFound ob d \<and> runtimeEvidence1 ob d @ runtimeEvidence2 ob d \<noteq> []"
  "comp_ownership (reported (probeAll ob d t)) = OwnershipExternal \<longleftrightarrow> \<not> markerFound ob d \<and> runtimeEvidence1 ob d @ runtimeEvidence2 ob d \<noteq> []"
  "comp_ownership (reported (probeAll ob d t)) = OwnershipDisabled \<longleftrightarrow>
     comp_evidence (reported (probeAll ob d t)) = [] \<and> \<not> probeFailed ob d"
  by (auto simp: classified_ownership ownershipClass_def probeAll_counts reported_fields probeAll_component markerEvidence_def)

lemma distinct_singleton: "distinct xs \<Longrightarrow> set xs = {v} \<Longrightarrow> xs = [v]"
  by (cases xs) (auto simp: distinct_card [symmetric] subset_singleton_iff)

lemma versionsFound_nonempty: "[] \<notin> set (versionsFound ob d)"
  by (auto simp: versionsFound_def fileVersions_def commandVersions_def fileVersion_def commandVersion_def map_filter_def
      split: if_splits option.splits)

lemma scan_version:
  assumes "v \<noteq> []"
  shows "comp_version (reported (probeAll ob d t)) = v \<longleftrightarrow> set (versionsFound ob d) = {v}"
proof -
  let ?vs = "foldl appendUnique [] (versionsFound ob d)"
  have vs: "set ?vs = set (versionsFound ob d)" "distinct ?vs"
    using foldl_appendUnique [of "[]" "versionsFound ob d"] by simp_all
  have "comp_version (reported (probeAll ob d t)) = v \<longleftrightarrow> ?vs = [v]"
    using assms by (simp add: reported_version probeAll_units probeAll_component blankComponent_def split: list.split)
  also have "\<dots> \<longleftrightarrow> set ?vs = {v}" using vs(2) distinct_singleton by fastforce
  finally show ?thesis using vs(1) by simp
qed

text \<open>
  C40. A scan that is not cancelled always returns a component, and the component reports exactly what the observer
  answered: its evidence is the list of present paths, the ownership marker, the matching files, the loaded units and the
  versions read, in this order; it is managed exactly when the marker is present and something else confirms it, external
  exactly when there is such other evidence and no marker, and disabled exactly when there is no evidence and no probe failed; it is healthy
  exactly when a loaded unit is active, degraded exactly when units are loaded and none is active, and its health is
  disabled exactly when its ownership is; a version is reported exactly when all sources agree on it; services and
  roots are sorted and free of duplicates.
\<close>

theorem scan_classifies:
  "\<exists>c. scanDefinition ob None d t = Inr c \<and>
     comp_evidence c = runtimeEvidence1 ob d @ markerEvidence ob d @ runtimeEvidence2 ob d \<and>
     (comp_ownership c = OwnershipManaged \<longleftrightarrow> markerFound ob d \<and> runtimeEvidence1 ob d @ runtimeEvidence2 ob d \<noteq> []) \<and>
     (comp_ownership c = OwnershipExternal \<longleftrightarrow> \<not> markerFound ob d \<and> runtimeEvidence1 ob d @ runtimeEvidence2 ob d \<noteq> []) \<and>
     (comp_ownership c = OwnershipDisabled \<longleftrightarrow> comp_evidence c = [] \<and> \<not> probeFailed ob d) \<and>
     (comp_health c = HealthHealthy \<longleftrightarrow> activeUnit ob d) \<and>
     (comp_health c = HealthDegraded \<longleftrightarrow> loadedUnits ob (unitNames ob d) \<noteq> [] \<and> \<not> activeUnit ob d) \<and>
     (comp_health c = HealthDisabled \<longleftrightarrow> comp_ownership c = OwnershipDisabled) \<and>
     (\<forall>v0 vs. comp_version c = v0 # vs \<longleftrightarrow> set (versionsFound ob d) = {v0 # vs}) \<and>
     sorted (comp_services c) \<and> distinct (comp_services c) \<and> set (comp_services c) = ss_unit ` set (loadedUnits ob (unitNames ob d)) \<and>
     sorted (comp_roots c) \<and> distinct (comp_roots c) \<and> set (comp_roots c) = set (presentPaths ob (idef_paths d))"
proof -
  let ?c = "reported (probeAll ob d t)"
  have "comp_evidence ?c = runtimeEvidence1 ob d @ markerEvidence ob d @ runtimeEvidence2 ob d"
    "sorted (comp_services ?c)" "distinct (comp_services ?c)" "set (comp_services ?c) = ss_unit ` set (loadedUnits ob (unitNames ob d))"
    "sorted (comp_roots ?c)" "distinct (comp_roots ?c)" "set (comp_roots ?c) = set (presentPaths ob (idef_paths d))"
    by (simp_all add: reported_fields probeAll_component foldl_appendUnique)
  moreover have "\<forall>v0 vs. comp_version ?c = v0 # vs \<longleftrightarrow> set (versionsFound ob d) = {v0 # vs}"
    by (simp add: scan_version)
  ultimately show ?thesis
    by (intro exI [of _ ?c] conjI scanDefinition_reported scan_ownership scan_health)
qed

subsection \<open>Snapshot and lookup\<close>

lemma defaultDefinitions_distinct: "distinct (map idef_id defaultDefinitions)"
  by code_simp

lemma all_less_Suc_shift: "(\<forall>j < Suc n. P j) \<longleftrightarrow> P 0 \<and> (\<forall>j < n. P (Suc j))"
  by (auto simp: less_Suc_eq_0_disj)

lemma scanAll_result:
  "case scanAll ob ctx_err t i ds of
     Inl err \<Rightarrow> \<exists>j < length ds. ctx_err (i + j) = Some err
   | Inr cs \<Rightarrow> (\<forall>j < length ds. ctx_err (i + j) = None) \<and> cs = map (\<lambda>d. reported (probeAll ob d t)) ds"
proof (induction ds arbitrary: i)
  case (Cons d ds)
  show ?case
  proof (cases "ctx_err i")
    case None
    have "\<And>P. (\<exists>j < length ds. P (Suc (i + j))) \<Longrightarrow> \<exists>j < Suc (length ds). P (i + j)" by force
    then show ?thesis using None Cons.IH [of "Suc i"]
      by (simp add: scanDefinition_reported all_less_Suc_shift split: sum.splits)
  next
    case (Some err)
    then show ?thesis by (auto simp: scanDefinition_def)
  qed
qed simp

lemma reported_id [simp]: "comp_id (reported (probeAll ob d t)) = idef_id d"
  by (simp add: reported_fields probeAll_component blankComponent_def)

lemma find_Some_distinct:
  "distinct (map f xs) \<Longrightarrow> x \<in> set xs \<Longrightarrow> find (\<lambda>y. f y = f x) xs = Some x"
  by (induction xs) (auto simp: rev_image_eqI)

lemma find_permuted:
  assumes "distinct (map f xs)" "mset ys = mset xs"
  shows "find (\<lambda>x. f x = k) ys = find (\<lambda>x. f x = k) xs"
proof (cases "k \<in> f ` set xs")
  case True
  then obtain x where "x \<in> set xs" "k = f x" by blast
  moreover have "distinct (map f ys)" using assms by (metis mset_eq_imp_distinct_iff mset_map)
  moreover have "set ys = set xs" using assms(2) by (rule mset_eq_setD)
  ultimately show ?thesis using assms(1) by (simp add: find_Some_distinct)
next
  case False
  moreover have "set ys = set xs" using assms(2) by (rule mset_eq_setD)
  ultimately show ?thesis by (metis (mono_tags, lifting) find_None_iff image_eqI)
qed

lemma find_map_key: "find P (map f xs) = map_option f (find (\<lambda>x. P (f x)) xs)"
  by (induction xs) auto

lemma inventoryComponent_find:
  "inventoryComponent s None ident t =
   Inr (find (\<lambda>c. comp_id c = ident) (map (\<lambda>d. reported (probeAll (is_observer s) d t)) (is_definitions s)))"
  by (auto simp: inventoryComponent_def scanDefinition_reported find_map_key split: option.split)

text \<open>
  A snapshot of the scanner that the program builds fails exactly when its context is done at one of the checks, with
  the error of the context. Otherwise it lists one component for each compiled definition, in strictly increasing order
  of ID, and asking for a single component at the same time gives the entry of the snapshot with that ID, or no component for any other ID.
\<close>

theorem snapshot_agrees_with_lookup:
  "case inventorySnapshot (newScanner env ob) ctx_err t of
     Inl err \<Rightarrow> \<exists>i. i \<le> length defaultDefinitions \<and> ctx_err i = Some err
   | Inr snap \<Rightarrow>
       \<not> (\<exists>i. i \<le> length defaultDefinitions \<and> ctx_err i \<noteq> None) \<and>
       sorted (map comp_id (snap_components snap)) \<and> distinct (map comp_id (snap_components snap)) \<and>
       set (map comp_id (snap_components snap)) = set (map idef_id defaultDefinitions) \<and>
       inventoryComponent (newScanner env ob) None ident t = Inr (find (\<lambda>c. comp_id c = ident) (snap_components snap))"
proof -
  let ?s = "newScanner env ob"
  let ?cs = "map (\<lambda>d. reported (probeAll (is_observer ?s) d t)) defaultDefinitions"
  have ds: "is_definitions ?s = defaultDefinitions" by (simp add: newScanner_def)
  note all = scanAll_result [where ob = "is_observer ?s" and ctx_err = ctx_err and t = t and i = 1 and ds = defaultDefinitions]
  have ids: "map comp_id ?cs = map idef_id defaultDefinitions" by simp
  have found: "find (\<lambda>c. comp_id c = ident) (sort_key comp_id ?cs) = find (\<lambda>c. comp_id c = ident) ?cs"
    using defaultDefinitions_distinct by (intro find_permuted) (simp_all only: ids mset_sort)
  have dist: "distinct (map comp_id (sort_key comp_id ?cs))"
    using defaultDefinitions_distinct by (metis ids mset_eq_imp_distinct_iff mset_map mset_sort)
  show ?thesis
  proof (cases "inventorySnapshot ?s ctx_err t")
    case (Inl err)
    then consider "ctx_err 0 = Some err" | j where "j < length defaultDefinitions" "ctx_err (1 + j) = Some err"
      using all by (auto simp: inventorySnapshot_def ds split: option.splits sum.splits)
    then have "\<exists>i. i \<le> length defaultDefinitions \<and> ctx_err i = Some err"
      by cases (blast, metis Suc_leI plus_1_eq_Suc)
    then show ?thesis using Inl by simp
  next
    case (Inr snap)
    then have live: "ctx_err 0 = None" "\<forall>j < length defaultDefinitions. ctx_err (1 + j) = None"
      and snap: "snap_components snap = sort_key comp_id ?cs"
      using all by (auto simp: inventorySnapshot_def ds split: option.splits sum.splits)
    have "ctx_err i = None" if "i \<le> length defaultDefinitions" for i using live that by (cases i) auto
    with Inr snap dist show ?thesis
      by (simp add: found inventoryComponent_find ds image_image)
  qed
qed

end
