(* ===== verification/QC_Control.thy ===== *)
theory QC_Control
  imports QC_AuditLog QC_Client QC_Config QC_Inventory
begin

text \<open>
  The public service (\<^verbatim>\<open>internal/control\<close>): its security dependencies, authentication and permissions in front of
  every route, and the handlers, over the plan cache of \<^verbatim>\<open>QC_Plans\<close>, the audit store of \<^verbatim>\<open>QC_AuditLog\<close>, the
  inventory of \<^verbatim>\<open>QC_Inventory\<close> and a broker behind the interface of \<^verbatim>\<open>QC_Client\<close>.

  A request is the route the multiplexer found with the headers and values the handler reads; the random bytes, clock
  readings and faults it meets are a \<open>control_env\<close>. Log lines are not modelled. The world of the service is its
  plan cache, its audit store with the file, and the world \<open>'w\<close> behind the broker.
\<close>

subsection \<open>Security dependencies\<close>

record security_dependencies =
  sd_authenticator :: "authenticator option"
  sd_audit :: "(audit_store \<times> audit_file) option"
  sd_plans :: "plan_cache option"
  sd_plan_ttl :: duration

datatype dependency_error = LoadActorRegistry actor_error | LegacyIdentity actor_error | OpenAudit audit_error

definition registryAuthenticators :: "control_config \<Rightarrow> actor_registry disk_file \<Rightarrow> dependency_error + authenticator option list" where
  "registryAuthenticators cfg actors =
     (if cc_actor_file cfg = [] then Inr []
      else (case loadActorRegistry actors of Inl e \<Rightarrow> Inl (LoadActorRegistry e) | Inr a \<Rightarrow> Inr [Some a]))"

definition legacyAuthenticators :: "control_config \<Rightarrow> dependency_error + authenticator option list" where
  "legacyAuthenticators cfg =
     (if cc_api_token cfg = [] then Inr []
      else (case newStaticAuthenticator legacyServiceActor (cc_api_token cfg) of
              Inl e \<Rightarrow> Inl (LegacyIdentity e) | Inr a \<Rightarrow> Inr [Some a]))"

definition loadSecurityDependencies ::
  "control_config \<Rightarrow> actor_registry disk_file \<Rightarrow> audit_file \<Rightarrow> dependency_error + security_dependencies" where
  "loadSecurityDependencies cfg actors file =
     bindE (registryAuthenticators cfg actors) (\<lambda>rs.
     bindE (legacyAuthenticators cfg) (\<lambda>ls.
       let authenticators = rs @ ls in
       case openAuditStore (cc_audit_path cfg) file of
         Inl e \<Rightarrow> Inl (OpenAudit e)
       | Inr audit \<Rightarrow> Inr \<lparr>
           sd_authenticator = (if authenticators = [] then None else Some (MultiAuthenticator authenticators)),
           sd_audit = Some (audit, file), sd_plans = Some newPlanCache, sd_plan_ttl = cc_plan_ttl cfg\<rparr>))"

definition defaultSecurityDependencies :: "control_config \<Rightarrow> security_dependencies" where
  "defaultSecurityDependencies cfg = \<lparr>
     sd_authenticator =
       (if cc_api_token cfg = [] then None
        else case newStaticAuthenticator legacyServiceActor (cc_api_token cfg) of Inl _ \<Rightarrow> None | Inr a \<Rightarrow> Some a),
     sd_audit = None, sd_plans = Some newPlanCache, sd_plan_ttl = 5 * minute\<rparr>"

subsection \<open>The server\<close>

record 'w control_server =
  cs_broker :: "'w broker_api"
  cs_cfg :: control_config
  cs_authenticator :: "authenticator option"
  cs_plan_ttl :: duration
  cs_scanner :: inv_service
  cs_build :: "string \<times> string \<times> string"

record 'w control_world =
  cw_plans :: "plan_cache option"
  cw_audit :: "(audit_store \<times> audit_file) option"
  cw_broker :: 'w

text \<open>\<open>build\<close> is the version, commit and time of \<^verbatim>\<open>buildinfo\<close>.\<close>

definition newServerWithSecurity ::
  "'w broker_api \<Rightarrow> control_config \<Rightarrow> inv_service \<Rightarrow> string \<times> string \<times> string \<Rightarrow> security_dependencies \<Rightarrow> 'w \<Rightarrow>
   'w control_server \<times> 'w control_world" where
  "newServerWithSecurity api cfg scanner build deps w =
     (\<lparr>cs_broker = api, cs_cfg = cfg, cs_authenticator = sd_authenticator deps,
       cs_plan_ttl = (if sd_plan_ttl deps \<le> 0 then 5 * minute else sd_plan_ttl deps), cs_scanner = scanner, cs_build = build\<rparr>,
      \<lparr>cw_plans = Some (case sd_plans deps of None \<Rightarrow> newPlanCache | Some c \<Rightarrow> c), cw_audit = sd_audit deps, cw_broker = w\<rparr>)"

definition newControlServer ::
  "'w broker_api \<Rightarrow> control_config \<Rightarrow> inv_service \<Rightarrow> string \<times> string \<times> string \<Rightarrow> 'w \<Rightarrow> 'w control_server \<times> 'w control_world" where
  "newControlServer api cfg scanner build w =
     newServerWithSecurity api cfg scanner build (defaultSecurityDependencies cfg) w"

subsection \<open>Requests and responses\<close>

datatype 'a decode_result = Decoded 'a | TooLarge | Malformed string

text \<open>
  A body: \<open>cb_decode limit\<close> is the result of the first \<^verbatim>\<open>Decode\<close> when at most \<open>limit\<close> bytes may be read, \<open>cb_only\<close> says
  that nothing but white space follows the first value.
\<close>

record 'a control_body =
  cb_length :: int
  cb_decode :: "int \<Rightarrow> 'a decode_result"
  cb_only :: bool

record confirmation_request =
  cfr_plan_id :: string

record approved_execution_request =
  aer_plan_id :: string
  aer_confirmation_token :: string

datatype control_call =
    CtlRoot
  | CtlHealth
  | CtlReady
  | CtlInfo
  | CtlOperations
  | CtlPlan "operation_request control_body"
  | CtlExecute "operation_request control_body"
  | CtlApproved "approved_execution_request control_body"
  | CtlSystemStatus
  | CtlServiceStatus string
  | CtlAuditQuery string string string
  | CtlAuditIntegrity
  | CtlConfirm "confirmation_request control_body"
  | CtlComponents
  | CtlComponent string

record control_request =
  cq_authorization :: string
  cq_session_id :: string
  cq_call :: control_call

record control_env =
  cv_request_id :: "bytes option"
  cv_now :: gotime
  cv_plan_now :: gotime
  cv_plan_id :: "bytes option"
  cv_cache_now :: gotime
  cv_audit :: "nat \<Rightarrow> audit_env"
  cv_ctx_err :: "nat \<Rightarrow> string option"
  cv_inventory_now :: gotime

datatype control_payload =
    ObjectPayload anymap
  | OperationsPayload "operation_definition list"
  | SecurityPlanPayload operation_plan
  | ResponsePayload operation_response
  | ResultPayload anymap
  | ConfirmationPayload grant_response
  | AuditPayload anymap "audit_record list"
  | SnapshotPayload inventory_snapshot
  | ComponentPayload component
  | ControlProblem problem string
  | TextPayload string

record control_response =
  ct_status :: nat
  ct_headers :: smap
  ct_payload :: control_payload

definition controlWriteJSON :: "nat \<Rightarrow> control_payload \<Rightarrow> control_response" where
  "controlWriteJSON status payload =
     \<lparr>ct_status = status,
      ct_headers = [(''Content-Type'', ''application/json; charset=utf-8''), (''Cache-Control'', ''no-store''),
                    (''X-Content-Type-Options'', ''nosniff'')],
      ct_payload = payload\<rparr>"

definition controlProblem :: "string \<Rightarrow> nat \<Rightarrow> string \<Rightarrow> string \<Rightarrow> control_response" where
  "controlProblem requestID status code message = controlWriteJSON status (ControlProblem (mkProblem code message) requestID)"

definition newRequestID :: "control_env \<Rightarrow> string" where
  "newRequestID env =
     (case cv_request_id env of None \<Rightarrow> ''request-'' @ printInt (unixNano (cv_now env)) | Some v \<Rightarrow> hexEncode v)"

definition operationHTTPStatus :: "string \<Rightarrow> nat" where
  "operationHTTPStatus status =
     (if status = ''completed'' then 200 else if status = ''rejected'' then 400 else if status = ''failed'' then 500 else 502)"

text \<open>What \<^verbatim>\<open>requirePermission\<close> and \<^verbatim>\<open>withRequestID\<close> put into the context of a request.\<close>

record control_context =
  cx_request_id :: string
  cx_actor :: actor
  cx_session_id :: string
  cx_credential :: string

subsection \<open>Authentication and permissions\<close>

definition authenticateRequest :: "'w control_server \<Rightarrow> string \<Rightarrow> (actor \<times> string) option" where
  "authenticateRequest s header =
     (case cs_authenticator s of
        None \<Rightarrow> if trimSpace header \<noteq> [] then None else Some (localReadOnlyActor, [])
      | Some auth \<Rightarrow>
          if \<not> prefix ''Bearer '' header then None
          else (let provided = trimSpace (trimPrefix header ''Bearer '') in
                case authenticateBearer auth provided of None \<Rightarrow> None | Some a \<Rightarrow> Some (a, provided)))"

definition correlationChar :: "char \<Rightarrow> bool" where
  "correlationChar c \<longleftrightarrow> is_lower c \<or> is_upper c \<or> is_digit c \<or> c \<in> set ''-_.:@''"

definition validCorrelationID :: "string \<Rightarrow> bool" where
  "validCorrelationID value =
     (if length value < 1 \<or> length value > 160 then False else list_all correlationChar value)"

definition requirePermission ::
  "'w control_server \<Rightarrow> string \<Rightarrow> string \<Rightarrow> control_request \<Rightarrow>
   (control_context \<Rightarrow> 'w control_world \<Rightarrow> control_response \<times> 'w control_world) \<Rightarrow> 'w control_world \<Rightarrow> control_response \<times> 'w control_world" where
  "requirePermission s requestID permission req next w =
     (case authenticateRequest s (cq_authorization req) of
        None \<Rightarrow>
          (let r = controlProblem requestID 401 ''unauthorized'' ''A valid actor credential is required.'' in
           (r\<lparr>ct_headers := (''WWW-Authenticate'', ''Bearer realm=\"Quantum Control\"'') # ct_headers r\<rparr>, w))
      | Some (actor, credential) \<Rightarrow>
          if \<not> hasPermission actor permission then
            (controlProblem requestID 403 ''forbidden'' ''The authenticated actor does not have permission for this operation.'', w)
          else
            (let sessionID = trimSpace (cq_session_id req) in
             if sessionID = [] then
               next \<lparr>cx_request_id = requestID, cx_actor = actor, cx_session_id = ''session-'' @ requestID, cx_credential = credential\<rparr> w
             else if \<not> validCorrelationID sessionID then
               (controlProblem requestID 400 ''invalid_session_id'' ''X-Quantum-Session-ID does not match policy.'', w)
             else
               next \<lparr>cx_request_id = requestID, cx_actor = actor, cx_session_id = sessionID, cx_credential = credential\<rparr> w))"

subsection \<open>Helpers of the handlers\<close>

definition appendAudit :: "audit_env \<Rightarrow> event_data \<Rightarrow> 'w control_world \<Rightarrow> 'w control_world" where
  "appendAudit env event w =
     (case cw_audit w of
        None \<Rightarrow> w
      | Some (store, file) \<Rightarrow>
          (case appendEvent env event store file of (_, store', file') \<Rightarrow> w\<lparr>cw_audit := Some (store', file')\<rparr>))"

definition prepareRequest :: "control_context \<Rightarrow> operation_request \<Rightarrow> operation_request" where
  "prepareRequest cx request =
     request\<lparr>req_actor := actor_id (cx_actor cx), req_confirmation := [],
       req_id := (if trimSpace (req_id request) = [] then cx_request_id cx else req_id request)\<rparr>"

text \<open>The strict decoding three handlers share; they differ in the message for a malformed value.\<close>

definition decodeControl :: "string \<Rightarrow> int \<Rightarrow> (string \<Rightarrow> string) \<Rightarrow> 'a control_body \<Rightarrow> control_response + 'a" where
  "decodeControl requestID limit message body =
     (case cb_decode body limit of
        TooLarge \<Rightarrow> Inl (controlProblem requestID 413 ''request_too_large'' ''The request body exceeds the configured limit.'')
      | Malformed err \<Rightarrow> Inl (controlProblem requestID 400 ''invalid_json'' (message err))
      | Decoded x \<Rightarrow>
          if limit < cb_length body \<or> \<not> cb_only body then
            Inl (controlProblem requestID 400 ''invalid_json'' ''The request body must contain exactly one JSON object.'')
          else Inr x)"

definition decodeOperation :: "'w control_server \<Rightarrow> string \<Rightarrow> operation_request control_body \<Rightarrow> control_response + operation_request" where
  "decodeOperation s requestID body = decodeControl requestID (cc_body_limit (cs_cfg s)) (\<lambda>err. err) body"

definition brokerGatewayError :: "string \<Rightarrow> control_response" where
  "brokerGatewayError requestID = controlProblem requestID 502 ''broker_error'' ''The privileged broker request failed.''"

definition responseErrorCode :: "operation_response \<Rightarrow> string" where
  "responseErrorCode response = (case resp_error response of None \<Rightarrow> [] | Some p \<Rightarrow> prob_code p)"

definition recoveryStatus :: "anymap \<Rightarrow> string" where
  "recoveryStatus result = (case map_of result ''recovery_status'' of Some (GStr v) \<Rightarrow> trimSpace v | _ \<Rightarrow> [])"

subsection \<open>The handlers\<close>

definition controlRoot :: "'w control_server \<Rightarrow> control_response" where
  "controlRoot s = controlWriteJSON 200 (ObjectPayload
     [(''service'', GStr ''quantum-control''), (''version'', GStr (fst (cs_build s))), (''status'', GStr ''online'')])"

definition controlHealth :: "'w control_server \<Rightarrow> control_response" where
  "controlHealth s = controlWriteJSON 200 (ObjectPayload
     [(''status'', GStr ''ok''), (''service'', GStr ''quantum-control''), (''version'', GStr (fst (cs_build s)))])"

definition securityReady :: "'w control_world \<Rightarrow> bool" where
  "securityReady w \<longleftrightarrow> cw_plans w \<noteq> None"

definition controlReady :: "'w control_server \<Rightarrow> string \<Rightarrow> 'w control_world \<Rightarrow> control_response \<times> 'w control_world" where
  "controlReady s requestID w =
     (if \<not> securityReady w then
        (controlProblem requestID 503 ''security_unavailable'' ''The security subsystem is unavailable.'', w)
      else case api_health (cs_broker s) (cw_broker w) of
        (Some _, b') \<Rightarrow> (controlProblem requestID 503 ''broker_unavailable'' ''The privileged broker is unavailable.'', w\<lparr>cw_broker := b'\<rparr>)
      | (None, b') \<Rightarrow>
          (controlWriteJSON 200 (ObjectPayload [(''status'', GStr ''ready''), (''broker'', GStr ''qcored''), (''security'', GStr ''ready'')]),
           w\<lparr>cw_broker := b'\<rparr>))"

definition controlInfo :: "'w control_server \<Rightarrow> 'w control_world \<Rightarrow> control_response" where
  "controlInfo s w =
     (case cs_build s of (version, commit, buildTime) \<Rightarrow>
        controlWriteJSON 200 (ObjectPayload
          [(''service'', GStr ''quantum-control''), (''version'', GStr version), (''commit'', GStr commit), (''build_time'', GStr buildTime),
           (''broker'', GStr ''qcored''),
           (''capabilities'', GMap
             [(''typed_operations'', GBool True), (''operation_plans'', GBool True), (''actor_permissions'', GBool True),
              (''confirmation_contracts'', GBool True), (''durable_audit'', GBool (cw_audit w \<noteq> None)), (''system_snapshot'', GBool True),
              (''service_status'', GBool True), (''service_mutations'', GBool (api_approval (cs_broker s) \<noteq> None)), (''web_ui'', GBool False)])]))"

definition controlOperations :: "'w control_server \<Rightarrow> control_context \<Rightarrow> 'w control_world \<Rightarrow> control_response \<times> 'w control_world" where
  "controlOperations s cx w =
     (case api_catalog (cs_broker s) (cw_broker w) of
        (Inl _, b') \<Rightarrow> (brokerGatewayError (cx_request_id cx), w\<lparr>cw_broker := b'\<rparr>)
      | (Inr operations, b') \<Rightarrow> (controlWriteJSON 200 (OperationsPayload operations), w\<lparr>cw_broker := b'\<rparr>))"

definition planEvent :: "control_context \<Rightarrow> operation_plan \<Rightarrow> event_data" where
  "planEvent cx plan = \<lparr>
     ev_event = (if kind (cx_actor cx) = ActorTCI then ''proposal.created'' else ''plan.created''), ev_actor = cx_actor cx,
     ev_request_id = plan_request_id plan, ev_session_id = plan_session_id plan, ev_plan_id = plan_id plan,
     ev_plan_digest = plan_digest plan, ev_action = plan_action plan, ev_risk = plan_risk plan,
     ev_status = (if plan_valid plan then ''valid'' else ''rejected''), ev_rollback_status = [],
     ev_parameters = planParametersMap plan, ev_error_code = plan_error_code plan\<rparr>"

definition controlPlan ::
  "'w control_server \<Rightarrow> control_env \<Rightarrow> control_context \<Rightarrow> operation_request control_body \<Rightarrow> 'w control_world \<Rightarrow>
   control_response \<times> 'w control_world" where
  "controlPlan s env cx body w =
     (case decodeOperation s (cx_request_id cx) body of
        Inl r \<Rightarrow> (r, w)
      | Inr request \<Rightarrow>
          (case api_plan (cs_broker s) (prepareRequest cx request) (cw_broker w) of
             (Inl _, b') \<Rightarrow> (brokerGatewayError (cx_request_id cx), w\<lparr>cw_broker := b'\<rparr>)
           | (Inr brokerPlan, b') \<Rightarrow>
               (case buildPlan (cs_plan_ttl s) (cv_plan_now env) (cv_plan_id env) (cx_actor cx) (cx_session_id cx) brokerPlan of
                  Inl _ \<Rightarrow>
                    (controlProblem (cx_request_id cx) 500 ''plan_contract_error'' ''The immutable operation plan could not be created.'',
                     w\<lparr>cw_broker := b'\<rparr>)
                | Inr plan \<Rightarrow>
                    (controlWriteJSON (if plan_valid plan then 200 else 400) (SecurityPlanPayload plan),
                     appendAudit (cv_audit env 0) (planEvent cx plan)
                       (w\<lparr>cw_broker := b', cw_plans := map_option (cachePut (cv_cache_now env) plan) (cw_plans w)\<rparr>)))))"

definition executeEvent :: "control_context \<Rightarrow> operation_request \<Rightarrow> operation_response \<Rightarrow> event_data" where
  "executeEvent cx request response = \<lparr>
     ev_event = ''operation.'' @ resp_status response, ev_actor = cx_actor cx, ev_request_id = resp_request_id response,
     ev_session_id = cx_session_id cx, ev_plan_id = [], ev_plan_digest = [], ev_action = resp_action response,
     ev_risk = resp_risk response, ev_status = resp_status response, ev_rollback_status = [],
     ev_parameters = req_parameters request, ev_error_code = responseErrorCode response\<rparr>"

definition controlExecute ::
  "'w control_server \<Rightarrow> control_env \<Rightarrow> control_context \<Rightarrow> operation_request control_body \<Rightarrow> 'w control_world \<Rightarrow>
   control_response \<times> 'w control_world" where
  "controlExecute s env cx body w =
     (case decodeOperation s (cx_request_id cx) body of
        Inl r \<Rightarrow> (r, w)
      | Inr request0 \<Rightarrow>
          (let request = prepareRequest cx request0 in
           case api_execute (cs_broker s) request (cw_broker w) of
             (Inl _, b') \<Rightarrow> (brokerGatewayError (cx_request_id cx), w\<lparr>cw_broker := b'\<rparr>)
           | (Inr response, b') \<Rightarrow>
               (controlWriteJSON (operationHTTPStatus (resp_status response)) (ResponsePayload response),
                appendAudit (cv_audit env 0) (executeEvent cx request response) (w\<lparr>cw_broker := b'\<rparr>))))"

definition controlStatus :: "'w control_server \<Rightarrow> control_context \<Rightarrow> operation_request \<Rightarrow> 'w control_world \<Rightarrow> control_response \<times> 'w control_world" where
  "controlStatus s cx request w =
     (case api_execute (cs_broker s) request (cw_broker w) of
        (Inl _, b') \<Rightarrow> (brokerGatewayError (cx_request_id cx), w\<lparr>cw_broker := b'\<rparr>)
      | (Inr response, b') \<Rightarrow>
          (if resp_status response \<noteq> ''completed''
           then controlWriteJSON (operationHTTPStatus (resp_status response)) (ResponsePayload response)
           else controlWriteJSON 200 (ResultPayload (resp_result response)),
           w\<lparr>cw_broker := b'\<rparr>))"

definition controlSystemStatus :: "'w control_server \<Rightarrow> control_context \<Rightarrow> 'w control_world \<Rightarrow> control_response \<times> 'w control_world" where
  "controlSystemStatus s cx w = controlStatus s cx
     \<lparr>req_id = cx_request_id cx, req_action = ''system.snapshot'', req_actor = actor_id (cx_actor cx), req_parameters = [], req_confirmation = []\<rparr> w"

definition controlServiceStatus :: "'w control_server \<Rightarrow> control_context \<Rightarrow> string \<Rightarrow> 'w control_world \<Rightarrow> control_response \<times> 'w control_world" where
  "controlServiceStatus s cx unit w = controlStatus s cx
     \<lparr>req_id = cx_request_id cx, req_action = ''service.status'', req_actor = actor_id (cx_actor cx),
      req_parameters = [(''unit'', unit)], req_confirmation = []\<rparr> w"

text \<open>\<^verbatim>\<open>limit\<close>, \<^verbatim>\<open>actor_id\<close> and \<^verbatim>\<open>action\<close> are the values of the query string; \<open>None\<close> is a limit out of range.\<close>

definition queryLimit :: "string \<Rightarrow> int option" where
  "queryLimit raw0 =
     (let raw = trimSpace raw0 in
      if raw = [] then Some 100
      else case parseInt64 raw of None \<Rightarrow> None | Some parsed \<Rightarrow> if parsed < 1 \<or> parsed > 500 then None else Some parsed)"

definition controlAuditQuery :: "string \<Rightarrow> string \<Rightarrow> string \<Rightarrow> string \<Rightarrow> 'w control_world \<Rightarrow> control_response" where
  "controlAuditQuery requestID limit0 actor0 action0 w =
     (case cw_audit w of
        None \<Rightarrow> controlProblem requestID 503 ''audit_unavailable'' ''Durable audit storage is unavailable.''
      | Some (store, _) \<Rightarrow>
          (case queryLimit limit0 of
             None \<Rightarrow> controlProblem requestID 400 ''invalid_limit'' ''limit must be an integer from 1 through 500.''
           | Some limit \<Rightarrow>
               (let actorID = trimSpace actor0; action = trimSpace action0 in
                if length actorID > 128 \<or> length action > 160 then
                  controlProblem requestID 400 ''invalid_filter'' ''Audit filters exceed the supported length.''
                else controlWriteJSON 200 (AuditPayload (integrity store) (queryAudit limit actorID action store)))))"

definition controlAuditIntegrity :: "'w control_world \<Rightarrow> control_response" where
  "controlAuditIntegrity w =
     (case cw_audit w of
        None \<Rightarrow> controlWriteJSON 503 (ObjectPayload [(''verified'', GBool False), (''status'', GStr ''unavailable'')])
      | Some (store, _) \<Rightarrow> controlWriteJSON 200 (ObjectPayload (integrity store)))"

definition planDecisionEvent :: "control_context \<Rightarrow> operation_plan \<Rightarrow> string \<Rightarrow> string \<Rightarrow> string \<Rightarrow> smap \<Rightarrow> string \<Rightarrow> string \<Rightarrow> event_data" where
  "planDecisionEvent cx plan requestID event status parameters rollback errorCode = \<lparr>
     ev_event = event, ev_actor = cx_actor cx, ev_request_id = requestID, ev_session_id = cx_session_id cx,
     ev_plan_id = plan_id plan, ev_plan_digest = plan_digest plan, ev_action = plan_action plan, ev_risk = plan_risk plan,
     ev_status = status, ev_rollback_status = rollback, ev_parameters = parameters, ev_error_code = errorCode\<rparr>"

text \<open>The lookup of a cached plan by the identifier of a request.\<close>

definition cachedPlan :: "string \<Rightarrow> gotime \<Rightarrow> string \<Rightarrow> plan_cache \<Rightarrow> (control_response + operation_plan) \<times> plan_cache" where
  "cachedPlan requestID now planID cache =
     (case cacheGet now planID cache of
        (None, cache') \<Rightarrow> (Inl (controlProblem requestID 404 ''plan_not_found'' ''The operation plan does not exist or has expired.''), cache')
      | (Some plan, cache') \<Rightarrow> (Inr plan, cache'))"

text \<open>The submission of a plan for confirmation, audited when a grant is issued.\<close>

definition submitConfirmation ::
  "'w approval_api \<Rightarrow> control_env \<Rightarrow> control_context \<Rightarrow> operation_plan \<Rightarrow> 'w control_world \<Rightarrow> control_response \<times> 'w control_world" where
  "submitConfirmation approvalBroker env cx plan w =
     (case api_confirm approvalBroker plan (cx_credential cx) (cw_broker w) of
        (Inl _, b') \<Rightarrow>
          (controlProblem (cx_request_id cx) 400 ''confirmation_rejected'' ''The operation plan cannot be confirmed under the current policy.'',
           w\<lparr>cw_broker := b'\<rparr>)
      | (Inr grant, b') \<Rightarrow>
          (controlWriteJSON 201 (ConfirmationPayload grant),
           appendAudit (cv_audit env 0) (planDecisionEvent cx plan (cx_request_id cx) ''confirmation.issued'' ''issued'' [] [] [])
             (w\<lparr>cw_broker := b'\<rparr>)))"

definition controlConfirmation ::
  "'w control_server \<Rightarrow> control_env \<Rightarrow> control_context \<Rightarrow> confirmation_request control_body \<Rightarrow> 'w control_world \<Rightarrow>
   control_response \<times> 'w control_world" where
  "controlConfirmation s env cx body w =
     (let requestID = cx_request_id cx in
      case cw_plans w of
        None \<Rightarrow> (controlProblem requestID 503 ''confirmation_unavailable'' ''Operation plan storage is unavailable.'', w)
      | Some cache \<Rightarrow>
      case api_approval (cs_broker s) of
        None \<Rightarrow> (controlProblem requestID 503 ''confirmation_unavailable'' ''The privileged broker does not support structured confirmations.'', w)
      | Some approvalBroker \<Rightarrow>
      case decodeControl requestID (cc_body_limit (cs_cfg s)) (\<lambda>_. ''A valid confirmation request is required.'') body of
        Inl r \<Rightarrow> (r, w)
      | Inr request \<Rightarrow>
          (let planID = trimSpace (cfr_plan_id request) in
           if planID = [] \<or> length planID > 160 then
             (controlProblem requestID 400 ''invalid_plan_id'' ''plan_id is required and must match a cached plan.'', w)
           else case cachedPlan requestID (cv_cache_now env) planID cache of
             (Inl r, cache') \<Rightarrow> (r, w\<lparr>cw_plans := Some cache'\<rparr>)
           | (Inr plan, cache') \<Rightarrow> submitConfirmation approvalBroker env cx plan (w\<lparr>cw_plans := Some cache'\<rparr>)))"

definition attemptEvent :: "control_context \<Rightarrow> operation_plan \<Rightarrow> event_data" where
  "attemptEvent cx plan =
     planDecisionEvent cx plan (cx_request_id cx) ''operation.attempt'' ''attempted'' (planParametersMap plan) ''not_started'' []"

definition unknownEvent :: "control_context \<Rightarrow> operation_plan \<Rightarrow> event_data" where
  "unknownEvent cx plan =
     planDecisionEvent cx plan (cx_request_id cx) ''operation.unknown'' ''unknown'' (planParametersMap plan) ''unknown'' ''broker_transport_failed''"

definition outcomeEvent :: "control_context \<Rightarrow> operation_plan \<Rightarrow> operation_response \<Rightarrow> event_data" where
  "outcomeEvent cx plan response =
     planDecisionEvent cx plan (resp_request_id response) (''operation.'' @ resp_status response) (resp_status response) (planParametersMap plan)
       (if recoveryStatus (resp_result response) = [] then ''not_required'' else recoveryStatus (resp_result response))
       (responseErrorCode response)"

text \<open>The submission of an approved plan between its two audit records.\<close>

definition submitApproved ::
  "'w approval_api \<Rightarrow> control_env \<Rightarrow> control_context \<Rightarrow> operation_plan \<Rightarrow> string \<Rightarrow> 'w control_world \<Rightarrow> control_response \<times> 'w control_world" where
  "submitApproved approvalBroker env cx plan token w =
     (let w1 = appendAudit (cv_audit env 0) (attemptEvent cx plan) w in
      case api_execute_approved approvalBroker plan token (cx_credential cx) (cw_broker w1) of
        (Inl _, b') \<Rightarrow>
          (controlProblem (cx_request_id cx) 502 ''broker_error'' ''The privileged broker request failed after the execution attempt was submitted.'',
           appendAudit (cv_audit env 1) (unknownEvent cx plan) (w1\<lparr>cw_broker := b'\<rparr>))
      | (Inr response, b') \<Rightarrow>
          (controlWriteJSON (operationHTTPStatus (resp_status response)) (ResponsePayload response),
           appendAudit (cv_audit env 1) (outcomeEvent cx plan response) (w1\<lparr>cw_broker := b'\<rparr>)))"

definition controlApproved ::
  "'w control_server \<Rightarrow> control_env \<Rightarrow> control_context \<Rightarrow> approved_execution_request control_body \<Rightarrow> 'w control_world \<Rightarrow>
   control_response \<times> 'w control_world" where
  "controlApproved s env cx body w =
     (let requestID = cx_request_id cx in
      case cw_plans w of
        None \<Rightarrow> (controlProblem requestID 503 ''mutation_unavailable'' ''Operation plan storage is unavailable.'', w)
      | Some cache \<Rightarrow>
      case api_approval (cs_broker s) of
        None \<Rightarrow> (controlProblem requestID 503 ''mutation_unavailable'' ''The privileged broker does not support approved mutations.'', w)
      | Some approvalBroker \<Rightarrow>
      case decodeControl requestID (cc_body_limit (cs_cfg s)) (\<lambda>_. ''A valid approved execution request is required.'') body of
        Inl r \<Rightarrow> (r, w)
      | Inr request \<Rightarrow>
          (let planID = trimSpace (aer_plan_id request); token = trimSpace (aer_confirmation_token request) in
           if planID = [] \<or> length planID > 160 then
             (controlProblem requestID 400 ''invalid_plan_id'' ''plan_id is required and must match a cached plan.'', w)
           else if token = [] \<or> length token > 512 then
             (controlProblem requestID 400 ''invalid_confirmation_token'' ''A bounded confirmation token is required.'', w)
           else case cachedPlan requestID (cv_cache_now env) planID cache of
             (Inl r, cache') \<Rightarrow> (r, w\<lparr>cw_plans := Some cache'\<rparr>)
           | (Inr plan, cache') \<Rightarrow> submitApproved approvalBroker env cx plan token (w\<lparr>cw_plans := Some cache'\<rparr>)))"

definition inventoryUnavailable :: "string \<Rightarrow> control_response" where
  "inventoryUnavailable requestID =
     controlProblem requestID 500 ''inventory_unavailable'' ''The read-only component inventory could not be completed.''"

definition controlComponents :: "'w control_server \<Rightarrow> control_env \<Rightarrow> string \<Rightarrow> control_response" where
  "controlComponents s env requestID =
     (case inventorySnapshot (cs_scanner s) (cv_ctx_err env) (cv_inventory_now env) of
        Inl _ \<Rightarrow> inventoryUnavailable requestID
      | Inr snap \<Rightarrow> controlWriteJSON 200 (SnapshotPayload snap))"

definition controlComponent :: "'w control_server \<Rightarrow> control_env \<Rightarrow> string \<Rightarrow> string \<Rightarrow> control_response" where
  "controlComponent s env requestID ident =
     (case inventoryComponent (cs_scanner s) (cv_ctx_err env 0) ident (cv_inventory_now env) of
        Inl _ \<Rightarrow> inventoryUnavailable requestID
      | Inr None \<Rightarrow> controlProblem requestID 404 ''component_not_found'' ''The requested component identifier is not part of the inventory contract.''
      | Inr (Some c) \<Rightarrow> controlWriteJSON 200 (ComponentPayload c))"

subsection \<open>The routes\<close>

text \<open>The permission in front of each route; the first three have none.\<close>

definition routePermission :: "control_call \<Rightarrow> string option" where
  "routePermission call =
     (case call of
        CtlRoot \<Rightarrow> None | CtlHealth \<Rightarrow> None | CtlReady \<Rightarrow> None
      | CtlInfo \<Rightarrow> Some PermissionControlRead
      | CtlOperations \<Rightarrow> Some PermissionOperationCatalog
      | CtlPlan _ \<Rightarrow> Some PermissionOperationPlan
      | CtlExecute _ \<Rightarrow> Some PermissionOperationExecute
      | CtlApproved _ \<Rightarrow> Some PermissionOperationMutate
      | CtlSystemStatus \<Rightarrow> Some PermissionControlRead
      | CtlServiceStatus _ \<Rightarrow> Some PermissionControlRead
      | CtlAuditQuery _ _ _ \<Rightarrow> Some PermissionAuditRead
      | CtlAuditIntegrity \<Rightarrow> Some PermissionAuditRead
      | CtlConfirm _ \<Rightarrow> Some PermissionConfirm
      | CtlComponents \<Rightarrow> Some PermissionInventoryRead
      | CtlComponent _ \<Rightarrow> Some PermissionInventoryRead)"

definition openRoute :: "'w control_server \<Rightarrow> string \<Rightarrow> control_call \<Rightarrow> 'w control_world \<Rightarrow> control_response \<times> 'w control_world" where
  "openRoute s requestID call w =
     (case call of
        CtlReady \<Rightarrow> controlReady s requestID w
      | CtlHealth \<Rightarrow> (controlHealth s, w)
      | _ \<Rightarrow> (controlRoot s, w))"

definition guardedRoute ::
  "'w control_server \<Rightarrow> control_env \<Rightarrow> control_call \<Rightarrow> control_context \<Rightarrow> 'w control_world \<Rightarrow> control_response \<times> 'w control_world" where
  "guardedRoute s env call cx w =
     (case call of
        CtlInfo \<Rightarrow> (controlInfo s w, w)
      | CtlOperations \<Rightarrow> controlOperations s cx w
      | CtlPlan body \<Rightarrow> controlPlan s env cx body w
      | CtlExecute body \<Rightarrow> controlExecute s env cx body w
      | CtlApproved body \<Rightarrow> controlApproved s env cx body w
      | CtlSystemStatus \<Rightarrow> controlSystemStatus s cx w
      | CtlServiceStatus unit \<Rightarrow> controlServiceStatus s cx unit w
      | CtlAuditQuery limit actor action \<Rightarrow> (controlAuditQuery (cx_request_id cx) limit actor action w, w)
      | CtlAuditIntegrity \<Rightarrow> (controlAuditIntegrity w, w)
      | CtlConfirm body \<Rightarrow> controlConfirmation s env cx body w
      | CtlComponents \<Rightarrow> (controlComponents s env (cx_request_id cx), w)
      | CtlComponent ident \<Rightarrow> (controlComponent s env (cx_request_id cx) ident, w)
      | _ \<Rightarrow> (controlRoot s, w))"

text \<open>\<^verbatim>\<open>withRequestID\<close> around the routes.\<close>

definition serveControl ::
  "'w control_server \<Rightarrow> control_env \<Rightarrow> control_request \<Rightarrow> 'w control_world \<Rightarrow> control_response \<times> 'w control_world" where
  "serveControl s env req w =
     (let requestID = newRequestID env in
      case (case routePermission (cq_call req) of
              None \<Rightarrow> openRoute s requestID (cq_call req) w
            | Some permission \<Rightarrow> requirePermission s requestID permission req (guardedRoute s env (cq_call req)) w) of
        (r, w') \<Rightarrow> (r\<lparr>ct_headers := (''X-Quantum-Request-ID'', requestID) # ct_headers r\<rparr>, w'))"

subsection \<open>What a request may ask of the broker\<close>

text \<open>
  The calls an authenticated actor may cause by a route, given the plans that are cached and not expired. The request the
  broker sees names the authenticated actor and carries no confirmation.
\<close>

definition vouched :: "actor \<Rightarrow> operation_request \<Rightarrow> bool" where
  "vouched a request \<longleftrightarrow> req_actor request = actor_id a \<and> req_confirmation request = []"

inductive broker_use :: "'w broker_api \<Rightarrow> (string \<rightharpoonup> operation_plan) \<Rightarrow> control_call \<Rightarrow> actor \<Rightarrow> string \<Rightarrow> 'w \<Rightarrow> 'w \<Rightarrow> bool"
  for api plans call a credential w where
  use_catalog: "call = CtlOperations \<Longrightarrow> hasPermission a PermissionOperationCatalog \<Longrightarrow>
    broker_use api plans call a credential w (snd (api_catalog api w))"
| use_plan: "call = CtlPlan body \<Longrightarrow> hasPermission a PermissionOperationPlan \<Longrightarrow> vouched a r \<Longrightarrow>
    broker_use api plans call a credential w (snd (api_plan api r w))"
| use_execute: "call = CtlExecute body \<Longrightarrow> hasPermission a PermissionOperationExecute \<Longrightarrow> vouched a r \<Longrightarrow>
    broker_use api plans call a credential w (snd (api_execute api r w))"
| use_status: "call = CtlSystemStatus \<and> req_action r = ''system.snapshot'' \<or> call = CtlServiceStatus unit \<and> req_action r = ''service.status'' \<Longrightarrow>
    hasPermission a PermissionControlRead \<Longrightarrow> vouched a r \<Longrightarrow> broker_use api plans call a credential w (snd (api_execute api r w))"
| use_confirm: "call = CtlConfirm cbody \<Longrightarrow> hasPermission a PermissionConfirm \<Longrightarrow> api_approval api = Some approval \<Longrightarrow> plans i = Some plan \<Longrightarrow>
    broker_use api plans call a credential w (snd (api_confirm approval plan credential w))"
| use_approved: "call = CtlApproved abody \<Longrightarrow> hasPermission a PermissionOperationMutate \<Longrightarrow> api_approval api = Some approval \<Longrightarrow> plans i = Some plan \<Longrightarrow>
    token \<noteq> [] \<Longrightarrow> length token \<le> 512 \<Longrightarrow>
    broker_use api plans call a credential w (snd (api_execute_approved approval plan token credential w))"

definition livePlans :: "gotime \<Rightarrow> 'w control_world \<Rightarrow> string \<rightharpoonup> operation_plan" where
  "livePlans now w = (case cw_plans w of None \<Rightarrow> Map.empty | Some cache \<Rightarrow> map_of (purgeExpired now cache))"

lemma appendAudit_frame [simp]:
  "cw_broker (appendAudit env ev w) = cw_broker w" "cw_plans (appendAudit env ev w) = cw_plans w"
  by (simp_all add: appendAudit_def split: option.split prod.split)

lemma vouched_prepare: "vouched (cx_actor cx) (prepareRequest cx request)"
  by (simp add: vouched_def prepareRequest_def)

lemma cachedPlan_result:
  assumes "cachedPlan requestID now planID cache = (r, cache')"
  shows "cache' = purgeExpired now cache" "r = Inr plan \<Longrightarrow> map_of (purgeExpired now cache) planID = Some plan"
  using assms by (auto simp: cachedPlan_def cacheGet_def Let_def split: option.splits)

lemma broker_use_plan:
  assumes "hasPermission (cx_actor cx) PermissionOperationPlan" "controlPlan s env cx body w = (r, w')"
  shows "cw_broker w' = cw_broker w \<or> broker_use (cs_broker s) (livePlans (cv_cache_now env) w) (CtlPlan body) (cx_actor cx) (cx_credential cx) (cw_broker w) (cw_broker w')"
proof (cases "decodeOperation s (cx_request_id cx) body")
  case (Inr request)
  let ?call = "api_plan (cs_broker s) (prepareRequest cx request) (cw_broker w)"
  from Inr assms(2) have "cw_broker w' = snd ?call"
    by (auto simp: controlPlan_def split: sum.splits prod.splits)
  with use_plan [OF refl assms(1) vouched_prepare] show ?thesis by metis
qed (use assms in \<open>auto simp: controlPlan_def\<close>)

lemma broker_use_execute:
  assumes "hasPermission (cx_actor cx) PermissionOperationExecute" "controlExecute s env cx body w = (r, w')"
  shows "cw_broker w' = cw_broker w \<or> broker_use (cs_broker s) plans (CtlExecute body) (cx_actor cx) (cx_credential cx) (cw_broker w) (cw_broker w')"
proof (cases "decodeOperation s (cx_request_id cx) body")
  case (Inr request)
  let ?call = "api_execute (cs_broker s) (prepareRequest cx request) (cw_broker w)"
  from Inr assms(2) have "cw_broker w' = snd ?call"
    by (auto simp: controlExecute_def Let_def split: sum.splits prod.splits)
  with use_execute [OF refl assms(1) vouched_prepare] show ?thesis by metis
qed (use assms in \<open>auto simp: controlExecute_def\<close>)

lemma broker_use_status:
  assumes "hasPermission (cx_actor cx) PermissionControlRead" "vouched (cx_actor cx) request"
    "call = CtlSystemStatus \<and> req_action request = ''system.snapshot'' \<or> call = CtlServiceStatus unit \<and> req_action request = ''service.status''"
    "controlStatus s cx request w = (r, w')"
  shows "broker_use (cs_broker s) plans call (cx_actor cx) (cx_credential cx) (cw_broker w) (cw_broker w')"
proof -
  from assms(4) have "cw_broker w' = snd (api_execute (cs_broker s) request (cw_broker w))"
    by (auto simp: controlStatus_def split: sum.splits prod.splits)
  with use_status [OF assms(3,1,2)] show ?thesis by metis
qed

lemma broker_use_catalog:
  assumes "hasPermission (cx_actor cx) PermissionOperationCatalog" "controlOperations s cx w = (r, w')"
  shows "broker_use (cs_broker s) plans CtlOperations (cx_actor cx) (cx_credential cx) (cw_broker w) (cw_broker w')"
proof -
  from assms(2) have "cw_broker w' = snd (api_catalog (cs_broker s) (cw_broker w))"
    by (auto simp: controlOperations_def split: sum.splits prod.splits)
  with use_catalog [OF refl assms(1)] show ?thesis by metis
qed

text \<open>The world after a plan was looked up.\<close>

definition purged :: "control_env \<Rightarrow> 'w control_world \<Rightarrow> 'w control_world" where
  "purged env w = w\<lparr>cw_plans := map_option (purgeExpired (cv_cache_now env)) (cw_plans w)\<rparr>"

lemma purged_simps [simp]:
  "cw_broker (purged env w) = cw_broker w" "cw_audit (purged env w) = cw_audit w"
  "cw_plans w = Some cache \<Longrightarrow> purged env w = w\<lparr>cw_plans := Some (purgeExpired (cv_cache_now env) cache)\<rparr>"
  by (simp_all add: purged_def)

lemma controlConfirmation_cases:
  assumes "controlConfirmation s env cx body w = (r, w')"
  obtains (Refused) "w' = w \<or> w' = purged env w"
  | (Submitted) approval i plan where "api_approval (cs_broker s) = Some approval" "livePlans (cv_cache_now env) w i = Some plan"
      "submitConfirmation approval env cx plan (purged env w) = (r, w')"
proof (cases "cw_plans w = None \<or> api_approval (cs_broker s) = None")
  case True
  with assms show thesis by (intro Refused) (auto simp: controlConfirmation_def Let_def split: option.splits)
next
  case False
  then obtain cache approval where c: "cw_plans w = Some cache" and a: "api_approval (cs_broker s) = Some approval" by auto
  show thesis
  proof (cases "decodeControl (cx_request_id cx) (cc_body_limit (cs_cfg s)) (\<lambda>_. ''A valid confirmation request is required.'') body")
    case (Inl e)
    with c a assms show thesis by (intro Refused) (simp add: controlConfirmation_def Let_def)
  next
    case (Inr request)
    let ?id = "trimSpace (cfr_plan_id request)"
    obtain pr cache' where look: "cachedPlan (cx_request_id cx) (cv_cache_now env) ?id cache = (pr, cache')" by fastforce
    note found = cachedPlan_result [OF look]
    show thesis
    proof (cases "?id = [] \<or> length ?id > 160")
      case True
      with c a Inr assms show thesis by (intro Refused) (simp add: controlConfirmation_def Let_def)
    next
      case False
      with c a Inr assms look found show thesis
        by (cases pr) (auto simp: controlConfirmation_def Let_def livePlans_def intro: Refused Submitted)
    qed
  qed
qed

lemma controlApproved_cases:
  assumes "controlApproved s env cx body w = (r, w')"
  obtains (Refused) "w' = w \<or> w' = purged env w"
  | (Submitted) approval i plan token where "api_approval (cs_broker s) = Some approval" "livePlans (cv_cache_now env) w i = Some plan"
      "token \<noteq> []" "length token \<le> 512" "submitApproved approval env cx plan token (purged env w) = (r, w')"
proof (cases "cw_plans w = None \<or> api_approval (cs_broker s) = None")
  case True
  with assms show thesis by (intro Refused) (auto simp: controlApproved_def Let_def split: option.splits)
next
  case False
  then obtain cache approval where c: "cw_plans w = Some cache" and a: "api_approval (cs_broker s) = Some approval" by auto
  show thesis
  proof (cases "decodeControl (cx_request_id cx) (cc_body_limit (cs_cfg s)) (\<lambda>_. ''A valid approved execution request is required.'') body")
    case (Inl e)
    with c a assms show thesis by (intro Refused) (simp add: controlApproved_def Let_def)
  next
    case (Inr request)
    let ?id = "trimSpace (aer_plan_id request)" and ?token = "trimSpace (aer_confirmation_token request)"
    obtain pr cache' where look: "cachedPlan (cx_request_id cx) (cv_cache_now env) ?id cache = (pr, cache')" by fastforce
    note found = cachedPlan_result [OF look]
    show thesis
    proof (cases "(?id = [] \<or> length ?id > 160) \<or> (?token = [] \<or> length ?token > 512)")
      case True
      with c a Inr assms show thesis by (intro Refused) (auto simp: controlApproved_def Let_def split: if_splits)
    next
      case False
      with c a Inr assms look found show thesis
        by (cases pr) (auto simp: controlApproved_def Let_def livePlans_def intro: Refused Submitted)
    qed
  qed
qed

lemma submit_broker:
  "submitApproved approval env cx plan token w = (r, w') \<Longrightarrow>
     cw_broker w' = snd (api_execute_approved approval plan token (cx_credential cx) (cw_broker w))"
  "submitConfirmation approval env cx plan w = (r, w') \<Longrightarrow>
     cw_broker w' = snd (api_confirm approval plan (cx_credential cx) (cw_broker w))"
  by (auto simp: submitApproved_def submitConfirmation_def Let_def split: sum.splits prod.splits)

lemma guardedRoute_use:
  assumes "routePermission call = Some permission" "hasPermission (cx_actor cx) permission" "guardedRoute s env call cx w = (r, w')"
  shows "cw_broker w' = cw_broker w \<or>
    broker_use (cs_broker s) (livePlans (cv_cache_now env) w) call (cx_actor cx) (cx_credential cx) (cw_broker w) (cw_broker w')"
proof (cases call)
  case CtlOperations
  with assms show ?thesis using broker_use_catalog by (fastforce simp: routePermission_def guardedRoute_def)
next
  case CtlPlan
  with assms show ?thesis using broker_use_plan by (fastforce simp: routePermission_def guardedRoute_def)
next
  case CtlExecute
  with assms show ?thesis using broker_use_execute by (fastforce simp: routePermission_def guardedRoute_def)
next
  case CtlSystemStatus
  with assms show ?thesis
    by (intro disjI2, intro broker_use_status) (simp_all add: routePermission_def guardedRoute_def controlSystemStatus_def vouched_def)
next
  case (CtlServiceStatus u)
  with assms show ?thesis
    by (intro disjI2, intro broker_use_status) (simp_all add: routePermission_def guardedRoute_def controlServiceStatus_def vouched_def)
next
  case (CtlConfirm body)
  with assms have p: "hasPermission (cx_actor cx) PermissionConfirm" and c: "controlConfirmation s env cx body w = (r, w')"
    by (simp_all add: routePermission_def guardedRoute_def)
  from c show ?thesis
  proof (cases rule: controlConfirmation_cases)
    case (Submitted approval i plan)
    from use_confirm [where plans = "livePlans (cv_cache_now env) w", OF CtlConfirm p Submitted(1,2)] submit_broker(2) [OF Submitted(3)]
    show ?thesis by simp
  qed auto
next
  case (CtlApproved body)
  with assms have p: "hasPermission (cx_actor cx) PermissionOperationMutate" and c: "controlApproved s env cx body w = (r, w')"
    by (simp_all add: routePermission_def guardedRoute_def)
  from c show ?thesis
  proof (cases rule: controlApproved_cases)
    case (Submitted approval i plan token)
    from use_approved [where plans = "livePlans (cv_cache_now env) w", OF CtlApproved p Submitted(1-4)] submit_broker(1) [OF Submitted(5)]
    show ?thesis by simp
  qed auto
qed (use assms in \<open>simp_all add: routePermission_def guardedRoute_def\<close>)

lemma requirePermission_cases:
  assumes "requirePermission s rid permission req next w = (r, w')"
  obtains (Refused) "w' = w"
  | (Passed) a credential session where "authenticateRequest s (cq_authorization req) = Some (a, credential)" "hasPermission a permission"
      "next \<lparr>cx_request_id = rid, cx_actor = a, cx_session_id = session, cx_credential = credential\<rparr> w = (r, w')"
  using assms by (simp add: requirePermission_def Let_def split: option.splits prod.splits if_splits)

lemma serveControl_cases:
  assumes "serveControl s env req w = (r, w')"
  obtains (Refused) "w' = w"
  | (Ready) "cq_call req = CtlReady" "w' = w\<lparr>cw_broker := snd (api_health (cs_broker s) (cw_broker w))\<rparr>"
  | (Routed) a credential session permission r0 where "authenticateRequest s (cq_authorization req) = Some (a, credential)"
      "routePermission (cq_call req) = Some permission" "hasPermission a permission"
      "guardedRoute s env (cq_call req)
         \<lparr>cx_request_id = newRequestID env, cx_actor = a, cx_session_id = session, cx_credential = credential\<rparr> w = (r0, w')"
proof (cases "routePermission (cq_call req)")
  case None
  with assms show thesis
    by (auto simp: serveControl_def Let_def openRoute_def controlReady_def routePermission_def intro: Refused Ready
        split: control_call.splits prod.splits option.splits if_splits)
next
  case (Some permission)
  with assms obtain r0 where "requirePermission s (newRequestID env) permission req (guardedRoute s env (cq_call req)) w = (r0, w')"
    by (auto simp: serveControl_def Let_def split: prod.splits)
  then show thesis by (cases rule: requirePermission_cases) (use Some in \<open>auto intro: Refused Routed\<close>)
qed

text \<open>
  C6. The public service asks the broker only for what the authenticated actor may do. Handling a request leaves the
  broker alone, or is the readiness probe, or makes exactly one call, the one of its route, and then the request authenticated an actor who holds the
  permission of that call; an operation request that is passed on names this actor and carries no confirmation,
  whatever the body claimed; a plan that is passed on for confirmation or execution is one that this service built, cached and
  has not seen expire; and the credential passed on is the one that authenticated the actor.
\<close>

theorem control_forwards_only_authorised:
  "let b' = cw_broker (snd (serveControl s env req w)) in
     b' = cw_broker w \<or>
     cq_call req = CtlReady \<and> b' = snd (api_health (cs_broker s) (cw_broker w)) \<or>
     (\<exists>a credential. authenticateRequest s (cq_authorization req) = Some (a, credential) \<and>
        broker_use (cs_broker s) (livePlans (cv_cache_now env) w) (cq_call req) a credential (cw_broker w) b')"
proof (cases "serveControl s env req w")
  case (Pair r w')
  then show ?thesis
  proof (cases rule: serveControl_cases)
    case (Routed a credential session permission r0)
    with Pair guardedRoute_use [OF Routed(2) _ Routed(4)] show ?thesis by auto
  qed (simp_all add: Pair)
qed

subsection \<open>The state of the service\<close>

definition cached_ok :: "'w control_server \<Rightarrow> operation_plan \<Rightarrow> bool" where
  "cached_ok s p \<longleftrightarrow> verifyPlanDigest p \<and> hasPermission (plan_actor p) PermissionOperationPlan \<and>
     plan_expires_at p = plan_created_at p + (if cs_plan_ttl s \<le> 0 then 5 * minute else cs_plan_ttl s)"

definition plans_ok :: "'w control_server \<Rightarrow> plan_cache \<Rightarrow> bool" where
  "plans_ok s cache \<longleftrightarrow> cache_ok cache \<and> (\<forall>i p. map_of cache i = Some p \<longrightarrow> plan_id p = i \<and> cached_ok s p)"

definition control_inv :: "'w control_server \<Rightarrow> 'w control_world \<Rightarrow> bool" where
  "control_inv s w \<longleftrightarrow> (\<forall>cache. cw_plans w = Some cache \<longrightarrow> plans_ok s cache) \<and>
     (\<forall>store file. cw_audit w = Some (store, file) \<longrightarrow> store_ok store)"

definition audited :: "'w control_world \<Rightarrow> audit_record list" where
  "audited w = (case cw_audit w of None \<Rightarrow> [] | Some (store, _) \<Rightarrow> as_records store)"

definition keeps :: "'w control_server \<Rightarrow> 'w control_world \<Rightarrow> 'w control_world \<Rightarrow> bool" where
  "keeps s w w' \<longleftrightarrow> (control_inv s w \<longrightarrow> control_inv s w') \<and> prefix (audited w) (audited w')"

lemma keeps_refl [simp, intro]: "keeps s w w"
  by (simp add: keeps_def)

lemma keeps_trans: "keeps s w w1 \<Longrightarrow> keeps s w1 w2 \<Longrightarrow> keeps s w w2"
  by (auto simp: keeps_def)

lemma keeps_broker [intro]: "keeps s w (w\<lparr>cw_broker := b\<rparr>)"
  by (simp add: keeps_def control_inv_def audited_def)

lemma keeps_audit [intro]: "keeps s w (appendAudit env ev w)"
proof (cases "cw_audit w")
  case (Some sf)
  obtain store af where sf: "sf = (store, af)" by fastforce
  obtain res store' af' where a: "appendEvent env ev store af = (res, store', af')" by (metis prod_cases3)
  then have "store_ok store \<Longrightarrow> store_ok store'" by (rule store_ok_append [rotated])
  moreover from a have "prefix (as_records store) (as_records store')"
    by (cases rule: appendEvent_cases) (simp_all add: pushRecord_def)
  ultimately show ?thesis using Some sf a by (simp add: keeps_def control_inv_def audited_def appendAudit_def)
qed (simp add: appendAudit_def)

lemma plans_ok_purge: "plans_ok s c \<Longrightarrow> plans_ok s (purgeExpired t c)"
  by (auto simp: plans_ok_def cache_ok_purge map_of_purgeExpired split: option.splits if_splits)

lemma plans_ok_put: "plans_ok s c \<Longrightarrow> cached_ok s p \<Longrightarrow> plans_ok s (cachePut t p c)"
  using plans_ok_purge [of s c t] cache_ok_put [of c t p] by (auto simp: plans_ok_def cachePut_def)

lemma keeps_purged [intro]: "keeps s w (purged env w)"
  by (auto simp: keeps_def control_inv_def audited_def purged_def plans_ok_purge)

lemma built_cached_ok:
  assumes "buildPlan (cs_plan_ttl s) now rnd a sid bp = Inr p" "hasPermission a PermissionOperationPlan"
  shows "cached_ok s p"
  using assms buildPlan_verifies [OF assms(1)] by (auto simp: cached_ok_def buildPlan_Inr Let_def)

lemma keeps_plan:
  assumes "hasPermission (cx_actor cx) PermissionOperationPlan" "controlPlan s env cx body w = (r, w')"
  shows "keeps s w w'"
proof -
  have put: "keeps s w (w\<lparr>cw_broker := b, cw_plans := map_option (cachePut t p) (cw_plans w)\<rparr>)" if "cached_ok s p" for b t p
    using that by (auto simp: keeps_def control_inv_def audited_def plans_ok_put)
  from assms(2) consider "w' = w" | b where "w' = w\<lparr>cw_broker := b\<rparr>"
    | b t p sid bp now rnd ev aenv where "buildPlan (cs_plan_ttl s) now rnd (cx_actor cx) sid bp = Inr p"
        "w' = appendAudit aenv ev (w\<lparr>cw_broker := b, cw_plans := map_option (cachePut t p) (cw_plans w)\<rparr>)"
    by (auto simp: controlPlan_def split: sum.splits prod.splits)
  then show ?thesis
  proof cases
    case 3
    from built_cached_ok [OF 3(1) assms(1)] 3(2) show ?thesis using keeps_trans [OF put keeps_audit] by blast
  qed auto
qed

lemma keeps_submit:
  "submitApproved approval env cx plan token w = (r, w') \<Longrightarrow> keeps s w w'"
  "submitConfirmation approval env cx plan w = (r, w') \<Longrightarrow> keeps s w w'"
  by (auto simp: submitApproved_def submitConfirmation_def Let_def split: sum.splits prod.splits
      intro: keeps_trans [OF keeps_audit keeps_trans [OF keeps_broker keeps_audit]] keeps_trans [OF keeps_broker keeps_audit])

lemma keeps_execute: "controlExecute s env cx body w = (r, w') \<Longrightarrow> keeps s w w'"
  by (auto simp: controlExecute_def Let_def split: sum.splits prod.splits intro: keeps_trans [OF keeps_broker keeps_audit])

lemma keeps_status: "controlStatus s cx request w = (r, w') \<Longrightarrow> keeps s w w'" "controlOperations s cx w = (r, w') \<Longrightarrow> keeps s w w'"
  by (auto simp: controlStatus_def controlOperations_def split: sum.splits prod.splits)

lemma keeps_guarded:
  assumes "routePermission call = Some permission" "hasPermission (cx_actor cx) permission" "guardedRoute s env call cx w = (r, w')"
  shows "keeps s w w'"
proof (cases call)
  case CtlPlan
  with assms keeps_plan show ?thesis by (fastforce simp: routePermission_def guardedRoute_def)
next
  case (CtlConfirm body)
  with assms have "controlConfirmation s env cx body w = (r, w')" by (simp add: guardedRoute_def)
  then show ?thesis by (cases rule: controlConfirmation_cases) (auto intro: keeps_trans [OF keeps_purged keeps_submit(2)])
next
  case (CtlApproved body)
  with assms have "controlApproved s env cx body w = (r, w')" by (simp add: guardedRoute_def)
  then show ?thesis by (cases rule: controlApproved_cases) (auto intro: keeps_trans [OF keeps_purged keeps_submit(1)])
qed (use assms(3) in \<open>auto simp: guardedRoute_def controlSystemStatus_def controlServiceStatus_def intro: keeps_execute keeps_status\<close>)

lemma loadSecurityDependencies_Inr:
  assumes "loadSecurityDependencies cfg actors af = Inr deps"
  obtains store where "openAuditStore (cc_audit_path cfg) af = Inr store" "sd_audit deps = Some (store, af)"
    "sd_plans deps = Some newPlanCache" "sd_plan_ttl deps = cc_plan_ttl cfg"
  using assms
  by (cases "openAuditStore (cc_audit_path cfg) af") (auto simp: loadSecurityDependencies_def bindE_Inr Let_def)

text \<open>
  C8. The state of the public service stays sound. Dependencies that load give a state in which the audit store is a
  verified chain and no plan is cached; every request preserves that each cached plan is stored under its own ID, verifies its digest, was requested
  by an actor with the permission to plan and lives exactly as long as configured, and that the audit store is a
  verified chain; and a request never removes or rewrites an audit record that is already in the store.
\<close>

theorem control_state_invariant:
  assumes "loadSecurityDependencies cfg actors af = Inr deps" "newServerWithSecurity api cfg scanner build deps b = (s, w0)"
    and "serveControl s env req w = (r, w')"
  shows "control_inv s w0 \<and> cs_plan_ttl s = (if cc_plan_ttl cfg \<le> 0 then 5 * minute else cc_plan_ttl cfg) \<and>
    (control_inv s w \<longrightarrow> control_inv s w') \<and> prefix (audited w) (audited w')"
proof -
  from assms(1) obtain store where "openAuditStore (cc_audit_path cfg) af = Inr store" "sd_audit deps = Some (store, af)"
    "sd_plans deps = Some newPlanCache" "sd_plan_ttl deps = cc_plan_ttl cfg"
    by (rule loadSecurityDependencies_Inr)
  with assms(2) have "control_inv s w0" "cs_plan_ttl s = (if cc_plan_ttl cfg \<le> 0 then 5 * minute else cc_plan_ttl cfg)"
    by (auto simp: newServerWithSecurity_def control_inv_def plans_ok_def cache_ok_def newPlanCache_def openAuditStore_ok)
  moreover from assms(3) have "keeps s w w'"
  proof (cases rule: serveControl_cases)
    case (Routed a credential session permission r0)
    with keeps_guarded [OF Routed(2) _ Routed(4)] show ?thesis by simp
  qed auto
  ultimately show ?thesis by (simp add: keeps_def)
qed

subsection \<open>Auditing\<close>

lemma appendAudit_fails: "aenv_fault env \<noteq> None \<Longrightarrow> audited (appendAudit env ev w) = audited w"
  by (auto simp: appendAudit_def audited_def appendEvent_def Let_def split: option.splits prod.splits if_splits)

lemma submitApproved_unaudited:
  assumes "aenv_fault (cv_audit env 0) \<noteq> None" "aenv_fault (cv_audit env 1) \<noteq> None" "submitApproved approval env cx plan token w = (r, w')"
  shows "audited w' = audited w"
proof -
  have "audited (w\<lparr>cw_broker := b\<rparr>) = audited w" for b and w :: "'a control_world" by (simp add: audited_def)
  with assms show ?thesis
    by (auto simp: submitApproved_def Let_def appendAudit_fails split: sum.splits prod.splits)
qed

text \<open>An approved execution that passes the checks of the service.\<close>

definition accepts_approved ::
  "'w control_server \<Rightarrow> control_env \<Rightarrow> control_request \<Rightarrow> 'w control_world \<Rightarrow> 'w approval_api \<Rightarrow> operation_plan \<Rightarrow> string \<Rightarrow> string \<Rightarrow> bool" where
  "accepts_approved s env req w approval plan token credential \<longleftrightarrow>
     (\<exists>a body request i. authenticateRequest s (cq_authorization req) = Some (a, credential) \<and>
        hasPermission a PermissionOperationMutate \<and> trimSpace (cq_session_id req) = [] \<and>
        cq_call req = CtlApproved body \<and> cb_decode body (cc_body_limit (cs_cfg s)) = Decoded request \<and>
        cb_length body \<le> cc_body_limit (cs_cfg s) \<and> cb_only body \<and> api_approval (cs_broker s) = Some approval \<and>
        i = trimSpace (aer_plan_id request) \<and> i \<noteq> [] \<and> length i \<le> 160 \<and>
        token = trimSpace (aer_confirmation_token request) \<and> token \<noteq> [] \<and> length token \<le> 512 \<and>
        livePlans (cv_cache_now env) w i = Some plan)"

lemma accepted_submits:
  assumes "accepts_approved s env req w approval plan token credential"
  shows "\<exists>cx r0. cx_credential cx = credential \<and> submitApproved approval env cx plan token (purged env w) = (r0, snd (serveControl s env req w))"
proof -
  from assms obtain a body request i where auth: "authenticateRequest s (cq_authorization req) = Some (a, credential)"
      "hasPermission a PermissionOperationMutate" "trimSpace (cq_session_id req) = []" and call: "cq_call req = CtlApproved body"
    and dec: "cb_decode body (cc_body_limit (cs_cfg s)) = Decoded request" "cb_length body \<le> cc_body_limit (cs_cfg s)" "cb_only body"
    and api: "api_approval (cs_broker s) = Some approval"
    and i: "i = trimSpace (aer_plan_id request)" "i \<noteq> []" "length i \<le> 160"
    and token: "token = trimSpace (aer_confirmation_token request)" "token \<noteq> []" "length token \<le> 512"
    and live: "livePlans (cv_cache_now env) w i = Some plan"
    unfolding accepts_approved_def by blast
  from live obtain cache where cache: "cw_plans w = Some cache" "map_of (purgeExpired (cv_cache_now env) cache) i = Some plan"
    by (auto simp: livePlans_def split: option.splits)
  then have look: "cachedPlan rid (cv_cache_now env) i cache = (Inr plan, purgeExpired (cv_cache_now env) cache)" for rid
    by (simp add: cachedPlan_def cacheGet_eq)
  let ?cx = "\<lparr>cx_request_id = newRequestID env, cx_actor = a, cx_session_id = ''session-'' @ newRequestID env, cx_credential = credential\<rparr>"
  have "controlApproved s env ?cx body w = submitApproved approval env ?cx plan token (purged env w)"
    using dec api i token cache(1) look by (simp add: controlApproved_def decodeControl_def Let_def)
  moreover have "snd (serveControl s env req w) = snd (controlApproved s env ?cx body w)"
    using auth call
    by (simp add: serveControl_def routePermission_def requirePermission_def guardedRoute_def Let_def split: prod.split)
  ultimately show ?thesis by (intro exI [of _ ?cx]) (simp add: prod_eq_iff)
qed

text \<open>
  C30. A failing audit store does not stop a mutation. When an approved execution passes the checks of the public service while every
  write to the audit store fails, the plan is submitted to the broker with the confirmation token all the same, and neither the
  attempt nor its outcome is recorded.
\<close>

theorem unaudited_execution:
  assumes "accepts_approved s env req w approval plan token credential" "\<And>k. aenv_fault (cv_audit env k) \<noteq> None"
  shows "cw_broker (snd (serveControl s env req w)) = snd (api_execute_approved approval plan token credential (cw_broker w)) \<and>
    audited (snd (serveControl s env req w)) = audited w"
proof -
  from accepted_submits [OF assms(1)] obtain cx r0 where cx: "cx_credential cx = credential"
    and sub: "submitApproved approval env cx plan token (purged env w) = (r0, snd (serveControl s env req w))" by blast
  have "audited (purged env w) = audited w" by (simp add: audited_def purged_def)
  with submitApproved_unaudited [OF assms(2) assms(2) sub] submit_broker(1) [OF sub] cx show ?thesis by simp
qed

subsection \<open>Examples\<close>

text \<open>A broker that counts the calls it gets.\<close>

definition countingApproval :: "nat approval_api" where
  "countingApproval = \<lparr>api_confirm = (\<lambda>_ _ n. (Inl BrokerRequest, n + 1)), api_execute_approved = (\<lambda>_ _ _ n. (Inl BrokerRequest, n + 1))\<rparr>"

definition countingBroker :: "nat broker_api" where
  "countingBroker = \<lparr>api_health = (\<lambda>n. (None, n)), api_catalog = (\<lambda>n. (Inr [], n)), api_plan = (\<lambda>_ n. (Inr exampleBrokerPlan, n + 1)),
     api_execute = (\<lambda>_ n. (Inl BrokerRequest, n + 1)), api_approval = Some countingApproval\<rparr>"

definition exampleScanner :: inv_service where
  "exampleScanner = newScanner \<lparr>se_stat = (\<lambda>_. StatMissing), se_open = (\<lambda>_. None), se_look_path = (\<lambda>_. None),
     se_combined_output = (\<lambda>_. None), se_output = (\<lambda>_. None), se_glob = (\<lambda>_. Some [])\<rparr> None"

definition exampleControlEnv :: control_env where
  "exampleControlEnv = \<lparr>cv_request_id = Some ''abcdefghijkl'', cv_now = exampleNow, cv_plan_now = exampleNow,
     cv_plan_id = Some ''0123456789abcdef'', cv_cache_now = exampleNow, cv_audit = (\<lambda>_. exampleAuditEnv\<lparr>aenv_fault := Some AuditOpen\<rparr>),
     cv_ctx_err = (\<lambda>_. None), cv_inventory_now = exampleNow\<rparr>"

definition exampleServer :: "nat control_server" where
  "exampleServer = fst (newServerWithSecurity countingBroker demoControl exampleScanner (''v1'', ''c'', ''t'')
     \<lparr>sd_authenticator = Some (RegistryAuthenticator (Some [\<lparr>cred_actor = demoExecutor, token_sha256 = hexEncode (sha256 ''secret'')\<rparr>])),
      sd_audit = Some (emptyAuditStore, NoAuditFile), sd_plans = None, sd_plan_ttl = 0\<rparr> 0)"

definition exampleWorld :: "nat control_world" where
  "exampleWorld = \<lparr>cw_plans = Some [(plan_id examplePlan, examplePlan)], cw_audit = Some (emptyAuditStore, NoAuditFile), cw_broker = 0\<rparr>"

definition exampleApprovedRequest :: control_request where
  "exampleApprovedRequest = \<lparr>cq_authorization = ''Bearer secret'', cq_session_id = [],
     cq_call = CtlApproved \<lparr>cb_length = 90,
       cb_decode = (\<lambda>_. Decoded \<lparr>aer_plan_id = ''plan-30313233343536373839616263646566'', aer_confirmation_token = ''token''\<rparr>), cb_only = True\<rparr>\<rparr>"

lemma exampleServer_sel [simp]:
  "cs_broker exampleServer = countingBroker" "cs_cfg exampleServer = demoControl" "api_approval countingBroker = Some countingApproval"
  by (simp_all add: exampleServer_def newServerWithSecurity_def countingBroker_def)

lemma example_auth: "authenticateRequest exampleServer ''Bearer secret'' = Some (demoExecutor, ''secret'')"
proof -
  have "prefix ''Bearer '' ''Bearer secret''" "trimPrefix ''Bearer secret'' ''Bearer '' = ''secret''" by code_simp+
  then show ?thesis using demo_trims
    by (simp add: authenticateRequest_def exampleServer_def newServerWithSecurity_def)
qed

lemma example_accepted:
  "accepts_approved exampleServer exampleControlEnv exampleApprovedRequest exampleWorld countingApproval examplePlan ''token'' ''secret''"
proof -
  have t: "trimSpace ''token'' = ''token''" "trimSpace ''plan-30313233343536373839616263646566'' = ''plan-30313233343536373839616263646566''"
    by code_simp+
  have "hasPermission demoExecutor PermissionOperationMutate" using demoExecutor_mutates by (simp add: mayMutate_def)
  moreover have "livePlans (cv_cache_now exampleControlEnv) exampleWorld ''plan-30313233343536373839616263646566'' = Some examplePlan"
    by (simp add: livePlans_def exampleWorld_def exampleControlEnv_def purgeExpired_def minute_def)
  ultimately show ?thesis unfolding accepts_approved_def
    by (simp add: exampleApprovedRequest_def example_auth t demoControl_def defaultBodyLimit_def)
qed

theorem unaudited_execution_witness:
  "cw_broker (snd (serveControl exampleServer exampleControlEnv exampleApprovedRequest exampleWorld)) = 1 \<and>
   audited (snd (serveControl exampleServer exampleControlEnv exampleApprovedRequest exampleWorld)) = []"
  using unaudited_execution [OF example_accepted]
  by (simp add: exampleControlEnv_def countingApproval_def exampleWorld_def audited_def emptyAuditStore_def)

theorem control_state_invariant_witness:
  "\<exists>deps s w0. loadSecurityDependencies demoControl FileMissing NoAuditFile = Inr deps \<and>
     newServerWithSecurity countingBroker demoControl exampleScanner (''v1'', ''c'', ''t'') deps 0 = (s, w0) \<and>
     control_inv s w0 \<and> control_inv s (snd (serveControl s exampleControlEnv exampleApprovedRequest w0))"
proof -
  have "trimSpace defaultAuditPath \<noteq> []" by code_simp
  then obtain deps where deps: "loadSecurityDependencies demoControl FileMissing NoAuditFile = Inr deps"
    by (simp add: loadSecurityDependencies_def registryAuthenticators_def legacyAuthenticators_def bindE_def demoControl_def openAuditStore_def)
  obtain s w0 where new: "newServerWithSecurity countingBroker demoControl exampleScanner (''v1'', ''c'', ''t'') deps 0 = (s, w0)" by fastforce
  from control_state_invariant [OF deps new surjective_pairing, where env = exampleControlEnv and req = exampleApprovedRequest and w = w0] deps new
  show ?thesis by blast
qed

end
