(* ===== verification/QC_Http.thy ===== *)
theory QC_Http
  imports QC_Text
begin

text \<open>
  What both services use of \<^verbatim>\<open>net/http\<close>: the multiplexer of Go 1.23, which cleans the path of a request, matches it
  against the registered patterns (literals before wildcards before a trailing slash), redirects, or answers 405 or 404;
  and the response writer, with the \<^verbatim>\<open>statusRecorder\<close> of \<^verbatim>\<open>internal/control/server.go\<close> around it. The recorder is
  shown to change nothing and to record the status the client sees.
\<close>

subsection \<open>Paths\<close>

text \<open>\<^verbatim>\<open>url.PathUnescape\<close>, and its use by the multiplexer: a segment that is escaped wrongly stays as it is.\<close>

fun pctDecode :: "string \<Rightarrow> string option" where
  "pctDecode [] = Some []"
| "pctDecode (c # cs) =
     (if c = CHR ''%'' then
        (case cs of
           a # b # r \<Rightarrow>
             (case (fromHex a, fromHex b) of
                (Some x, Some y) \<Rightarrow> map_option ((#) (char_of (16 * x + y))) (pctDecode r)
              | _ \<Rightarrow> None)
         | _ \<Rightarrow> None)
      else map_option ((#) c) (pctDecode cs))"

definition pathUnescape :: "string \<Rightarrow> string" where
  "pathUnescape s = (case pctDecode s of None \<Rightarrow> s | Some u \<Rightarrow> u)"

text \<open>
  The segments that \<^verbatim>\<open>firstSegment\<close> takes off a path one by one. A trailing slash is a segment of its own.
\<close>

function (sequential) segmentsOf :: "string \<Rightarrow> string list" where
  "segmentsOf [] = []"
| "segmentsOf [c] = (if c = CHR ''/'' then [''/''] else [[]])"
| "segmentsOf (c # p) = pathUnescape (takeWhile (\<lambda>x. x \<noteq> CHR ''/'') p) # segmentsOf (dropWhile (\<lambda>x. x \<noteq> CHR ''/'') p)"
  by pat_completeness auto
termination
  by (relation "measure length") (auto simp: less_Suc_eq_le length_dropWhile_le le_SucI)

text \<open>\<^verbatim>\<open>path.Clean\<close> on a rooted path, and \<^verbatim>\<open>cleanPath\<close>, which keeps a trailing slash.\<close>

fun splitSlash :: "string \<Rightarrow> string list" where
  "splitSlash [] = [[]]"
| "splitSlash (c # cs) =
     (if c = CHR ''/'' then [] # splitSlash cs
      else (case splitSlash cs of [] \<Rightarrow> [[c]] | s # ss \<Rightarrow> (c # s) # ss))"

fun cleanSegs :: "string list \<Rightarrow> string list \<Rightarrow> string list" where
  "cleanSegs [] st = st"
| "cleanSegs (s # ss) st =
     cleanSegs ss (if s = [] \<or> s = ''.'' then st else if s = ''..'' then tl st else s # st)"

definition pathClean :: "string \<Rightarrow> string" where
  "pathClean p =
     (let np = concat (map ((#) (CHR ''/'')) (rev (cleanSegs (splitSlash p) []))) in if np = [] then ''/'' else np)"

definition cleanPath :: "string \<Rightarrow> string" where
  "cleanPath p0 =
     (if p0 = [] then ''/''
      else (let p = (if hd p0 \<noteq> CHR ''/'' then CHR ''/'' # p0 else p0); np = pathClean p in
            if last p = CHR ''/'' \<and> np \<noteq> ''/'' then np @ ''/'' else np))"

subsection \<open>Patterns\<close>

text \<open>
  A segment of a pattern: a literal, a wildcard for one segment, or the trailing slash, which matches every rest. A node
  of the routing tree is the list of the patterns below it, each with the segments that are left.
\<close>

datatype path_seg = LitSeg string | WildSeg | MultiSeg

record 'h mux_pattern =
  pt_method :: string
  pt_segs :: "path_seg list"
  pt_handler :: 'h

fun litChild :: "string \<Rightarrow> (path_seg list \<times> 'p) list \<Rightarrow> (path_seg list \<times> 'p) list" where
  "litChild seg [] = []"
| "litChild seg ((ps, p) # es) =
     (case ps of LitSeg l # rest \<Rightarrow> if l = seg then (rest, p) # litChild seg es else litChild seg es | _ \<Rightarrow> litChild seg es)"

fun wildChild :: "(path_seg list \<times> 'p) list \<Rightarrow> (path_seg list \<times> 'p) list" where
  "wildChild [] = []"
| "wildChild ((ps, p) # es) = (case ps of WildSeg # rest \<Rightarrow> (rest, p) # wildChild es | _ \<Rightarrow> wildChild es)"

text \<open>
  \<^verbatim>\<open>routingNode.matchPath\<close>. A cleaned path has no empty segment, which the tree would take for a wildcard. A
  single wildcard does not match a trailing slash. The trailing slash of a pattern has no name and records no value.
\<close>

fun matchPath :: "(path_seg list \<times> 'p) list \<Rightarrow> string list \<Rightarrow> string list \<Rightarrow> ('p \<times> string list) option" where
  "matchPath es [] ms = map_option (\<lambda>p. (p, ms)) (map_of es [])"
| "matchPath es (seg # rest) ms =
     (case matchPath (litChild seg es) rest ms of
        Some r \<Rightarrow> Some r
      | None \<Rightarrow>
          (case (if seg \<noteq> ''/'' then matchPath (wildChild es) rest (ms @ [seg]) else None) of
             Some r \<Rightarrow> Some r
           | None \<Rightarrow> map_option (\<lambda>p. (p, ms)) (map_of es [MultiSeg])))"

definition methodNode :: "string \<Rightarrow> 'h mux_pattern list \<Rightarrow> (path_seg list \<times> 'h mux_pattern) list" where
  "methodNode m pats = map (\<lambda>p. (pt_segs p, p)) (filter (\<lambda>p. pt_method p = m) pats)"

text \<open>\<^verbatim>\<open>matchMethodAndPath\<close>: a pattern for GET matches HEAD too.\<close>

definition treeMatch :: "'h mux_pattern list \<Rightarrow> string \<Rightarrow> string \<Rightarrow> ('h mux_pattern \<times> string list) option" where
  "treeMatch pats m path =
     (case matchPath (methodNode m pats) (segmentsOf path) [] of
        Some r \<Rightarrow> Some r
      | None \<Rightarrow>
          (case (if m = ''HEAD'' then matchPath (methodNode ''GET'' pats) (segmentsOf path) [] else None) of
             Some r \<Rightarrow> Some r
           | None \<Rightarrow> matchPath (methodNode [] pats) (segmentsOf path) []))"

definition slashes :: "string \<Rightarrow> nat" where
  "slashes p = length (filter (\<lambda>c. c = CHR ''/'') p)"

definition exactMatch :: "('h mux_pattern \<times> string list) option \<Rightarrow> string \<Rightarrow> bool" where
  "exactMatch n path =
     (case n of
        None \<Rightarrow> False
      | Some (p, _) \<Rightarrow>
          if last (pt_segs p) \<noteq> MultiSeg then True
          else if path \<noteq> [] \<and> last path \<noteq> CHR ''/'' then False
          else length (pt_segs p) = slashes path)"

definition hasSuffixSlash :: "string \<Rightarrow> bool" where
  "hasSuffixSlash path \<longleftrightarrow> path \<noteq> [] \<and> last path = CHR ''/''"

text \<open>Whether \<^verbatim>\<open>matchOrRedirect\<close> sends the client to the path with a slash appended.\<close>

definition slashRedirect :: "'h mux_pattern list \<Rightarrow> string \<Rightarrow> string \<Rightarrow> bool" where
  "slashRedirect pats m path \<longleftrightarrow>
     \<not> exactMatch (treeMatch pats m path) path \<and> \<not> hasSuffixSlash path \<and> path \<noteq> [] \<and>
     exactMatch (treeMatch pats m (path @ ''/'')) (path @ ''/'')"

text \<open>\<^verbatim>\<open>matchingMethods\<close>, in order.\<close>

definition methodsAt :: "'h mux_pattern list \<Rightarrow> string \<Rightarrow> string list" where
  "methodsAt pats path =
     (let ms = filter (\<lambda>m. matchPath (methodNode m pats) (segmentsOf path) [] \<noteq> None) (map pt_method pats) in
      if ''GET'' \<in> set ms then ''HEAD'' # ms else ms)"

definition matchingMethods :: "'h mux_pattern list \<Rightarrow> string \<Rightarrow> string list" where
  "matchingMethods pats path =
     sort (remdups (methodsAt pats path @ (if hasSuffixSlash path then [] else methodsAt pats (path @ ''/''))))"

subsection \<open>The multiplexer\<close>

datatype 'h mux_result =
    MuxFound 'h "string list"
  | MuxRedirect string
  | MuxNotAllowed "string list"
  | MuxNotFound

text \<open>
  \<^verbatim>\<open>ServeMux.findHandler\<close>. \<open>escaped\<close> is the \<^verbatim>\<open>EscapedPath\<close> of the URL, which is matched, \<open>path\<close> its decoded \<^verbatim>\<open>Path\<close>.
  A request whose target is a lone asterisk never gets here: \<^verbatim>\<open>ServeMux.ServeHTTP\<close> answers it with 400 itself.
\<close>

definition findHandler :: "'h mux_pattern list \<Rightarrow> string \<Rightarrow> string \<Rightarrow> string \<Rightarrow> 'h mux_result" where
  "findHandler pats m escaped path =
     (let p = (if m = ''CONNECT'' then escaped else cleanPath escaped) in
      if slashRedirect pats m p then MuxRedirect (cleanPath path @ ''/'')
      else if p \<noteq> escaped then MuxRedirect p
      else case treeMatch pats m p of
        Some (pat, ms) \<Rightarrow> MuxFound (pt_handler pat) ms
      | None \<Rightarrow> (let allowed = matchingMethods pats p in if allowed \<noteq> [] then MuxNotAllowed allowed else MuxNotFound))"

text \<open>What a pattern covers, without the tree: the reference for a match.\<close>

fun covers :: "path_seg list \<Rightarrow> string list \<Rightarrow> bool" where
  "covers [] segs = (segs = [])"
| "covers [MultiSeg] segs = (segs \<noteq> [])"
| "covers (LitSeg l # ps) segs = (case segs of [] \<Rightarrow> False | s # ss \<Rightarrow> s = l \<and> covers ps ss)"
| "covers (WildSeg # ps) segs = (case segs of [] \<Rightarrow> False | s # ss \<Rightarrow> s \<noteq> ''/'' \<and> covers ps ss)"
| "covers (MultiSeg # ps) segs = False"

lemma litChild_iff: "(ps, p) \<in> set (litChild seg es) \<longleftrightarrow> (LitSeg seg # ps, p) \<in> set es"
  by (induction seg es rule: litChild.induct) (auto split: list.splits path_seg.splits)

lemma wildChild_iff: "(ps, p) \<in> set (wildChild es) \<longleftrightarrow> (WildSeg # ps, p) \<in> set es"
  by (induction es rule: wildChild.induct) (auto split: list.splits path_seg.splits)

text \<open>A match is a registered pattern that covers the path, and there is one unless no pattern covers it.\<close>

lemma matchPath_sound:
  "matchPath es segs ms = Some (p, ms') \<Longrightarrow> \<exists>ps. (ps, p) \<in> set es \<and> covers ps segs"
proof (induction es segs ms arbitrary: p ms' rule: matchPath.induct)
  case (1 es ms)
  then show ?case by (auto dest: map_of_SomeD intro!: exI [of _ "[]"])
next
  case (2 es seg rest ms)
  show ?case
  proof (cases "matchPath (litChild seg es) rest ms")
    case (Some r)
    with 2 obtain ps where "(LitSeg seg # ps, p) \<in> set es" "covers ps rest" by (auto simp: litChild_iff)
    then show ?thesis by (intro exI [of _ "LitSeg seg # ps"]) simp
  next
    case lit: None
    show ?thesis
    proof (cases "if seg \<noteq> ''/'' then matchPath (wildChild es) rest (ms @ [seg]) else None")
      case (Some r)
      with 2 lit obtain ps where "(WildSeg # ps, p) \<in> set es" "covers ps rest" "seg \<noteq> ''/''"
        by (auto simp: wildChild_iff split: if_splits)
      then show ?thesis by (intro exI [of _ "WildSeg # ps"]) simp
    next
      case None
      with 2 lit show ?thesis by (auto dest: map_of_SomeD intro!: exI [of _ "[MultiSeg]"])
    qed
  qed
qed

lemma matchPath_complete:
  "matchPath es segs ms = None \<Longrightarrow> (ps, p) \<in> set es \<Longrightarrow> \<not> covers ps segs"
proof (induction es segs ms arbitrary: ps p rule: matchPath.induct)
  case (1 es ms)
  then show ?case by (cases "(ps, [] :: string list)" rule: covers.cases) (auto simp: map_of_eq_None_iff image_iff)
next
  case (2 es seg rest ms)
  then show ?case
    by (cases "(ps, seg # rest)" rule: covers.cases)
       (auto simp: litChild_iff wildChild_iff map_of_eq_None_iff image_iff split: option.splits if_splits)
qed

lemma matchPath_no_node [simp]: "matchPath [] segs ms = None"
  by (induction segs arbitrary: ms) simp_all

lemma methodNode_iff: "(ps, p) \<in> set (methodNode m pats) \<longleftrightarrow> p \<in> set pats \<and> pt_method p = m \<and> ps = pt_segs p"
  by (auto simp: methodNode_def)

lemma treeMatch_sound:
  "treeMatch pats m path = Some (p, ms) \<Longrightarrow>
   p \<in> set pats \<and> covers (pt_segs p) (segmentsOf path) \<and> (pt_method p = m \<or> m = ''HEAD'' \<and> pt_method p = ''GET'' \<or> pt_method p = [])"
  by (auto simp: treeMatch_def methodNode_iff dest!: matchPath_sound split: option.splits if_splits)

lemma findHandler_sound:
  "findHandler pats m escaped path = MuxFound h ms \<Longrightarrow>
   \<exists>p \<in> set pats. h = pt_handler p \<and> covers (pt_segs p) (segmentsOf escaped) \<and>
     (pt_method p = m \<or> m = ''HEAD'' \<and> pt_method p = ''GET'' \<or> pt_method p = [])"
  by (force simp: findHandler_def Let_def dest!: treeMatch_sound split: if_splits option.splits)

text \<open>A trailing slash is a segment, which only a trailing slash of a pattern covers.\<close>

definition plain_pattern :: "'h mux_pattern \<Rightarrow> bool" where
  "plain_pattern p \<longleftrightarrow> LitSeg ''/'' \<notin> set (pt_segs p) \<and> (last (pt_segs p) = MultiSeg \<longrightarrow> length (pt_segs p) = 1)"

lemma covers_slash: "covers ps segs \<Longrightarrow> segs \<noteq> [] \<Longrightarrow> last segs = ''/'' \<Longrightarrow> last ps = MultiSeg \<or> LitSeg ''/'' \<in> set ps"
  by (induction ps segs rule: covers.induct) (auto split: list.splits if_splits)

lemma while_appended:
  "dropWhile P xs = [] \<Longrightarrow> takeWhile P (xs @ ys) = xs @ takeWhile P ys \<and> dropWhile P (xs @ ys) = dropWhile P ys \<and> takeWhile P xs = xs"
  "dropWhile P xs \<noteq> [] \<Longrightarrow> takeWhile P (xs @ ys) = takeWhile P xs \<and> dropWhile P (xs @ ys) = dropWhile P xs @ ys \<and>
     \<not> P (hd (dropWhile P xs)) \<and> last (dropWhile P xs) = last xs"
  by (induction xs) (auto split: if_splits)

lemma segmentsOf_slash:
  "p \<noteq> [] \<Longrightarrow> hd p = CHR ''/'' \<Longrightarrow> last p \<noteq> CHR ''/'' \<Longrightarrow> segmentsOf (p @ ''/'') = segmentsOf p @ [''/'']"
proof (induction p rule: segmentsOf.induct)
  case (3 c d p)
  define P where "P = (\<lambda>x. x \<noteq> CHR ''/'')"
  have rec: "segmentsOf (c # d # zs) = pathUnescape (takeWhile P (d # zs)) # segmentsOf (dropWhile P (d # zs))" for zs
    by (simp add: P_def)
  show ?case
  proof (cases "dropWhile P (d # p) = []")
    case True
    moreover have "takeWhile P ''/'' = []" "dropWhile P ''/'' = ''/''" by (simp_all add: P_def)
    ultimately have "takeWhile P (d # p @ ''/'') = takeWhile P (d # p)" "dropWhile P (d # p @ ''/'') = ''/''"
      using while_appended(1) [of P "d # p" "''/''"] by (simp_all only: append_Cons append_Nil2)
    with True show ?thesis by (simp only: append_Cons rec) simp
  next
    case False
    note app = while_appended(2) [OF False, of "''/''"]
    then have "segmentsOf (dropWhile P (d # p) @ ''/'') = segmentsOf (dropWhile P (d # p)) @ [''/'']"
      using "3.prems" False by (intro "3.IH" [folded P_def]) (auto simp: P_def)
    with app show ?thesis by (simp only: append_Cons rec)
  qed
qed auto

lemma no_slash_redirect:
  assumes "list_all plain_pattern pats" "p \<noteq> []" "hd p = CHR ''/''"
  shows "\<not> slashRedirect pats m p"
proof
  assume redirect: "slashRedirect pats m p"
  then have suffix: "last p \<noteq> CHR ''/''" using assms(2) by (auto simp: slashRedirect_def hasSuffixSlash_def)
  from redirect obtain pat ms where pat: "treeMatch pats m (p @ ''/'') = Some (pat, ms)" "exactMatch (Some (pat, ms)) (p @ ''/'')"
    by (auto simp: slashRedirect_def exactMatch_def split: option.splits)
  from treeMatch_sound [OF pat(1)] segmentsOf_slash [OF assms(2,3) suffix] have "pat \<in> set pats"
    "covers (pt_segs pat) (segmentsOf p @ [''/''])" by auto
  moreover from this covers_slash [of "pt_segs pat" "segmentsOf p @ [''/'']"] assms(1) have "last (pt_segs pat) = MultiSeg" "length (pt_segs pat) = 1"
    by (auto simp: plain_pattern_def list_all_iff)
  ultimately have "slashes p = 0" using pat(2) by (auto simp: exactMatch_def slashes_def)
  with assms(2,3) show False by (cases p) (auto simp: slashes_def)
qed

lemma cleanPath_rooted: "cleanPath p \<noteq> [] \<and> hd (cleanPath p) = CHR ''/''"
proof -
  have clean: "pathClean p \<noteq> [] \<and> hd (pathClean p) = CHR ''/''" for p
    by (cases "rev (cleanSegs (splitSlash p) [])") (auto simp: pathClean_def Let_def)
  show ?thesis using clean by (auto simp: cleanPath_def Let_def)
qed

lemma segmentsOf_not_Nil: "p \<noteq> [] \<Longrightarrow> segmentsOf p \<noteq> []"
  by (cases p rule: segmentsOf.cases) auto

declare segmentsOf.simps [simp del]

subsection \<open>The response writer\<close>

text \<open>
  The writer that \<^verbatim>\<open>net/http\<close> gives a handler: the first final status wins, an informational status is sent at once and
  decides nothing, and a write without a status means 200.
\<close>

record http_writer =
  hw_status :: "nat option"
  hw_body :: string

definition httpWriteHeader :: "nat \<Rightarrow> http_writer \<Rightarrow> http_writer" where
  "httpWriteHeader status w =
     (if hw_status w \<noteq> None then w
      else if 100 \<le> status \<and> status \<le> 199 \<and> status \<noteq> 101 then w
      else w\<lparr>hw_status := Some status\<rparr>)"

definition httpWrite :: "string \<Rightarrow> http_writer \<Rightarrow> http_writer" where
  "httpWrite data w = (let w' = httpWriteHeader 200 w in w'\<lparr>hw_body := hw_body w' @ data\<rparr>)"

definition httpFinish :: "http_writer \<Rightarrow> http_writer" where
  "httpFinish w = httpWriteHeader 200 w"

datatype write_call = CallWriteHeader nat | CallWrite string

fun writerCall :: "write_call \<Rightarrow> http_writer \<Rightarrow> http_writer" where
  "writerCall (CallWriteHeader status) = httpWriteHeader status"
| "writerCall (CallWrite data) = httpWrite data"

text \<open>The recorder that \<^verbatim>\<open>logRequests\<close> puts around it.\<close>

record statusRecorder =
  sr_writer :: http_writer
  sr_status :: nat
  sr_wroteHeader :: bool

definition newRecorder :: "http_writer \<Rightarrow> statusRecorder" where
  "newRecorder w = \<lparr>sr_writer = w, sr_status = 200, sr_wroteHeader = False\<rparr>"

definition recorderWriteHeader :: "nat \<Rightarrow> statusRecorder \<Rightarrow> statusRecorder" where
  "recorderWriteHeader status r =
     (if sr_wroteHeader r then r
      else r\<lparr>sr_status := status, sr_wroteHeader := True, sr_writer := httpWriteHeader status (sr_writer r)\<rparr>)"

definition recorderWrite :: "string \<Rightarrow> statusRecorder \<Rightarrow> statusRecorder" where
  "recorderWrite data r =
     (let r' = (if \<not> sr_wroteHeader r then recorderWriteHeader 200 r else r) in
      r'\<lparr>sr_writer := httpWrite data (sr_writer r')\<rparr>)"

fun recorderCall :: "write_call \<Rightarrow> statusRecorder \<Rightarrow> statusRecorder" where
  "recorderCall (CallWriteHeader status) = recorderWriteHeader status"
| "recorderCall (CallWrite data) = recorderWrite data"

fun final_call :: "write_call \<Rightarrow> bool" where
  "final_call (CallWriteHeader status) \<longleftrightarrow> 200 \<le> status"
| "final_call (CallWrite data) \<longleftrightarrow> True"

definition freshWriter :: http_writer where
  "freshWriter = \<lparr>hw_status = None, hw_body = []\<rparr>"

text \<open>A recorder follows a writer: they agree, and the recorder knows the status.\<close>

definition follows :: "statusRecorder \<Rightarrow> http_writer \<Rightarrow> bool" where
  "follows r w \<longleftrightarrow> sr_writer r = w \<and> hw_status w = (if sr_wroteHeader r then Some (sr_status r) else None) \<and>
     (\<not> sr_wroteHeader r \<longrightarrow> sr_status r = 200)"

lemma follows_call:
  assumes "follows r w" "final_call c"
  shows "follows (recorderCall c r) (writerCall c w)"
  using assms
  by (cases c) (auto simp: follows_def recorderWriteHeader_def recorderWrite_def httpWrite_def httpWriteHeader_def Let_def)

lemma follows_calls:
  "follows r w \<Longrightarrow> list_all final_call cs \<Longrightarrow> follows (fold recorderCall cs r) (fold writerCall cs w)"
  by (induction cs arbitrary: r w) (simp_all add: follows_call)

lemma recorder_transparent:
  assumes "list_all final_call cs"
  shows "sr_writer (fold recorderCall cs (newRecorder freshWriter)) = fold writerCall cs freshWriter \<and>
    hw_status (httpFinish (fold writerCall cs freshWriter)) = Some (sr_status (fold recorderCall cs (newRecorder freshWriter)))"
proof -
  have "follows (newRecorder freshWriter) freshWriter" by (simp add: follows_def newRecorder_def freshWriter_def)
  from follows_calls [OF this assms] show ?thesis by (auto simp: follows_def httpFinish_def httpWriteHeader_def)
qed

end
