(* ===== verification/QC_Public.thy ===== *)
theory QC_Public
  imports QC_Control QC_Http
begin

text \<open>
  The public service as it meets the network (\<^verbatim>\<open>Handler\<close>, \<^verbatim>\<open>ServeHTTP\<close>, \<^verbatim>\<open>inventoryHandler\<close> and \<^verbatim>\<open>logRequests\<close> of
  \<^verbatim>\<open>internal/control\<close>): the two multiplexers with their patterns in front of the routes of \<^verbatim>\<open>QC_Control\<close>, and the log line of a
  request. Routing is shown equal to a table of paths, a request without a credential to learn and change nothing, and the logged
  status to be the one the client sees.
\<close>

subsection \<open>Requests\<close>

text \<open>
  A request as the server reads it: \<open>hq_path\<close> is \<^verbatim>\<open>URL.Path\<close> and \<open>hq_escaped\<close> its escaped form, \<open>hq_query\<close> the values of the query
  string, and the body is given by what each of the three decoders makes of it.
\<close>

record http_request =
  hq_method :: string
  hq_path :: string
  hq_escaped :: string
  hq_query :: smap
  hq_authorization :: string
  hq_session_id :: string
  hq_operation :: "operation_request control_body"
  hq_approved :: "approved_execution_request control_body"
  hq_confirmation :: "confirmation_request control_body"

definition queryGet :: "http_request \<Rightarrow> string \<Rightarrow> string" where
  "queryGet q key = (case map_of (hq_query q) key of None \<Rightarrow> [] | Some v \<Rightarrow> v)"

definition pathValue :: "string list \<Rightarrow> string" where
  "pathValue ms = (case ms of [] \<Rightarrow> [] | v # _ \<Rightarrow> v)"

type_synonym control_handler = "http_request \<Rightarrow> string list \<Rightarrow> control_call"

definition route :: "string \<Rightarrow> path_seg list \<Rightarrow> control_handler \<Rightarrow> control_handler mux_pattern" where
  "route m segs h = \<lparr>pt_method = m, pt_segs = segs, pt_handler = h\<rparr>"

subsection \<open>The multiplexers\<close>

definition controlMux :: "control_handler mux_pattern list" where
  "controlMux =
     [route ''GET'' [MultiSeg] (\<lambda>_ _. CtlRoot),
      route ''GET'' [LitSeg ''healthz''] (\<lambda>_ _. CtlHealth),
      route ''GET'' [LitSeg ''readyz''] (\<lambda>_ _. CtlReady),
      route ''GET'' [LitSeg ''v1'', LitSeg ''control'', LitSeg ''info''] (\<lambda>_ _. CtlInfo),
      route ''GET'' [LitSeg ''v1'', LitSeg ''operations''] (\<lambda>_ _. CtlOperations),
      route ''POST'' [LitSeg ''v1'', LitSeg ''operations'', LitSeg ''plan''] (\<lambda>q _. CtlPlan (hq_operation q)),
      route ''POST'' [LitSeg ''v1'', LitSeg ''operations'', LitSeg ''execute''] (\<lambda>q _. CtlExecute (hq_operation q)),
      route ''POST'' [LitSeg ''v1'', LitSeg ''operations'', LitSeg ''execute-approved''] (\<lambda>q _. CtlApproved (hq_approved q)),
      route ''GET'' [LitSeg ''v1'', LitSeg ''system'', LitSeg ''status''] (\<lambda>_ _. CtlSystemStatus),
      route ''GET'' [LitSeg ''v1'', LitSeg ''services'', WildSeg] (\<lambda>_ ms. CtlServiceStatus (pathValue ms)),
      route ''GET'' [LitSeg ''v1'', LitSeg ''audit'']
        (\<lambda>q _. CtlAuditQuery (queryGet q ''limit'') (queryGet q ''actor_id'') (queryGet q ''action'')),
      route ''GET'' [LitSeg ''v1'', LitSeg ''audit'', LitSeg ''integrity''] (\<lambda>_ _. CtlAuditIntegrity),
      route ''POST'' [LitSeg ''v1'', LitSeg ''confirmations''] (\<lambda>q _. CtlConfirm (hq_confirmation q))]"

definition inventoryMux :: "control_handler mux_pattern list" where
  "inventoryMux =
     [route ''GET'' [LitSeg ''v1'', LitSeg ''components''] (\<lambda>_ _. CtlComponents),
      route ''GET'' [LitSeg ''v1'', LitSeg ''components'', WildSeg] (\<lambda>_ ms. CtlComponent (pathValue ms))]"

text \<open>The choice of \<^verbatim>\<open>ServeHTTP\<close>.\<close>

definition inventoryRequest :: "http_request \<Rightarrow> bool" where
  "inventoryRequest q \<longleftrightarrow>
     hq_method q = ''GET'' \<and> (hq_path q = ''/v1/components'' \<or> prefix ''/v1/components/'' (hq_path q))"

definition controlDispatch :: "http_request \<Rightarrow> control_handler mux_result" where
  "controlDispatch q = findHandler (if inventoryRequest q then inventoryMux else controlMux) (hq_method q) (hq_escaped q) (hq_path q)"

text \<open>What the multiplexer answers itself. The HTML body of a redirect is left out.\<close>

fun joinComma :: "string list \<Rightarrow> string" where
  "joinComma [] = []"
| "joinComma [s] = s"
| "joinComma (s # ss) = s @ '', '' @ joinComma ss"

definition httpError :: "nat \<Rightarrow> string \<Rightarrow> control_response" where
  "httpError status message =
     \<lparr>ct_status = status,
      ct_headers = [(''Content-Type'', ''text/plain; charset=utf-8''), (''X-Content-Type-Options'', ''nosniff'')],
      ct_payload = TextPayload message\<rparr>"

definition muxAnswer :: "'h mux_result \<Rightarrow> control_response" where
  "muxAnswer res =
     (case res of
        MuxRedirect location \<Rightarrow> \<lparr>ct_status = 301, ct_headers = [(''Location'', location)], ct_payload = TextPayload []\<rparr>
      | MuxNotAllowed allowed \<Rightarrow>
          (let r = httpError 405 ''Method Not Allowed'' in r\<lparr>ct_headers := (''Allow'', joinComma allowed) # ct_headers r\<rparr>)
      | _ \<Rightarrow> httpError 404 ''404 page not found'')"

definition toControl :: "http_request \<Rightarrow> control_call \<Rightarrow> control_request" where
  "toControl q call = \<lparr>cq_authorization = hq_authorization q, cq_session_id = hq_session_id q, cq_call = call\<rparr>"

definition serveHTTP ::
  "'w control_server \<Rightarrow> control_env \<Rightarrow> http_request \<Rightarrow> 'w control_world \<Rightarrow> control_response \<times> 'w control_world" where
  "serveHTTP s env q w =
     (case controlDispatch q of
        MuxFound h ms \<Rightarrow> serveControl s env (toControl q (h q ms)) w
      | res \<Rightarrow> (let r = muxAnswer res in (r\<lparr>ct_headers := (''X-Quantum-Request-ID'', newRequestID env) # ct_headers r\<rparr>, w)))"

subsection \<open>The table of routes\<close>

text \<open>The calls of the interface, by method and segments, without patterns or precedence.\<close>

definition getCall :: "http_request \<Rightarrow> string list \<Rightarrow> control_call" where
  "getCall q segs =
     (if segs = [''healthz''] then CtlHealth
      else if segs = [''readyz''] then CtlReady
      else if segs = [''v1'', ''control'', ''info''] then CtlInfo
      else if segs = [''v1'', ''operations''] then CtlOperations
      else if segs = [''v1'', ''system'', ''status''] then CtlSystemStatus
      else if segs = [''v1'', ''audit''] then CtlAuditQuery (queryGet q ''limit'') (queryGet q ''actor_id'') (queryGet q ''action'')
      else if segs = [''v1'', ''audit'', ''integrity''] then CtlAuditIntegrity
      else case segs of
        [a, b, u] \<Rightarrow> if a = ''v1'' \<and> b = ''services'' \<and> u \<noteq> ''/'' then CtlServiceStatus u else CtlRoot
      | _ \<Rightarrow> CtlRoot)"

definition postCall :: "http_request \<Rightarrow> string list \<Rightarrow> control_call option" where
  "postCall q segs =
     (if segs = [''v1'', ''operations'', ''plan''] then Some (CtlPlan (hq_operation q))
      else if segs = [''v1'', ''operations'', ''execute''] then Some (CtlExecute (hq_operation q))
      else if segs = [''v1'', ''operations'', ''execute-approved''] then Some (CtlApproved (hq_approved q))
      else if segs = [''v1'', ''confirmations''] then Some (CtlConfirm (hq_confirmation q))
      else None)"

definition componentCall :: "string list \<Rightarrow> control_call option" where
  "componentCall segs =
     (case segs of
        [a, b] \<Rightarrow> if a = ''v1'' \<and> b = ''components'' then Some CtlComponents else None
      | [a, b, i] \<Rightarrow> if a = ''v1'' \<and> b = ''components'' \<and> i \<noteq> ''/'' then Some (CtlComponent i) else None
      | _ \<Rightarrow> None)"

definition apiRoute :: "http_request \<Rightarrow> nat + control_call" where
  "apiRoute q =
     (let segs = segmentsOf (hq_escaped q) in
      if inventoryRequest q then (case componentCall segs of None \<Rightarrow> Inl 404 | Some call \<Rightarrow> Inr call)
      else if hq_method q = ''GET'' \<or> hq_method q = ''HEAD'' then Inr (getCall q segs)
      else if hq_method q = ''POST'' then (case postCall q segs of None \<Rightarrow> Inl 405 | Some call \<Rightarrow> Inr call)
      else Inl 405)"

lemmas mux_tables = controlMux_def inventoryMux_def route_def methodNode_def

text \<open>The match below the segment \<^verbatim>\<open>v1\<close>, then in the whole tree of the patterns for GET.\<close>

lemma getV1_match:
  "case matchPath (litChild ''v1'' (methodNode ''GET'' controlMux)) segs [] of
     Some (p, ms) \<Rightarrow> pt_handler p q ms = getCall q (''v1'' # segs)
   | None \<Rightarrow> getCall q (''v1'' # segs) = CtlRoot"
proof (cases segs)
  case Nil
  then show ?thesis by (simp add: mux_tables getCall_def)
next
  case (Cons t us)
  note defs = mux_tables getCall_def pathValue_def Cons
  consider "t = ''control''" | "t = ''operations''" | "t = ''system''" | "t = ''services''" | "t = ''audit''"
    | "t \<noteq> ''control''" "t \<noteq> ''operations''" "t \<noteq> ''system''" "t \<noteq> ''services''" "t \<noteq> ''audit''" by argo
  then show ?thesis
    by cases ((cases us; cases "tl us"), simp_all add: defs split: list.split)+
qed

lemma get_match:
  assumes "segs \<noteq> []"
  shows "\<exists>p ms. matchPath (methodNode ''GET'' controlMux) segs [] = Some (p, ms) \<and> pt_handler p q ms = getCall q segs"
proof (cases segs)
  case (Cons a rest)
  consider "a = ''v1''" | "a = ''healthz''" | "a = ''readyz''" | "a \<noteq> ''v1''" "a \<noteq> ''healthz''" "a \<noteq> ''readyz''" by argo
  then show ?thesis
  proof cases
    case 1
    have "wildChild (methodNode ''GET'' controlMux) = []" "map_of (methodNode ''GET'' controlMux) [MultiSeg] = Some (route ''GET'' [MultiSeg] (\<lambda>_ _. CtlRoot))"
      by (simp_all add: mux_tables)
    then show ?thesis using 1 Cons getV1_match [of q rest] by (auto simp: route_def split: option.splits)
  next
    case 2
    then show ?thesis using Cons by (cases rest) (simp_all add: mux_tables getCall_def split: list.split)
  next
    case 3
    then show ?thesis using Cons by (cases rest) (simp_all add: mux_tables getCall_def split: list.split)
  next
    case 4
    then show ?thesis using Cons by (cases rest) (simp_all add: mux_tables getCall_def split: list.split)
  qed
qed (use assms in simp)

lemma post_match:
  "case matchPath (methodNode ''POST'' controlMux) segs [] of
     Some (p, ms) \<Rightarrow> postCall q segs = Some (pt_handler p q ms)
   | None \<Rightarrow> postCall q segs = None"
proof (cases "\<exists>t us. segs = ''v1'' # t # us")
  case False
  then show ?thesis by (cases segs; cases "tl segs") (simp_all add: mux_tables postCall_def)
next
  case True
  then obtain t us where segs: "segs = ''v1'' # t # us" by blast
  note defs = mux_tables postCall_def segs
  consider "t = ''operations''" | "t = ''confirmations''" | "t \<noteq> ''operations''" "t \<noteq> ''confirmations''" by argo
  then show ?thesis by cases ((cases us; cases "tl us"), simp_all add: defs)+
qed

lemma component_match:
  "case matchPath (methodNode ''GET'' inventoryMux) segs [] of
     Some (p, ms) \<Rightarrow> componentCall segs = Some (pt_handler p q ms)
   | None \<Rightarrow> componentCall segs = None"
proof (cases "\<exists>us. segs = ''v1'' # ''components'' # us")
  case False
  then show ?thesis by (cases segs; cases "tl segs") (simp_all add: mux_tables componentCall_def pathValue_def split: list.split)
next
  case True
  then obtain us where segs: "segs = ''v1'' # ''components'' # us" by blast
  then show ?thesis by (cases us; cases "tl us") (simp_all add: mux_tables componentCall_def pathValue_def split: list.split)
qed

lemma mux_plain: "list_all plain_pattern controlMux" "list_all plain_pattern inventoryMux"
  by (simp_all add: mux_tables plain_pattern_def)

lemma other_methods:
  "m \<noteq> ''GET'' \<Longrightarrow> m \<noteq> ''POST'' \<Longrightarrow> methodNode m controlMux = []"
  "m \<noteq> ''GET'' \<Longrightarrow> methodNode m inventoryMux = []"
  by (simp_all add: mux_tables)

text \<open>What each tree makes of a path.\<close>

lemma control_tree:
  assumes "path \<noteq> []"
  shows "m = ''GET'' \<or> m = ''HEAD'' \<Longrightarrow> \<exists>p ms. treeMatch controlMux m path = Some (p, ms) \<and> pt_handler p q ms = getCall q (segmentsOf path)"
    and "m \<noteq> ''GET'' \<Longrightarrow> m \<noteq> ''HEAD'' \<Longrightarrow>
      (case treeMatch controlMux m path of
         Some (p, ms) \<Rightarrow> m = ''POST'' \<and> postCall q (segmentsOf path) = Some (pt_handler p q ms)
       | None \<Rightarrow> m = ''POST'' \<longrightarrow> postCall q (segmentsOf path) = None)"
proof -
  obtain p ms where get: "matchPath (methodNode ''GET'' controlMux) (segmentsOf path) [] = Some (p, ms)" "pt_handler p q ms = getCall q (segmentsOf path)"
    using get_match [OF segmentsOf_not_Nil [OF assms]] by blast
  have none: "methodNode [] controlMux = []" "methodNode ''HEAD'' controlMux = []" by (simp_all add: other_methods)
  show "m = ''GET'' \<or> m = ''HEAD'' \<Longrightarrow> \<exists>p ms. treeMatch controlMux m path = Some (p, ms) \<and> pt_handler p q ms = getCall q (segmentsOf path)"
    using get none by (elim disjE) (simp_all add: treeMatch_def)
  show "case treeMatch controlMux m path of
         Some (p, ms) \<Rightarrow> m = ''POST'' \<and> postCall q (segmentsOf path) = Some (pt_handler p q ms)
       | None \<Rightarrow> m = ''POST'' \<longrightarrow> postCall q (segmentsOf path) = None" if "m \<noteq> ''GET''" "m \<noteq> ''HEAD''"
    using that none post_match [of q "segmentsOf path"] by (cases "m = ''POST''") (simp_all add: treeMatch_def other_methods split: option.splits prod.splits)
qed

lemma control_methods:
  "matchingMethods controlMux path \<noteq> []"
proof -
  have "''GET'' \<in> set (map pt_method controlMux)" by (simp add: mux_tables)
  moreover have "matchPath (methodNode ''GET'' controlMux) (segmentsOf p) [] \<noteq> None" if "p \<noteq> []" for p
    using get_match [OF segmentsOf_not_Nil [OF that], of undefined] by auto
  ultimately have "''GET'' \<in> set (methodsAt controlMux p)" if "p \<noteq> []" for p
    using that by (simp add: methodsAt_def Let_def)
  then have "''GET'' \<in> set (matchingMethods controlMux path)"
    by (cases "path = []") (auto simp: matchingMethods_def hasSuffixSlash_def)
  then show ?thesis by auto
qed

lemma inventory_methods:
  assumes "treeMatch inventoryMux ''GET'' path = None" "path \<noteq> []" "hd path = CHR ''/''"
  shows "matchingMethods inventoryMux path = []"
proof -
  have get: "matchPath (methodNode ''GET'' inventoryMux) (segmentsOf path) [] = None"
    using assms(1) by (simp add: treeMatch_def split: option.splits)
  have slash: "matchPath (methodNode ''GET'' inventoryMux) (segmentsOf (path @ ''/'')) [] = None" if "\<not> hasSuffixSlash path"
  proof (rule ccontr)
    have "segmentsOf (path @ ''/'') = segmentsOf path @ [''/'']"
      by (rule segmentsOf_slash) (use assms(2,3) that in \<open>simp_all add: hasSuffixSlash_def\<close>)
    moreover assume "\<not> ?thesis"
    ultimately obtain p ms where "matchPath (methodNode ''GET'' inventoryMux) (segmentsOf path @ [''/'']) [] = Some (p, ms)" by auto
    from matchPath_sound [OF this] obtain ps where "(ps, p) \<in> set (methodNode ''GET'' inventoryMux)" "covers ps (segmentsOf path @ [''/''])" by blast
    moreover from this covers_slash [of ps "segmentsOf path @ [''/'']"] have "last ps = MultiSeg \<or> LitSeg ''/'' \<in> set ps" by simp
    ultimately show False by (auto simp: mux_tables)
  qed
  have "map pt_method inventoryMux = [''GET'', ''GET'']" by (simp add: mux_tables)
  with get slash show ?thesis by (simp add: matchingMethods_def methodsAt_def Let_def)
qed

lemma connect_unmatched: "treeMatch controlMux ''CONNECT'' path = None"
  by (simp add: treeMatch_def other_methods)

lemma serveHTTP_route:
  "if hq_method q \<noteq> ''CONNECT'' \<and> cleanPath (hq_escaped q) \<noteq> hq_escaped q
   then \<exists>r. serveHTTP s env q w = (r, w) \<and> ct_status r = 301
   else case apiRoute q of
     Inr call \<Rightarrow> serveHTTP s env q w = serveControl s env (toControl q call) w
   | Inl status \<Rightarrow> \<exists>r. serveHTTP s env q w = (r, w) \<and> ct_status r = status"
proof -
  let ?e = "hq_escaped q" and ?m = "hq_method q"
  have rooted: "cleanPath ?e \<noteq> []" "hd (cleanPath ?e) = CHR ''/''" using cleanPath_rooted by auto
  have plain: "list_all plain_pattern (if inventoryRequest q then inventoryMux else controlMux)" using mux_plain by simp
  consider (connect) "?m = ''CONNECT''" | (unclean) "?m \<noteq> ''CONNECT''" "cleanPath ?e \<noteq> ?e" | (clean) "?m \<noteq> ''CONNECT''" "cleanPath ?e = ?e" by argo
  then show ?thesis
  proof cases
    case connect
    then have "controlDispatch q = MuxNotAllowed (matchingMethods controlMux ?e)"
      by (simp add: controlDispatch_def inventoryRequest_def findHandler_def slashRedirect_def connect_unmatched exactMatch_def Let_def control_methods)
    moreover have "apiRoute q = Inl 405" using connect by (simp add: apiRoute_def inventoryRequest_def Let_def)
    ultimately show ?thesis using connect by (simp add: serveHTTP_def muxAnswer_def httpError_def Let_def)
  next
    case unclean
    then have "controlDispatch q = MuxRedirect (cleanPath ?e)"
      using no_slash_redirect [OF plain rooted] by (simp add: controlDispatch_def findHandler_def Let_def)
    with unclean show ?thesis by (simp add: serveHTTP_def muxAnswer_def Let_def)
  next
    case clean
    note redirect = no_slash_redirect [OF plain rooted]
    show ?thesis
    proof (cases "inventoryRequest q")
      case True
      then have get: "?m = ''GET''" by (simp add: inventoryRequest_def)
      have tree: "treeMatch inventoryMux ''GET'' ?e = matchPath (methodNode ''GET'' inventoryMux) (segmentsOf ?e) []"
        by (simp add: treeMatch_def other_methods split: option.split)
      from clean redirect True get inventory_methods [of ?e] rooted component_match [of "segmentsOf ?e" q] show ?thesis
        by (auto simp: serveHTTP_def controlDispatch_def findHandler_def apiRoute_def muxAnswer_def httpError_def Let_def tree
            split: option.splits prod.splits)
    next
      case False
      with clean redirect rooted control_tree [of ?e ?m q] control_methods [of ?e] show ?thesis
        by (auto simp: serveHTTP_def controlDispatch_def findHandler_def apiRoute_def muxAnswer_def httpError_def Let_def
            split: option.splits prod.splits)
    qed
  qed
qed

text \<open>
  C11. Every request reaches the route that the interface lists for it, and no other. A path that is not clean is redirected; \<^verbatim>\<open>GET\<close> below
  \<^verbatim>\<open>/v1/components\<close> is answered from the inventory; every other \<^verbatim>\<open>GET\<close> or \<^verbatim>\<open>HEAD\<close> is a route of the service or, failing that, the root document,
  never a 404; \<^verbatim>\<open>POST\<close> has four routes; anything else is answered 405. The precedence of the patterns never puts the unguarded root route in front of
  a guarded one.
\<close>

theorem public_routes_exact:
  "if hq_method q \<noteq> ''CONNECT'' \<and> cleanPath (hq_escaped q) \<noteq> hq_escaped q
   then \<exists>r. serveHTTP s env q w = (r, w) \<and> ct_status r = 301
   else case apiRoute q of
     Inr call \<Rightarrow> serveHTTP s env q w = serveControl s env (toControl q call) w
   | Inl status \<Rightarrow> \<exists>r. serveHTTP s env q w = (r, w) \<and> ct_status r = status"
  by (rule serveHTTP_route)

lemma serveHTTP_cases:
  assumes "serveHTTP s env q w = (r, w')"
  obtains (Answered) "w' = w" | (Served) call where "apiRoute q = Inr call" "serveControl s env (toControl q call) w = (r, w')"
  using serveHTTP_route [of q s env w] assms by (auto split: if_splits sum.splits)

lemma getCall_unapproved: "getCall q segs \<noteq> CtlApproved body"
  by (auto simp: getCall_def split: list.split)

lemma apiRoute_approved:
  "apiRoute q = Inr (CtlApproved body) \<Longrightarrow>
   hq_method q = ''POST'' \<and> segmentsOf (hq_escaped q) = [''v1'', ''operations'', ''execute-approved''] \<and> body = hq_approved q"
  by (auto simp: apiRoute_def componentCall_def postCall_def getCall_unapproved Let_def split: if_splits option.splits list.splits)

subsection \<open>Requests without a credential\<close>

lemma getCall_ready: "getCall q segs = CtlReady \<Longrightarrow> segs = [''readyz'']"
  by (auto simp: getCall_def split: if_splits list.splits)

lemma apiRoute_ready: "apiRoute q = Inr CtlReady \<Longrightarrow> segmentsOf (hq_escaped q) = [''readyz'']"
  by (auto simp: apiRoute_def componentCall_def postCall_def Let_def dest: getCall_ready split: if_splits option.splits list.splits)

lemma unauthenticated_control:
  assumes "authenticateRequest s (cq_authorization req) = None" "serveControl s env req w = (r, w')"
  shows "routePermission (cq_call req) \<noteq> None \<Longrightarrow> w' = w \<and> ct_status r = 401"
    and "cq_call req \<noteq> CtlReady \<Longrightarrow> routePermission (cq_call req) = None \<Longrightarrow>
      w' = w \<and> ct_status r = 200 \<and> ct_payload r \<in> {ct_payload (controlRoot s), ct_payload (controlHealth s)}"
    and "cq_call req = CtlReady \<Longrightarrow> cw_plans w' = cw_plans w \<and> cw_audit w' = cw_audit w \<and> ct_status r \<in> {200, 503} \<and>
      cw_broker w' \<in> {cw_broker w, snd (api_health (cs_broker s) (cw_broker w))}"
proof -
  note defs = serveControl_def controlProblem_def controlWriteJSON_def Let_def
  show "w' = w \<and> ct_status r = 401" if "routePermission (cq_call req) \<noteq> None"
    using assms that by (auto simp: defs requirePermission_def)
  show "w' = w \<and> ct_status r = 200 \<and> ct_payload r \<in> {ct_payload (controlRoot s), ct_payload (controlHealth s)}"
    if "cq_call req \<noteq> CtlReady" "routePermission (cq_call req) = None"
    using assms that by (cases "cq_call req") (auto simp: defs routePermission_def openRoute_def controlRoot_def controlHealth_def)
  show "cw_plans w' = cw_plans w \<and> cw_audit w' = cw_audit w \<and> ct_status r \<in> {200, 503} \<and>
      cw_broker w' \<in> {cw_broker w, snd (api_health (cs_broker s) (cw_broker w))}" if "cq_call req = CtlReady"
    using assms that by (auto simp: defs routePermission_def openRoute_def controlReady_def split: if_splits prod.splits option.splits)
qed

text \<open>
  C7. Without a valid credential nothing of the interface can be reached. A request that does not authenticate is redirected or answered 404 or 405 by the
  multiplexer, or 401; or it gets the fixed documents of the root and health routes; or it is the readiness probe, which may only ask the broker for
  its health. Nothing else changes or is disclosed, and every path that has a guarded route is answered 401, whatever the method, the escaping of the
  path or the body.
\<close>

theorem unauthenticated_surface:
  assumes "authenticateRequest s (hq_authorization q) = None" "serveHTTP s env q w = (r, w')"
  shows "(w' = w \<and> ct_status r \<in> {301, 401, 404, 405} \<or>
      w' = w \<and> ct_status r = 200 \<and> ct_payload r \<in> {ct_payload (controlRoot s), ct_payload (controlHealth s)} \<or>
      segmentsOf (hq_escaped q) = [''readyz''] \<and> cw_plans w' = cw_plans w \<and> cw_audit w' = cw_audit w \<and> ct_status r \<in> {200, 503} \<and>
        cw_broker w' \<in> {cw_broker w, snd (api_health (cs_broker s) (cw_broker w))}) \<and>
    (\<forall>call. apiRoute q = Inr call \<and> routePermission call \<noteq> None \<longrightarrow> w' = w \<and> ct_status r \<in> {301, 401})"
proof (cases "hq_method q \<noteq> ''CONNECT'' \<and> cleanPath (hq_escaped q) \<noteq> hq_escaped q")
  case True
  with serveHTTP_route [of q s env w] assms(2) show ?thesis by auto
next
  case False
  show ?thesis
  proof (cases "apiRoute q")
    case (Inl status)
    then have "status \<in> {404, 405}" by (auto simp: apiRoute_def Let_def split: if_splits option.splits)
    with serveHTTP_route [of q s env w] assms(2) False Inl show ?thesis by auto
  next
    case (Inr call)
    with serveHTTP_route [of q s env w] assms(2) False have run: "serveControl s env (toControl q call) w = (r, w')" by auto
    have "authenticateRequest s (cq_authorization (toControl q call)) = None" "cq_call (toControl q call) = call"
      using assms(1) by (simp_all add: toControl_def)
    with unauthenticated_control [OF _ run] apiRoute_ready [of q] Inr show ?thesis
      by (cases "call = CtlReady") (auto simp: routePermission_def)
  qed
qed

definition exampleHttpRequest :: "string \<Rightarrow> string \<Rightarrow> http_request" where
  "exampleHttpRequest m path = \<lparr>hq_method = m, hq_path = path, hq_escaped = path, hq_query = [], hq_authorization = [], hq_session_id = [],
     hq_operation = \<lparr>cb_length = 0, cb_decode = (\<lambda>_. Malformed ''EOF''), cb_only = True\<rparr>,
     hq_approved = \<lparr>cb_length = 0, cb_decode = (\<lambda>_. Malformed ''EOF''), cb_only = True\<rparr>,
     hq_confirmation = \<lparr>cb_length = 0, cb_decode = (\<lambda>_. Malformed ''EOF''), cb_only = True\<rparr>\<rparr>"

theorem unauthenticated_surface_witness:
  "\<exists>r. serveHTTP exampleServer exampleControlEnv (exampleHttpRequest ''POST'' ''/v1/operations/execute-approved'') exampleWorld = (r, exampleWorld) \<and>
     ct_status r \<in> {301, 401}"
proof -
  let ?q = "exampleHttpRequest ''POST'' ''/v1/operations/execute-approved''"
  obtain r w' where run: "serveHTTP exampleServer exampleControlEnv ?q exampleWorld = (r, w')" by fastforce
  have "authenticateRequest exampleServer (hq_authorization ?q) = None"
    by (simp add: exampleHttpRequest_def authenticateRequest_def exampleServer_def newServerWithSecurity_def)
  from unauthenticated_surface [OF this run] have
    "\<forall>call. apiRoute ?q = Inr call \<and> routePermission call \<noteq> None \<longrightarrow> w' = exampleWorld \<and> ct_status r \<in> {301, 401}" by blast
  moreover have "segmentsOf ''/v1/operations/execute-approved'' = [''v1'', ''operations'', ''execute-approved'']" by code_simp
  then have "apiRoute ?q = Inr (CtlApproved (hq_approved ?q))"
    by (simp add: apiRoute_def exampleHttpRequest_def inventoryRequest_def postCall_def Let_def)
  ultimately show ?thesis using run by (simp add: routePermission_def)
qed

subsection \<open>The log line\<close>

text \<open>
  \<^verbatim>\<open>logRequests\<close>: the response is written through the recorder, as \<^verbatim>\<open>writeJSON\<close> does it, and the line is written when it is done. \<open>encode\<close> is the
  JSON encoder; \<open>started\<close> and \<open>finished\<close> are the two readings of the clock.
\<close>

record request_log =
  rl_request_id :: string
  rl_method :: string
  rl_path :: string
  rl_status :: nat
  rl_duration_ms :: int

definition responseCalls :: "(control_payload \<Rightarrow> string) \<Rightarrow> control_response \<Rightarrow> write_call list" where
  "responseCalls encode r = [CallWriteHeader (ct_status r), CallWrite (encode (ct_payload r))]"

definition logRequests ::
  "(control_payload \<Rightarrow> string) \<Rightarrow> string \<Rightarrow> http_request \<Rightarrow> gotime \<Rightarrow> gotime \<Rightarrow> control_response \<Rightarrow> request_log \<times> http_writer" where
  "logRequests encode requestID q started finished r =
     (let recorder = fold recorderCall (responseCalls encode r) (newRecorder freshWriter) in
      (\<lparr>rl_request_id = requestID, rl_method = hq_method q, rl_path = hq_path q, rl_status = sr_status recorder,
        rl_duration_ms = (finished - started) div millisecond\<rparr>,
       httpFinish (sr_writer recorder)))"

definition publicStatuses :: "nat list" where
  "publicStatuses = [200, 201, 301, 400, 401, 403, 404, 405, 413, 500, 502, 503]"

lemma public_status [simp]: "n \<in> {200, 201, 301, 400, 401, 403, 404, 405, 413, 500, 502, 503} \<Longrightarrow> n \<in> set publicStatuses"
  by (simp add: publicStatuses_def)

lemma json_status [simp]:
  "ct_status (controlWriteJSON st payload) = st" "ct_status (controlProblem i st c m) = st" "ct_status (brokerGatewayError i) = 502"
  "ct_status (inventoryUnavailable i) = 500"
  by (simp_all add: controlWriteJSON_def controlProblem_def brokerGatewayError_def inventoryUnavailable_def)

lemma operation_status [simp]: "operationHTTPStatus st \<in> set publicStatuses"
  by (simp add: operationHTTPStatus_def)

lemma decode_status: "decodeControl i limit message body = Inl r \<Longrightarrow> ct_status r \<in> set publicStatuses"
  by (auto simp: decodeControl_def split: decode_result.splits if_splits)

lemma cached_status: "cachedPlan i now planID cache = (Inl r, cache') \<Longrightarrow> ct_status r = 404"
  by (auto simp: cachedPlan_def split: prod.splits option.splits)

lemma submit_status:
  "ct_status (fst (submitConfirmation api env cx plan w)) \<in> set publicStatuses"
  "ct_status (fst (submitApproved api env cx plan token w)) \<in> set publicStatuses"
  by (auto simp: submitConfirmation_def submitApproved_def Let_def split: prod.split sum.split)

lemma guarded_status: "ct_status (fst (guardedRoute s env call cx w)) \<in> set publicStatuses"
proof (cases call)
  case (CtlPlan body)
  then show ?thesis
    by (auto simp: guardedRoute_def controlPlan_def decodeOperation_def split: sum.split prod.split dest: decode_status)
next
  case (CtlExecute body)
  then show ?thesis
    by (auto simp: guardedRoute_def controlExecute_def decodeOperation_def Let_def split: sum.split prod.split dest: decode_status)
next
  case (CtlApproved body)
  then show ?thesis
    by (auto simp: guardedRoute_def controlApproved_def Let_def submit_status split: option.split sum.split prod.split dest: decode_status cached_status)
next
  case (CtlConfirm body)
  then show ?thesis
    by (auto simp: guardedRoute_def controlConfirmation_def Let_def submit_status split: option.split sum.split prod.split dest: decode_status cached_status)
qed (auto simp: guardedRoute_def controlRoot_def controlInfo_def controlOperations_def controlSystemStatus_def controlServiceStatus_def
      controlStatus_def controlAuditQuery_def controlAuditIntegrity_def controlComponents_def controlComponent_def Let_def
      split: prod.split sum.split option.split)

lemma guarded_status_eq: "guardedRoute s env call cx w = (r, w') \<Longrightarrow> ct_status r \<in> set publicStatuses"
  by (metis fst_conv guarded_status)

lemma control_status:
  assumes "serveControl s env req w = (r, w')"
  shows "ct_status r \<in> set publicStatuses" "hd (ct_headers r) = (''X-Quantum-Request-ID'', newRequestID env)"
  using assms
  by (auto simp: serveControl_def requirePermission_def openRoute_def controlReady_def controlHealth_def controlRoot_def Let_def
      split: option.splits prod.splits if_splits control_call.splits dest: guarded_status_eq)

lemma http_status:
  assumes "serveHTTP s env q w = (r, w')"
  shows "ct_status r \<in> set publicStatuses" "hd (ct_headers r) = (''X-Quantum-Request-ID'', newRequestID env)"
  using assms
  by (auto simp: serveHTTP_def muxAnswer_def httpError_def Let_def split: mux_result.splits dest: control_status)

text \<open>
  The log tells what the client saw. For every request, the status in the log line is the status the client gets, it is one of the
  documented ones, the recorder passes the body on unchanged, and the identifier in the line is the one in the \<^verbatim>\<open>X-Quantum-Request-ID\<close> header.
\<close>

theorem public_status_logged:
  "let r = fst (serveHTTP s env q w); (line, sent) = logRequests encode (newRequestID env) q started finished r in
     hw_status sent = Some (rl_status line) \<and> rl_status line = ct_status r \<and> ct_status r \<in> set publicStatuses \<and>
     hw_body sent = encode (ct_payload r) \<and> hd (ct_headers r) = (''X-Quantum-Request-ID'', rl_request_id line)"
proof -
  obtain r w' where run: "serveHTTP s env q w = (r, w')" by fastforce
  from http_status(1) [OF run] have status: "200 \<le> ct_status r" by (auto simp: publicStatuses_def)
  then have final: "list_all final_call (responseCalls encode r)" by (simp add: responseCalls_def)
  have "fold writerCall (responseCalls encode r) freshWriter = \<lparr>hw_status = Some (ct_status r), hw_body = encode (ct_payload r)\<rparr>"
    using status by (simp add: responseCalls_def freshWriter_def httpWriteHeader_def httpWrite_def)
  with recorder_transparent [OF final] http_status [OF run] run show ?thesis
    by (simp add: logRequests_def Let_def httpFinish_def httpWriteHeader_def)
qed

end
