(* ===== verification/QC_Lifecycle.thy ===== *)
theory QC_Lifecycle
  imports QC_Client QC_Config QC_Grants
begin

text \<open>
  The life of the two processes from the moment they serve (\<^verbatim>\<open>serve\<close> in \<^verbatim>\<open>cmd/qcored/main.go\<close> and
  \<^verbatim>\<open>cmd/quantum-control/main.go\<close>): the settings of their HTTP servers, and the interplay of the goroutine that serves, the
  channel of capacity one it reports on, the signal context, \<^verbatim>\<open>http.Server.Shutdown\<close> with its 15 seconds, and the deferred
  \<^verbatim>\<open>Close\<close> of the socket, as a step relation.
\<close>

subsection \<open>The HTTP servers\<close>

record http_server =
  hs_addr :: string
  hs_read_header :: duration
  hs_read :: duration
  hs_write :: duration
  hs_idle :: duration
  hs_max_header :: int

definition brokerHttpServer :: "broker_config \<Rightarrow> http_server" where
  "brokerHttpServer cfg = \<lparr>
     hs_addr = [], hs_read_header = bc_header_timeout cfg, hs_read = bc_transaction_timeout cfg + 10 * second,
     hs_write = bc_transaction_timeout cfg + 15 * second, hs_idle = bc_idle_timeout cfg, hs_max_header = 2 ^ 20\<rparr>"

definition controlHttpServer :: "control_config \<Rightarrow> http_server" where
  "controlHttpServer cfg = \<lparr>
     hs_addr = cc_listen cfg, hs_read_header = cc_header_timeout cfg, hs_read = 30 * second,
     hs_write = cc_broker_timeout cfg + 5 * second, hs_idle = cc_idle_timeout cfg, hs_max_header = 2 ^ 20\<rparr>"

text \<open>The servers wait longer for a reply than what they wait for may take.\<close>

lemma servers_outlast:
  "bc_transaction_timeout cfg < hs_write (brokerHttpServer cfg)" "cc_broker_timeout c < hs_write (controlHttpServer c)"
  by (simp_all add: brokerHttpServer_def controlHttpServer_def second_def)

subsection \<open>The state of a serving process\<close>

datatype shutdown_error = DeadlineExceeded | ListenerClose close_error

datatype stop_error = ServeError string | GracefulShutdown shutdown_error

text \<open>
  Where \<^verbatim>\<open>serve\<close> is: in its \<^verbatim>\<open>select\<close>; in \<^verbatim>\<open>Shutdown\<close>, until a deadline and with the error of closing the listeners; receiving
  from the channel; or done, with the error it returned. Where the goroutine is: before \<^verbatim>\<open>Serve\<close>, in it, or done.
\<close>

datatype main_phase = Selecting | ShuttingDown gotime "close_error option" | Receiving | Stopped "stop_error option"

datatype serve_phase = Starting | Accepting | Ended

text \<open>
  \<open>lv_active\<close> counts the connections \<^verbatim>\<open>Shutdown\<close> waits for. \<open>lv_socket\<close> is the socket of the broker; the public service, which listens on
  TCP inside \<^verbatim>\<open>ListenAndServe\<close>, has none. The server closes its listener once (\<open>lv_listener_closed\<close>).
\<close>

record serve_state =
  lv_main :: main_phase
  lv_serve :: serve_phase
  lv_errch :: "stop_error option list"
  lv_signalled :: bool
  lv_shutdown :: bool
  lv_active :: nat
  lv_now :: gotime
  lv_socket :: "socket_state option"
  lv_listener_closed :: bool

definition serving :: "gotime \<Rightarrow> socket_state option \<Rightarrow> serve_state" where
  "serving now sock = \<lparr>lv_main = Selecting, lv_serve = Starting, lv_errch = [], lv_signalled = False, lv_shutdown = False, lv_active = 0,
     lv_now = now, lv_socket = sock, lv_listener_closed = False\<rparr>"

text \<open>\<^verbatim>\<open>cleanupListener.Close\<close>, by the server and again by the \<^verbatim>\<open>defer\<close>. The second close of a listener fails; its removal of the path does not know that.\<close>

definition closePath :: "bool \<Rightarrow> bool \<Rightarrow> serve_state \<Rightarrow> close_error option \<times> serve_state" where
  "closePath closeErr removeErr st =
     (case lv_socket st of
        None \<Rightarrow> (if closeErr then Some CloseFailed else None, st\<lparr>lv_listener_closed := True\<rparr>)
      | Some sk \<Rightarrow>
          (case closeListener (closeErr \<or> lv_listener_closed st) removeErr sk of
             (e, sk') \<Rightarrow> (e, st\<lparr>lv_socket := Some sk', lv_listener_closed := True\<rparr>)))"

definition serverClose :: "bool \<Rightarrow> bool \<Rightarrow> serve_state \<Rightarrow> close_error option \<times> serve_state" where
  "serverClose closeErr removeErr st = (if lv_listener_closed st then (None, st) else closePath closeErr removeErr st)"

text \<open>The goroutine reports and ends. Its listener is closed then, if it was not closed before.\<close>

definition report :: "bool \<Rightarrow> bool \<Rightarrow> stop_error option \<Rightarrow> serve_state \<Rightarrow> serve_state" where
  "report closeErr removeErr e st =
     (let st' = snd (serverClose closeErr removeErr st) in st'\<lparr>lv_serve := Ended, lv_errch := lv_errch st' @ [e]\<rparr>)"

text \<open>\<^verbatim>\<open>serve\<close> returns: the deferred \<^verbatim>\<open>listener.Close()\<close> runs, and \<^verbatim>\<open>main\<close> exits, with status 1 after an error.\<close>

definition serveReturn :: "bool \<Rightarrow> bool \<Rightarrow> stop_error option \<Rightarrow> serve_state \<Rightarrow> serve_state" where
  "serveReturn closeErr removeErr e st = (snd (closePath closeErr removeErr st))\<lparr>lv_main := Stopped e\<rparr>"

definition exitStatus :: "stop_error option \<Rightarrow> nat" where
  "exitStatus e = (if e = None then 0 else 1)"

definition shutdownGrace :: duration where "shutdownGrace = 15 * second"

text \<open>\<^verbatim>\<open>Shutdown\<close> first closes the listeners it knows, which is the one of a running \<^verbatim>\<open>Serve\<close>.\<close>

definition beginShutdown :: "bool \<Rightarrow> bool \<Rightarrow> serve_state \<Rightarrow> serve_state" where
  "beginShutdown closeErr removeErr st =
     (case (if lv_serve st = Accepting then serverClose closeErr removeErr st else (None, st)) of
        (lnerr, st') \<Rightarrow> st'\<lparr>lv_shutdown := True, lv_main := ShuttingDown (lv_now st + shutdownGrace) lnerr\<rparr>)"

subsection \<open>Steps\<close>

datatype life_event = Program | Failure | Signal | Connection | Tick duration | Successor

definition alive :: "serve_state \<Rightarrow> bool" where
  "alive st = (case lv_main st of Stopped _ \<Rightarrow> False | _ \<Rightarrow> True)"

text \<open>
  The program steps are those of the two goroutines; the others are a listener that fails, the signal, connections that come and go, the clock,
  and another broker that starts on the same path. \<^verbatim>\<open>Serve\<close> answers \<^verbatim>\<open>ErrServerClosed\<close> once the server shuts down, which is reported as
  \<^verbatim>\<open>nil\<close>. When both channels of the \<^verbatim>\<open>select\<close> are ready either may be taken. \<open>ce\<close> and \<open>re\<close> are the faults a close may meet.
\<close>

inductive life_step :: "serve_state \<Rightarrow> life_event \<Rightarrow> serve_state \<Rightarrow> bool" where
  start: "alive st \<Longrightarrow> lv_serve st = Starting \<Longrightarrow> \<not> lv_shutdown st \<Longrightarrow> life_step st Program (st\<lparr>lv_serve := Accepting\<rparr>)"
| start_closed: "alive st \<Longrightarrow> lv_serve st = Starting \<Longrightarrow> lv_shutdown st \<Longrightarrow> life_step st Program (report ce re None st)"
| serve_closed: "alive st \<Longrightarrow> lv_serve st = Accepting \<Longrightarrow> lv_shutdown st \<Longrightarrow> life_step st Program (report ce re None st)"
| select_error: "lv_main st = Selecting \<Longrightarrow> lv_errch st = e # es \<Longrightarrow> life_step st Program (serveReturn ce re e (st\<lparr>lv_errch := es\<rparr>))"
| select_signal: "lv_main st = Selecting \<Longrightarrow> lv_signalled st \<Longrightarrow> life_step st Program (beginShutdown ce re st)"
| drained: "lv_main st = ShuttingDown deadline None \<Longrightarrow> lv_active st = 0 \<Longrightarrow> life_step st Program (st\<lparr>lv_main := Receiving\<rparr>)"
| drained_error: "lv_main st = ShuttingDown deadline (Some e) \<Longrightarrow> lv_active st = 0 \<Longrightarrow>
    life_step st Program (serveReturn ce re (Some (GracefulShutdown (ListenerClose e))) st)"
| timed_out: "lv_main st = ShuttingDown deadline lnerr \<Longrightarrow> deadline \<le> lv_now st \<Longrightarrow>
    life_step st Program (serveReturn ce re (Some (GracefulShutdown DeadlineExceeded)) st)"
| receive: "lv_main st = Receiving \<Longrightarrow> lv_errch st = e # es \<Longrightarrow> life_step st Program (serveReturn ce re e (st\<lparr>lv_errch := es\<rparr>))"
| listen_failed: "alive st \<Longrightarrow> lv_serve st = Starting \<Longrightarrow> lv_socket st = None \<Longrightarrow> \<not> lv_shutdown st \<Longrightarrow>
    life_step st Failure (report ce re (Some (ServeError msg)) st)"
| accept_failed: "alive st \<Longrightarrow> lv_serve st = Accepting \<Longrightarrow> \<not> lv_shutdown st \<Longrightarrow>
    life_step st Failure (report ce re (Some (ServeError msg)) st)"
| signal: "life_step st Signal (st\<lparr>lv_signalled := True\<rparr>)"
| accept: "alive st \<Longrightarrow> lv_serve st = Accepting \<Longrightarrow> \<not> lv_shutdown st \<Longrightarrow> life_step st Connection (st\<lparr>lv_active := lv_active st + 1\<rparr>)"
| finish: "alive st \<Longrightarrow> 0 < lv_active st \<Longrightarrow> life_step st Connection (st\<lparr>lv_active := lv_active st - 1\<rparr>)"
| tick: "0 < d \<Longrightarrow> life_step st (Tick d) (st\<lparr>lv_now := lv_now st + d\<rparr>)"
| successor: "lv_socket st = Some sk \<Longrightarrow> listenUnix None (sk\<lparr>sk_bound := False\<rparr>) = (None, sk') \<Longrightarrow>
    life_step st Successor (st\<lparr>lv_socket := Some (sk'\<lparr>sk_bound := sk_bound sk\<rparr>)\<rparr>)"

subsection \<open>What the steps keep\<close>

lemma closePath_frame [simp]:
  "lv_main (snd (closePath ce re st)) = lv_main st" "lv_serve (snd (closePath ce re st)) = lv_serve st"
  "lv_errch (snd (closePath ce re st)) = lv_errch st" "lv_signalled (snd (closePath ce re st)) = lv_signalled st"
  "lv_shutdown (snd (closePath ce re st)) = lv_shutdown st" "lv_active (snd (closePath ce re st)) = lv_active st"
  "lv_now (snd (closePath ce re st)) = lv_now st"
  by (simp_all add: closePath_def split: option.split prod.split)

lemma serverClose_frame [simp]:
  "lv_main (snd (serverClose ce re st)) = lv_main st" "lv_serve (snd (serverClose ce re st)) = lv_serve st"
  "lv_errch (snd (serverClose ce re st)) = lv_errch st" "lv_signalled (snd (serverClose ce re st)) = lv_signalled st"
  "lv_shutdown (snd (serverClose ce re st)) = lv_shutdown st" "lv_active (snd (serverClose ce re st)) = lv_active st"
  "lv_now (snd (serverClose ce re st)) = lv_now st"
  by (simp_all add: serverClose_def)

lemma report_frame [simp]:
  "lv_main (report ce re e st) = lv_main st" "lv_serve (report ce re e st) = Ended" "lv_errch (report ce re e st) = lv_errch st @ [e]"
  "lv_signalled (report ce re e st) = lv_signalled st" "lv_shutdown (report ce re e st) = lv_shutdown st"
  "lv_active (report ce re e st) = lv_active st" "lv_now (report ce re e st) = lv_now st"
  by (simp_all add: report_def Let_def)

lemma serveReturn_frame [simp]:
  "lv_main (serveReturn ce re e st) = Stopped e" "lv_serve (serveReturn ce re e st) = lv_serve st" "lv_errch (serveReturn ce re e st) = lv_errch st"
  "lv_signalled (serveReturn ce re e st) = lv_signalled st" "lv_shutdown (serveReturn ce re e st) = lv_shutdown st"
  "lv_active (serveReturn ce re e st) = lv_active st" "lv_now (serveReturn ce re e st) = lv_now st"
  by (simp_all add: serveReturn_def)

lemma beginShutdown_frame [simp]:
  "\<exists>lnerr. lv_main (beginShutdown ce re st) = ShuttingDown (lv_now st + shutdownGrace) lnerr" "lv_serve (beginShutdown ce re st) = lv_serve st"
  "lv_errch (beginShutdown ce re st) = lv_errch st" "lv_signalled (beginShutdown ce re st) = lv_signalled st"
  "lv_shutdown (beginShutdown ce re st)" "lv_active (beginShutdown ce re st) = lv_active st" "lv_now (beginShutdown ce re st) = lv_now st"
  using serverClose_frame [of ce re st]
  by (auto simp: beginShutdown_def simp del: serverClose_frame split: prod.split)

definition life_inv :: "serve_state \<Rightarrow> bool" where
  "life_inv st \<longleftrightarrow>
     length (lv_errch st) \<le> 1 \<and> (lv_serve st \<noteq> Ended \<longrightarrow> lv_errch st = []) \<and> (None \<in> set (lv_errch st) \<longrightarrow> lv_shutdown st) \<and>
     (case lv_main st of
        Selecting \<Rightarrow> \<not> lv_shutdown st \<and> (lv_serve st = Ended \<longrightarrow> lv_errch st \<noteq> [])
      | ShuttingDown d _ \<Rightarrow> lv_shutdown st \<and> lv_signalled st \<and> d \<le> lv_now st + shutdownGrace \<and> (lv_serve st = Ended \<longrightarrow> lv_errch st \<noteq> [])
      | Receiving \<Rightarrow> lv_shutdown st \<and> lv_signalled st \<and> lv_active st = 0 \<and> (lv_serve st = Ended \<longrightarrow> lv_errch st \<noteq> [])
      | Stopped e \<Rightarrow> e = None \<longrightarrow> lv_signalled st \<and> lv_active st = 0 \<and> lv_serve st = Ended)"

lemma life_inv_serving: "life_inv (serving now sock)"
  by (simp add: life_inv_def serving_def)

lemma life_inv_step:
  assumes "life_step st ev st'" "life_inv st"
  shows "life_inv st'"
  using assms
proof cases
  case (select_signal ce re)
  obtain lnerr where "lv_main (beginShutdown ce re st) = ShuttingDown (lv_now st + shutdownGrace) lnerr" using beginShutdown_frame(1) by blast
  with select_signal assms(2) show ?thesis by (auto simp: life_inv_def)
qed (auto simp: life_inv_def alive_def split: main_phase.splits)

text \<open>How many steps the two goroutines have left at most.\<close>

definition steps_left :: "serve_state \<Rightarrow> nat" where
  "steps_left st =
     (case lv_main st of Selecting \<Rightarrow> 3 | ShuttingDown _ _ \<Rightarrow> 2 | Receiving \<Rightarrow> 1 | Stopped _ \<Rightarrow> 0) +
     (case lv_serve st of Starting \<Rightarrow> 2 | Accepting \<Rightarrow> 1 | Ended \<Rightarrow> 0)"

lemma steps_left_step:
  assumes "life_step st ev st'"
  shows "(if ev = Program then steps_left st' < steps_left st else steps_left st' \<le> steps_left st)"
  using assms
proof cases
  case (select_signal ce re)
  obtain lnerr where "lv_main (beginShutdown ce re st) = ShuttingDown (lv_now st + shutdownGrace) lnerr" using beginShutdown_frame(1) by blast
  with select_signal show ?thesis by (simp add: steps_left_def)
qed (auto simp: steps_left_def)

lemma program_steps_bounded:
  "steps life_step st es st' \<Longrightarrow> length (filter (\<lambda>e. e = Program) es) + steps_left st' \<le> steps_left st"
  by (induction rule: steps.induct) (auto dest!: steps_left_step split: if_splits)

lemma life_run_inv: "steps life_step st es st' \<Longrightarrow> life_inv st \<Longrightarrow> life_inv st'"
  by (induction rule: steps.induct) (auto dest: life_inv_step)

text \<open>A process that was told to stop and cannot go on has stopped, or waits for connections within its time.\<close>

lemma stuck_when_stopped:
  assumes "life_inv st" "lv_signalled st" "\<nexists>st'. life_step st Program st'"
  shows "(\<exists>e. lv_main st = Stopped e) \<or>
    (\<exists>d lnerr. lv_main st = ShuttingDown d lnerr \<and> 0 < lv_active st \<and> lv_now st < d \<and> d \<le> lv_now st + shutdownGrace)"
proof (cases "lv_main st")
  case Selecting
  with assms(2,3) show ?thesis by (blast intro: life_step.select_signal)
next
  case (ShuttingDown d lnerr)
  then have "0 < lv_active st" using assms(3) by (cases lnerr) (auto intro: life_step.drained life_step.drained_error)
  moreover have "lv_now st < d" using assms(3) ShuttingDown by (meson life_step.timed_out not_less)
  ultimately show ?thesis using ShuttingDown assms(1) by (simp add: life_inv_def)
next
  case Receiving
  then have st: "alive st" "lv_shutdown st" using assms(1) by (simp_all add: alive_def life_inv_def)
  show ?thesis
  proof (cases "lv_serve st")
    case Starting
    with st assms(3) show ?thesis by (blast intro: life_step.start_closed)
  next
    case Accepting
    with st assms(3) show ?thesis by (blast intro: life_step.serve_closed)
  next
    case Ended
    with Receiving assms(1) obtain e es where "lv_errch st = e # es" by (cases "lv_errch st") (auto simp: life_inv_def)
    with Receiving assms(3) show ?thesis by (blast intro: life_step.receive)
  qed
qed simp

text \<open>
  C10. A process that is told to stop stops, and a successful exit cuts off nobody. In every run from the start of serving - signals, connections,
  failures of the listener and the clock interleaved in any way - the goroutines take at most five steps and the channel never holds more than
  one value, so the send never blocks; whenever the signal has arrived and no further step is possible, the process has exited or is inside
  \<^verbatim>\<open>Shutdown\<close>, waiting for an open connection, at most 15 seconds before its deadline; and if it ends with status 0 then it was told to stop and
  every connection had finished.
\<close>

theorem signalled_process_stops:
  assumes "steps life_step (serving now sock) es st"
  shows "length (filter (\<lambda>e. e = Program) es) \<le> 5 \<and> length (lv_errch st) \<le> 1 \<and>
    (lv_signalled st \<longrightarrow> (\<nexists>st'. life_step st Program st') \<longrightarrow>
      (\<exists>e. lv_main st = Stopped e) \<or>
      (\<exists>d lnerr. lv_main st = ShuttingDown d lnerr \<and> 0 < lv_active st \<and> lv_now st < d \<and> d \<le> lv_now st + shutdownGrace)) \<and>
    (\<forall>e. lv_main st = Stopped e \<and> exitStatus e = 0 \<longrightarrow> lv_signalled st \<and> lv_active st = 0 \<and> lv_serve st = Ended)"
proof -
  have inv: "life_inv st" using life_run_inv [OF assms life_inv_serving] .
  moreover from program_steps_bounded [OF assms] have "length (filter (\<lambda>e. e = Program) es) \<le> 5" by (simp add: steps_left_def serving_def)
  moreover have "lv_signalled st \<and> lv_active st = 0 \<and> lv_serve st = Ended" if "lv_main st = Stopped e" "exitStatus e = 0" for e
    using inv that by (simp add: life_inv_def exitStatus_def split: if_splits)
  ultimately show ?thesis using stuck_when_stopped [OF inv] by (simp add: life_inv_def)
qed

subsection \<open>A successor on the same path\<close>

definition liveSocket :: "bool \<Rightarrow> socket_state" where
  "liveSocket bound = \<lparr>sk_entry = LiveSocket, sk_mode = 0x1B0, sk_bound = bound\<rparr>"

lemmas close_simps = closePath_def serverClose_def closeListener_def Let_def

lemma stop_run:
  "\<exists>st. steps life_step (serving now (Some (liveSocket True))) [Program, Signal, Program] st \<and>
     st = \<lparr>lv_main = ShuttingDown (now + shutdownGrace) None, lv_serve = Accepting, lv_errch = [], lv_signalled = True, lv_shutdown = True,
       lv_active = 0, lv_now = now, lv_socket = Some ((liveSocket False)\<lparr>sk_entry := NoEntry\<rparr>), lv_listener_closed = True\<rparr>"
proof -
  let ?s0 = "serving now (Some (liveSocket True))"
  let ?s1 = "?s0\<lparr>lv_serve := Accepting\<rparr>"
  let ?s2 = "?s1\<lparr>lv_signalled := True\<rparr>"
  have "life_step ?s0 Program ?s1" by (rule life_step.start) (simp_all add: serving_def alive_def)
  moreover have "life_step ?s1 Signal ?s2" by (rule life_step.signal)
  moreover have "life_step ?s2 Program (beginShutdown False False ?s2)" by (rule life_step.select_signal) (simp_all add: serving_def)
  ultimately show ?thesis
    by (intro exI [of _ "beginShutdown False False ?s2"])
       (auto simp: beginShutdown_def close_simps serving_def liveSocket_def intro: steps.intros)
qed

lemma stop_run_ends:
  assumes "lv_main st = ShuttingDown d None" "lv_serve st = Accepting" "lv_errch st = []" "lv_shutdown st" "lv_active st = 0"
    and "lv_socket st = Some sk" "lv_listener_closed st"
  shows "\<exists>st'. steps life_step st [Program, Program, Program] st' \<and> lv_main st' = Stopped None \<and>
    lv_socket st' = Some (sk\<lparr>sk_bound := False, sk_entry := NoEntry\<rparr>)"
proof -
  let ?s1 = "report False False None st"
  let ?s2 = "?s1\<lparr>lv_main := Receiving\<rparr>"
  let ?s3 = "serveReturn False False None (?s2\<lparr>lv_errch := []\<rparr>)"
  have "life_step st Program ?s1" using assms by (intro life_step.serve_closed) (simp_all add: alive_def)
  moreover have "life_step ?s1 Program ?s2" using assms by (intro life_step.drained) simp_all
  moreover have "life_step ?s2 Program ?s3" using assms by (intro life_step.receive) simp_all
  ultimately have "steps life_step st [Program, Program, Program] ?s3" by (auto intro: steps.intros)
  moreover have "lv_socket ?s3 = Some (sk\<lparr>sk_bound := False, sk_entry := NoEntry\<rparr>)"
    using assms(6,7) by (simp add: serveReturn_def report_def close_simps)
  ultimately show ?thesis by auto
qed

text \<open>
  C12. A broker that stops takes the socket of its successor away. There is a run in which a broker is told to stop and closes its listener, another
  broker finds the path free and listens on it, and then the first one exits with status 0: its deferred second \<^verbatim>\<open>Close\<close> removes the path, which by
  then is the socket of the other.
\<close>

theorem exit_unlinks_successor:
  "\<exists>st1 st2. steps life_step (serving now (Some (liveSocket True))) [Program, Signal, Program, Successor] st1 \<and>
     lv_socket st1 = Some (liveSocket False) \<and> steps life_step st1 [Program, Program, Program] st2 \<and>
     lv_main st2 = Stopped None \<and> map_option sk_entry (lv_socket st2) = Some NoEntry"
proof -
  obtain st where run: "steps life_step (serving now (Some (liveSocket True))) [Program, Signal, Program] st"
    and st: "st = \<lparr>lv_main = ShuttingDown (now + shutdownGrace) None, lv_serve = Accepting, lv_errch = [], lv_signalled = True, lv_shutdown = True,
       lv_active = 0, lv_now = now, lv_socket = Some ((liveSocket False)\<lparr>sk_entry := NoEntry\<rparr>), lv_listener_closed = True\<rparr>"
    using stop_run by blast
  let ?st1 = "st\<lparr>lv_socket := Some (liveSocket False)\<rparr>"
  have "life_step st Successor (st\<lparr>lv_socket := Some ((liveSocket False)\<lparr>sk_bound := False\<rparr>)\<rparr>)"
    using life_step.successor [of st "(liveSocket False)\<lparr>sk_entry := NoEntry\<rparr>" "liveSocket True"]
    by (simp add: st liveSocket_def listenUnix_def bindSocket_def)
  then have step: "life_step st Successor ?st1" by (simp add: liveSocket_def)
  have "steps life_step (serving now (Some (liveSocket True))) ([Program, Signal, Program] @ [Successor]) ?st1"
    by (rule steps_append [OF run]) (use step in \<open>auto intro: steps.intros\<close>)
  moreover obtain st2 where "steps life_step ?st1 [Program, Program, Program] st2" "lv_main st2 = Stopped None"
    "lv_socket st2 = Some ((liveSocket False)\<lparr>sk_bound := False, sk_entry := NoEntry\<rparr>)"
    using stop_run_ends [of ?st1 "now + shutdownGrace" "liveSocket False"] by (auto simp: st)
  ultimately show ?thesis by (intro exI [of _ ?st1] exI [of _ st2]) simp
qed

lemma full_stop_run:
  "\<exists>st. steps life_step (serving 0 (Some (liveSocket True))) [Program, Signal, Program, Program, Program, Program] st \<and> lv_main st = Stopped None"
proof -
  obtain st where run: "steps life_step (serving 0 (Some (liveSocket True))) [Program, Signal, Program] st"
    and st: "st = \<lparr>lv_main = ShuttingDown (0 + shutdownGrace) None, lv_serve = Accepting, lv_errch = [], lv_signalled = True, lv_shutdown = True,
       lv_active = 0, lv_now = 0, lv_socket = Some ((liveSocket False)\<lparr>sk_entry := NoEntry\<rparr>), lv_listener_closed = True\<rparr>"
    using stop_run by blast
  obtain st' where "steps life_step st [Program, Program, Program] st'" "lv_main st' = Stopped None"
    using stop_run_ends [of st "0 + shutdownGrace" "(liveSocket False)\<lparr>sk_entry := NoEntry\<rparr>"] by (auto simp: st)
  with steps_append [OF run] show ?thesis by fastforce
qed

theorem signalled_process_stops_witness:
  "\<exists>st. steps life_step (serving 0 (Some (liveSocket True))) [Program, Signal, Program, Program, Program, Program] st \<and>
     lv_main st = Stopped None \<and> lv_signalled st \<and> lv_active st = 0 \<and> lv_serve st = Ended"
proof -
  obtain st where run: "steps life_step (serving 0 (Some (liveSocket True))) [Program, Signal, Program, Program, Program, Program] st"
    and stop: "lv_main st = Stopped None" using full_stop_run by blast
  from signalled_process_stops [OF run] stop show ?thesis using run by (auto simp: exitStatus_def)
qed

end
