(* ===== verification/QC_System.thy ===== *)
theory QC_System
  imports QC_Public QC_Lifecycle
begin

text \<open>
  The two processes put together: the commands and the start of \<^verbatim>\<open>qcored\<close> and \<^verbatim>\<open>quantum-control\<close>
  (\<^verbatim>\<open>cmd/*/main.go\<close>), and the link between them, over which the client of the public service reaches the handlers of the
  broker. A start ends with the server and the state with which requests are then served; what follows until the exit is in \<^verbatim>\<open>QC_Lifecycle\<close>.
\<close>

subsection \<open>Starting the broker\<close>

datatype start_error =
    StartConfig config_error
  | StartPolicy policy_error
  | StartGrants grant_error
  | StartActors actor_error
  | StartEnable enable_error
  | StartListen listen_error
  | StartDependencies dependency_error

text \<open>The files a broker reads when it starts.\<close>

record broker_files =
  bf_token :: "string \<Rightarrow> string option"
  bf_policy :: "policy_file disk_file"
  bf_grants :: store_fs
  bf_actors :: "actor_registry disk_file"

definition loadBrokerActors :: "broker_config \<Rightarrow> broker_files \<Rightarrow> start_error + authenticator option" where
  "loadBrokerActors cfg files =
     (if bc_actor_file cfg = [] then Inr None
      else case loadActorRegistry (bf_actors files) of Inl e \<Rightarrow> Inl (StartActors e) | Inr a \<Rightarrow> Inr (Some a))"

definition loadMutationSecurity ::
  "broker_config \<Rightarrow> broker_files \<Rightarrow> start_error + (authenticator option \<times> grant_store \<times> policy)" where
  "loadMutationSecurity cfg files =
     (case loadPolicy (bc_service_policy_file cfg) (bf_policy files) of
        Inl e \<Rightarrow> Inl (StartPolicy e)
      | Inr p \<Rightarrow>
          (case openGrantStore (bc_grant_path cfg) (bc_grant_ttl cfg) (bf_grants files) of
             Inl e \<Rightarrow> Inl (StartGrants e)
           | Inr grants \<Rightarrow> bindE (loadBrokerActors cfg files) (\<lambda>actors. Inr (actors, grants, p))))"

text \<open>\<^verbatim>\<open>buildinfo\<close>: version, commit and build time, unless the linker replaces them.\<close>

definition buildinfo :: "string \<times> string \<times> string" where
  "buildinfo = (''0.3.0-alpha.1'', ''unknown'', ''unknown'')"

text \<open>What the compiled program and the operating system give: the host, \<^verbatim>\<open>regexp\<close>, \<^verbatim>\<open>%q\<close>, \<^verbatim>\<open>url.Parse\<close>, \<^verbatim>\<open>ParseDuration\<close>, the build.\<close>

record platform =
  pf_host :: host_env
  pf_lib :: go_lib
  pf_parse_url :: "string \<Rightarrow> parsed_url option"
  pf_duration :: "string \<Rightarrow> duration option"
  pf_build :: "string \<times> string \<times> string"

definition systemctl :: native where "systemctl = \<lparr>nat_binary = []\<rparr>"

definition brokerRegistry :: "platform \<Rightarrow> policy \<Rightarrow> duration \<Rightarrow> duration \<Rightarrow> start_error + registry" where
  "brokerRegistry pl p transactionTimeout pollInterval =
     (case enableServiceMutations (Some (nativeMutator systemctl (pf_host pl))) (Some (healthCheck (pf_parse_url pl) (pf_host pl))) p
             transactionTimeout pollInterval (newRegistry (nativeProbe (pf_host pl)) (pf_lib pl)) of
        (Some e, _) \<Rightarrow> Inl (StartEnable e)
      | (None, reg) \<Rightarrow> Inr reg)"

text \<open>\<^verbatim>\<open>NewServerWithSecurity\<close> of the broker; the grants of its boundary are part of the world it serves in.\<close>

definition newBrokerServer :: "registry \<Rightarrow> string \<Rightarrow> int \<Rightarrow> authenticator option \<Rightarrow> string \<Rightarrow> broker_server" where
  "newBrokerServer reg token bodyLimit actors version =
     \<lparr>srv_registry = reg, srv_token = token, srv_body_limit = bodyLimit, srv_actors = actors, srv_version = version\<rparr>"

definition startBroker ::
  "platform \<Rightarrow> environ \<Rightarrow> broker_files \<Rightarrow> listen_stage option \<Rightarrow> host \<Rightarrow> socket_state \<Rightarrow>
   (start_error + broker_server \<times> broker_world) \<times> socket_state" where
  "startBroker pl vars files fault h sock =
     (case loadBroker (pf_duration pl) vars (bf_token files) of
        Inl e \<Rightarrow> (Inl (StartConfig e), sock)
      | Inr cfg \<Rightarrow>
      case loadMutationSecurity cfg files of
        Inl e \<Rightarrow> (Inl e, sock)
      | Inr (actors, grants, p) \<Rightarrow>
      case brokerRegistry pl p (bc_transaction_timeout cfg) (bc_service_poll_interval cfg) of
        Inl e \<Rightarrow> (Inl e, sock)
      | Inr reg \<Rightarrow>
      case listenUnix fault sock of
        (Some e, sock') \<Rightarrow> (Inl (StartListen e), sock')
      | (None, sock') \<Rightarrow>
          (Inr (newBrokerServer reg (bc_broker_token cfg) (bc_body_limit cfg) actors (fst (pf_build pl)),
                \<lparr>bw_host = h, bw_grants = Some \<lparr>w_store = grants, w_fs = bf_grants files\<rparr>\<rparr>), sock'))"

text \<open>The commands of \<^verbatim>\<open>qcored\<close>.\<close>

datatype qcored_result =
    QVersion string
  | QConfigValid
  | QCatalog "operation_definition list"
  | QServing broker_server broker_world
  | QFailed start_error
  | QUnknownCommand string

definition firstCommand :: "string list \<Rightarrow> string" where
  "firstCommand args = (case args of [] \<Rightarrow> ''serve'' | command # _ \<Rightarrow> command)"

definition runQcored ::
  "platform \<Rightarrow> environ \<Rightarrow> broker_files \<Rightarrow> listen_stage option \<Rightarrow> host \<Rightarrow> socket_state \<Rightarrow> string list \<Rightarrow> qcored_result \<times> socket_state" where
  "runQcored pl vars files fault h sock args =
     (let command = firstCommand args in
      if command \<in> {''version'', ''--version'', ''-version''} then (QVersion (fst (pf_build pl)), sock)
      else if command = ''check-config'' then
        (case bindE (case loadBroker (pf_duration pl) vars (bf_token files) of Inl e \<Rightarrow> Inl (StartConfig e) | Inr cfg \<Rightarrow> Inr cfg)
                (\<lambda>cfg. loadMutationSecurity cfg files) of
           Inl e \<Rightarrow> QFailed e | Inr _ \<Rightarrow> QConfigValid, sock)
      else if command = ''catalog'' then
        (case brokerRegistry pl defaultPolicy (30 * second) (250 * millisecond) of Inl e \<Rightarrow> QFailed e | Inr reg \<Rightarrow> QCatalog (catalog reg), sock)
      else if command = ''serve'' then
        (case startBroker pl vars files fault h sock of
           (Inl e, sock') \<Rightarrow> (QFailed e, sock')
         | (Inr (srv, w), sock') \<Rightarrow> (QServing srv w, sock'))
      else (QUnknownCommand command, sock))"

subsection \<open>Starting the public service\<close>

record control_files =
  cf_token :: "string \<Rightarrow> string option"
  cf_actors :: "actor_registry disk_file"
  cf_audit :: audit_file

definition startControl ::
  "platform \<Rightarrow> environ \<Rightarrow> control_files \<Rightarrow> inv_service \<Rightarrow> 'w transport \<Rightarrow> json_codec \<Rightarrow> 'w \<Rightarrow>
   start_error + 'w control_server \<times> 'w control_world" where
  "startControl pl vars files scanner send codec w =
     (case loadControl (pf_duration pl) vars (cf_token files) of
        Inl e \<Rightarrow> Inl (StartConfig e)
      | Inr cfg \<Rightarrow>
          (case loadSecurityDependencies cfg (cf_actors files) (cf_audit files) of
             Inl e \<Rightarrow> Inl (StartDependencies e)
           | Inr deps \<Rightarrow> Inr (newServerWithSecurity (newClient send codec (cc_broker_token cfg)) cfg scanner (pf_build pl) deps w)))"

datatype 'w control_result =
    CVersion string
  | CConfigValid
  | CServing "'w control_server" "'w control_world"
  | CFailed start_error
  | CUnknownCommand string

definition runControl ::
  "platform \<Rightarrow> environ \<Rightarrow> control_files \<Rightarrow> inv_service \<Rightarrow> 'w transport \<Rightarrow> json_codec \<Rightarrow> 'w \<Rightarrow> string list \<Rightarrow> 'w control_result" where
  "runControl pl vars files scanner send codec w args =
     (let command = firstCommand args in
      if command \<in> {''version'', ''--version'', ''-version''} then CVersion (fst (pf_build pl))
      else if command = ''check-config'' then
        (case loadControl (pf_duration pl) vars (cf_token files) of
           Inl e \<Rightarrow> CFailed (StartConfig e)
         | Inr cfg \<Rightarrow>
             (case loadSecurityDependencies cfg (cf_actors files) (cf_audit files) of Inl e \<Rightarrow> CFailed (StartDependencies e) | Inr _ \<Rightarrow> CConfigValid))
      else if command = ''serve'' then
        (case startControl pl vars files scanner send codec w of Inl e \<Rightarrow> CFailed e | Inr (s, cw) \<Rightarrow> CServing s cw)
      else CUnknownCommand command)"

subsection \<open>The link\<close>

text \<open>How the multiplexer of the broker finds the handler, with the decoders that the handlers apply to the bytes of a body.\<close>

record body_decoders =
  bd_request :: "string \<Rightarrow> operation_request http_body"
  bd_confirmation :: "string \<Rightarrow> confirmation_envelope http_body"
  bd_approved :: "string \<Rightarrow> approved_execution_envelope http_body"

type_synonym broker_handler = "body_decoders \<Rightarrow> string \<Rightarrow> broker_call"

definition brokerMux :: "broker_handler mux_pattern list" where
  "brokerMux =
     [\<lparr>pt_method = ''GET'', pt_segs = [LitSeg ''healthz''], pt_handler = (\<lambda>_ _. CallHealth)\<rparr>,
      \<lparr>pt_method = ''GET'', pt_segs = [LitSeg ''v1'', LitSeg ''operations''], pt_handler = (\<lambda>_ _. CallCatalog)\<rparr>,
      \<lparr>pt_method = ''POST'', pt_segs = [LitSeg ''v1'', LitSeg ''plan''], pt_handler = (\<lambda>decs body. CallPlan (bd_request decs body))\<rparr>,
      \<lparr>pt_method = ''POST'', pt_segs = [LitSeg ''v1'', LitSeg ''execute''], pt_handler = (\<lambda>decs body. CallExecute (bd_request decs body))\<rparr>,
      \<lparr>pt_method = ''POST'', pt_segs = [LitSeg ''v1'', LitSeg ''confirm''], pt_handler = (\<lambda>decs body. CallConfirm (bd_confirmation decs body))\<rparr>,
      \<lparr>pt_method = ''POST'', pt_segs = [LitSeg ''v1'', LitSeg ''execute-approved''],
       pt_handler = (\<lambda>decs body. CallExecuteApproved (bd_approved decs body))\<rparr>]"

text \<open>The paths of the client need no escaping.\<close>

definition routeBroker :: "body_decoders \<Rightarrow> client_request \<Rightarrow> control_response + broker_call" where
  "routeBroker decs q =
     (case findHandler brokerMux (clr_method q) (clr_path q) (clr_path q) of
        MuxFound h _ \<Rightarrow> Inr (h decs (case clr_body q of None \<Rightarrow> [] | Some b \<Rightarrow> b))
      | res \<Rightarrow> Inl (muxAnswer res))"

definition brokerHeader :: "client_request \<Rightarrow> string" where
  "brokerHeader q = (case map_of (clr_headers q) ''X-Quantum-Broker-Token'' of None \<Rightarrow> [] | Some t \<Rightarrow> t)"

definition answerText :: "control_response \<Rightarrow> string" where
  "answerText a = (case ct_payload a of TextPayload t \<Rightarrow> t @ [CHR 0x0A] | _ \<Rightarrow> [])"

text \<open>
  One exchange over the socket, under the broker that serves it. The reply may be lost after the broker has acted; an unknown route is
  answered by the multiplexer.
\<close>

record link_env =
  le_host :: host_env
  le_server :: broker_server
  le_request :: request_env
  le_ctx :: go_context
  le_decode :: body_decoders
  le_encode :: "broker_payload \<Rightarrow> string"
  le_lost :: bool

definition linkRequest :: "link_env \<Rightarrow> client_request \<Rightarrow> broker_call \<Rightarrow> broker_request" where
  "linkRequest le q call = \<lparr>br_token = brokerHeader q, br_ctx = le_ctx le, br_call = call\<rparr>"

definition deliver :: "link_env \<Rightarrow> broker_world transport" where
  "deliver le q w =
     (case routeBroker (le_decode le) q of
        Inl a \<Rightarrow> (Some \<lparr>rp_status = ct_status a, rp_data = answerText a, rp_intact = True\<rparr>, w)
      | Inr call \<Rightarrow>
          (case serveBroker (le_host le) (le_server le) (le_request le) (linkRequest le q call) w of
             Returns (Some r, w') \<Rightarrow>
               (if le_lost le then None else Some \<lparr>rp_status = hs_status r, rp_data = le_encode le (hs_payload r), rp_intact = True\<rparr>, w')
           | Returns (None, w') \<Rightarrow> (None, w')
           | _ \<Rightarrow> (None, w)))"

subsection \<open>Clients of a link\<close>

definition approvedPath :: "string list" where "approvedPath = [''v1'', ''execute-approved'']"

text \<open>A world left alone, or changed by one request that is no approved execution.\<close>

definition harmless :: "(client_request \<Rightarrow> 'w \<Rightarrow> 'w \<Rightarrow> bool) \<Rightarrow> 'w \<Rightarrow> 'w \<Rightarrow> bool" where
  "harmless served w w' \<longleftrightarrow> w' = w \<or> (\<exists>q. segmentsOf (clr_path q) \<noteq> approvedPath \<and> served q w w')"

text \<open>The request with which the client submits an approved plan.\<close>

definition approvedRequest :: "string \<Rightarrow> string \<Rightarrow> client_request" where
  "approvedRequest token bytes = clientRequest token ''POST'' ''/v1/execute-approved'' (Some bytes) True"

lemma client_paths:
  "segmentsOf ''/healthz'' \<noteq> approvedPath" "segmentsOf ''/v1/operations'' \<noteq> approvedPath" "segmentsOf ''/v1/plan'' \<noteq> approvedPath"
  "segmentsOf ''/v1/execute'' \<noteq> approvedPath" "segmentsOf ''/v1/confirm'' \<noteq> approvedPath"
  by code_simp+

text \<open>
  What the public service needs of a transport: whatever it does to the world behind the socket is one request served
  there, or nothing.
\<close>

locale broker_link =
  fixes send :: "'w transport"
    and served :: "client_request \<Rightarrow> 'w \<Rightarrow> 'w \<Rightarrow> bool"
  assumes delivery: "send q w = (reply, w') \<Longrightarrow> w' = w \<or> served q w w'"
begin

lemma exchange:
  assumes "clientDo send token verb path input decode auth accepted w = (x, w')"
  shows "w' = w \<or> (input \<noteq> Some None \<and> served (clientRequest token verb path (Option.bind input id) auth) w w')"
  using assms by (auto simp: clientDo_def split: option.splits prod.splits dest!: delivery)

lemma clientDo_harmless:
  assumes "segmentsOf path \<noteq> approvedPath"
  shows "harmless served w (snd (clientDo send token verb path input decode auth accepted w))"
proof -
  have "segmentsOf (clr_path (clientRequest token verb path body auth)) \<noteq> approvedPath" for body
    using assms by (simp add: clientRequest_def)
  with exchange [OF surjective_pairing, of token verb path input decode auth accepted w] show ?thesis
    unfolding harmless_def by blast
qed

lemma client_harmless:
  "harmless served w (snd (clientHealth send codec token w))"
  "harmless served w (snd (clientCatalog send codec token w))"
  "harmless served w (snd (clientPlan send codec token r w))"
  "harmless served w (snd (clientExecute send codec token r w))"
  "harmless served w (snd (clientConfirm send codec token plan credential w))"
proof -
  have "harmless served w (snd (clientDo send token ''GET'' ''/healthz'' None (jd_object codec) False [200] w))"
    by (rule clientDo_harmless) (simp add: client_paths)
  then show "harmless served w (snd (clientHealth send codec token w))"
    by (auto simp: clientHealth_def split: prod.split sum.split)
qed (simp_all add: clientCatalog_def clientPlan_def clientExecute_def clientConfirm_def clientDo_harmless client_paths)

lemma client_approved:
  "w' = snd (clientExecuteApproved send codec token plan ctoken credential w) \<Longrightarrow>
   w' = w \<or> (\<exists>bytes. jc_approved codec \<lparr>ae_plan = plan, ae_confirmation_token = ctoken, ae_actor_token = credential\<rparr> = Some bytes \<and>
      served (approvedRequest token bytes) w w')"
  using exchange [OF surjective_pairing]
  by (cases "jc_approved codec \<lparr>ae_plan = plan, ae_confirmation_token = ctoken, ae_actor_token = credential\<rparr>")
     (fastforce simp: clientExecuteApproved_def approvedRequest_def)+

lemma public_request:
  assumes "serveHTTP s env q w = (r, w')" "cs_broker s = newClient send codec token"
  obtains (Harmless) "harmless served (cw_broker w) (cw_broker w')"
  | (Approved) a credential i plan ctoken bytes where
      "hq_method q = ''POST''" "segmentsOf (hq_escaped q) = [''v1'', ''operations'', ''execute-approved'']"
      "authenticateRequest s (hq_authorization q) = Some (a, credential)" "hasPermission a PermissionOperationMutate"
      "livePlans (cv_cache_now env) w i = Some plan"
      "jc_approved codec \<lparr>ae_plan = plan, ae_confirmation_token = ctoken, ae_actor_token = credential\<rparr> = Some bytes"
      "served (approvedRequest token bytes) (cw_broker w) (cw_broker w')"
proof -
  note new = newClient_def
  have same: "harmless served b b" for b by (simp add: harmless_def)
  from assms(1) show thesis
  proof (cases rule: serveHTTP_cases)
    case Answered
    then show thesis using same by (intro Harmless) simp
  next
    case (Served call)
    have sel: "cq_authorization (toControl q call) = hq_authorization q" "cq_call (toControl q call) = call" by (simp_all add: toControl_def)
    from Served(2) show thesis
    proof (cases rule: serveControl_cases)
      case Refused
      then show thesis using same by (intro Harmless) simp
    next
      case Ready
      then show thesis using client_harmless(1) assms(2) by (intro Harmless) (simp add: new)
    next
      case (Routed a credential session permission r0)
      note auth = Routed(1) [unfolded sel] and route = Routed(2,4) [unfolded sel]
      from guardedRoute_use [OF route(1) _ route(2)] Routed(3) consider "cw_broker w' = cw_broker w"
        | "broker_use (cs_broker s) (livePlans (cv_cache_now env) w) call a credential (cw_broker w) (cw_broker w')" by auto
      then show thesis
      proof cases
        case 1
        then show thesis using same by (intro Harmless) simp
      next
        case 2
        then show thesis
        proof (cases rule: broker_use.cases)
          case (use_approved body approval i plan ctoken)
          then have "cw_broker w' = snd (clientExecuteApproved send codec token plan ctoken credential (cw_broker w))"
            by (auto simp: assms(2) new)
          from client_approved [OF this] show thesis
            using same auth use_approved apiRoute_approved [of q body] Served(1) by (auto intro: Harmless Approved)
        qed (use client_harmless assms(2) in \<open>auto simp: new intro!: Harmless\<close>)
      qed
    qed
  qed
qed

end

subsection \<open>The link as a provider\<close>

definition delivered :: "link_env \<Rightarrow> client_request \<Rightarrow> broker_world \<Rightarrow> broker_world \<Rightarrow> bool" where
  "delivered le q w w' \<longleftrightarrow>
     (\<exists>call resp. routeBroker (le_decode le) q = Inr call \<and>
        serveBroker (le_host le) (le_server le) (le_request le) (linkRequest le q call) w = Returns (resp, w'))"

interpretation wire: broker_link "deliver le" "delivered le" for le
  by unfold_locales (auto simp: deliver_def delivered_def split: sum.splits option.splits outcome.splits prod.splits)

definition link_ok :: "link_env \<Rightarrow> bool" where
  "link_ok le \<longleftrightarrow> (\<exists>n parse p. native_registry (le_host le) n parse p (srv_registry (le_server le)) \<and> policy_ok p)"

lemma approvedRequest_route [simp]:
  "routeBroker decs (approvedRequest token bytes) = Inr (CallExecuteApproved (bd_approved decs bytes))"
  "brokerHeader (approvedRequest token bytes) = token"
proof -
  have p: "segmentsOf ''/v1/execute-approved'' = approvedPath" "cleanPath ''/v1/execute-approved'' = ''/v1/execute-approved''"
    by code_simp+
  have "\<not> slashRedirect brokerMux ''POST'' ''/v1/execute-approved''"
    by (rule no_slash_redirect) (simp_all add: brokerMux_def plain_pattern_def)
  moreover have "\<exists>pat. treeMatch brokerMux ''POST'' ''/v1/execute-approved'' = Some (pat, []) \<and>
      pt_handler pat = (\<lambda>decs body. CallExecuteApproved (bd_approved decs body))"
    by (simp add: treeMatch_def p approvedPath_def brokerMux_def methodNode_def)
  ultimately have "findHandler brokerMux ''POST'' ''/v1/execute-approved'' ''/v1/execute-approved'' =
      MuxFound (\<lambda>decs body. CallExecuteApproved (bd_approved decs body)) []"
    by (auto simp: findHandler_def p Let_def)
  then show "routeBroker decs (approvedRequest token bytes) = Inr (CallExecuteApproved (bd_approved decs bytes))"
    by (simp add: routeBroker_def approvedRequest_def clientRequest_def)
  show "brokerHeader (approvedRequest token bytes) = token"
    by (simp add: approvedRequest_def clientRequest_def brokerHeader_def)
qed

lemma route_approved: "routeBroker decs q = Inr (CallExecuteApproved body) \<Longrightarrow> segmentsOf (clr_path q) = approvedPath"
  by (auto simp: routeBroker_def approvedPath_def brokerMux_def split: mux_result.splits list.splits dest!: findHandler_sound)

lemma delivered_mutation:
  assumes "link_ok le" "delivered le q w w'" "mutations (bw_host w) (bw_host w') \<noteq> []"
  shows "\<exists>body envelope. routeBroker (le_decode le) q = Inr (CallExecuteApproved body) \<and>
    trimSpace (brokerHeader q) = srv_token (le_server le) \<and> approved_by (le_server le) (le_request le) body envelope w w'"
  using assms unfolding link_ok_def delivered_def
  by (metis (no_types, lifting) serve_mutation broker_request.select_convs(1,3) linkRequest_def)

lemma harmless_mutations:
  assumes "link_ok le" "harmless (delivered le) w w'"
  shows "mutations (bw_host w) (bw_host w') = []"
  using assms delivered_mutation [OF assms(1)] route_approved by (fastforce simp: harmless_def)

subsection \<open>Runs of the system\<close>

text \<open>
  A step of the two processes: the public service serves a request over a link to a running broker, or the broker takes a step of its own (a
  request from elsewhere, a restart of its store, time passing).
\<close>

inductive system_step :: "broker_world control_world \<Rightarrow> broker_world control_world \<Rightarrow> bool" where
  public: "link_ok le \<Longrightarrow> cs_broker s = newClient (deliver le) codec token \<Longrightarrow> serveHTTP s env q w = (r, w') \<Longrightarrow> system_step w w'"
| internal: "broker_step (cw_broker w) e b' \<Longrightarrow> system_step w (w\<lparr>cw_broker := b'\<rparr>)"

fun event_mutations :: "broker_event \<Rightarrow> host_call list" where
  "event_mutations (BServed token ms) = ms"
| "event_mutations _ = []"

lemma delivered_step:
  assumes "link_ok le" "delivered le q w w'"
  shows "\<exists>e. broker_step w e w'"
  using assms unfolding link_ok_def delivered_def by (metis broker_step.served)

lemma public_broker_step:
  assumes "link_ok le" "cs_broker s = newClient (deliver le) codec token" "serveHTTP s env q w = (r, w')"
  shows "cw_broker w' = cw_broker w \<or> (\<exists>e. broker_step (cw_broker w) e (cw_broker w'))"
  using assms(3,2)
  by (cases rule: wire.public_request) (auto simp: harmless_def dest: delivered_step [OF assms(1)])

lemma broker_step_calls:
  assumes "broker_step w e w'"
  shows "\<exists>cs. h_calls (bw_host w') = h_calls (bw_host w) @ cs \<and> event_mutations e = filter (\<lambda>c. \<not> native_observes c) cs"
  using assms
proof cases
  case (served env n parse p srv re req resp)
  from served(2-4) have "\<exists>cs. h_calls (bw_host w') = h_calls (bw_host w) @ cs"
  proof (cases rule: serve_cases)
    case Observed
    then show ?thesis by (auto simp: adds_def)
  next
    case Confirmed
    then show ?thesis by simp
  next
    case (Approved body)
    from served(2,3) Approved(3) show ?thesis by (cases rule: executeApproved_cases) auto
  qed
  with served(1) show ?thesis by (auto simp: mutations_def)
qed auto

lemma mutations_steps:
  assumes "steps broker_step w es w'"
  shows "mutations (bw_host w) (bw_host w') = concat (map event_mutations es) \<and> prefix (h_calls (bw_host w)) (h_calls (bw_host w'))"
  using assms
proof (induction rule: steps.induct)
  case (steps_cons w e w1 es w')
  from broker_step_calls [OF steps_cons.hyps(1)] obtain cs where
    "h_calls (bw_host w1) = h_calls (bw_host w) @ cs" "event_mutations e = filter (\<lambda>c. \<not> native_observes c) cs" by blast
  with steps_cons.IH show ?case by (auto simp: mutations_def prefix_def)
qed simp

lemma system_run_steps:
  "system_step\<^sup>*\<^sup>* w w' \<Longrightarrow> \<exists>es. steps broker_step (cw_broker w) es (cw_broker w')"
proof (induction rule: rtranclp_induct)
  case (step w1 w2)
  then obtain es where es: "steps broker_step (cw_broker w) es (cw_broker w1)" by blast
  from step.hyps(2) have "cw_broker w2 = cw_broker w1 \<or> (\<exists>e. broker_step (cw_broker w1) e (cw_broker w2))"
    by cases (auto dest: public_broker_step)
  then show ?case using es steps_append [OF es] by (metis steps.intros)
qed (auto intro: steps.intros)

subsection \<open>Starting\<close>

text \<open>What \<^verbatim>\<open>encoding/json\<close> decodes is valid UTF-8.\<close>

definition decoded_grants :: "store_fs \<Rightarrow> bool" where
  "decoded_grants fs \<longleftrightarrow> (case fs_target fs of FileContents n (Some st) \<Rightarrow> readState st = st | _ \<Rightarrow> True)"

lemma opened_grant_inv:
  assumes "openGrantStore path ttl fs = Inr s" "decoded_grants fs"
  shows "grant_inv \<lparr>w_store = s, w_fs = fs\<rparr>"
proof -
  from assms(1) obtain st where st: "loadStore (fs_target fs) \<lparr>gs_schema = grantStoreSchema, gs_grants = []\<rparr> = Inr st"
    and s: "store_data s = st" by (auto simp: openGrantStore_def split: if_splits sum.splits)
  have "on_disk (fs_target fs) st"
    using st assms(2) by (auto simp: loadStore_def on_disk_def decoded_grants_def split: disk_file.splits option.splits if_splits)
  from openGrantStore_on_disk [OF this assms(1)] s show ?thesis by (simp add: grant_inv_def)
qed

lemma brokerRegistry_native:
  "brokerRegistry pl p t i = Inr reg \<Longrightarrow> native_registry (pf_host pl) systemctl (pf_parse_url pl) p reg"
  by (auto simp: brokerRegistry_def native_registry_def enabled_registry_def split: prod.splits option.splits)

lemma listenUnix_cases:
  assumes "listenUnix fault sk = (e, sk')"
  shows "e = None \<longleftrightarrow> sk_entry sk \<in> {NoEntry, StaleSocket} \<and> fault \<notin> {Some ListenMkdir, Some ListenInspect, Some ListenBind, Some ListenChmod} \<and>
      \<not> (sk_entry sk = StaleSocket \<and> fault = Some ListenRemove)"
    and "e = None \<Longrightarrow> sk' = sk\<lparr>sk_entry := LiveSocket, sk_mode := 0x1B0, sk_bound := True\<rparr>"
    and "sk_entry sk \<noteq> StaleSocket \<Longrightarrow> e \<noteq> None \<Longrightarrow> sk' = sk"
  using assms by (cases "sk_entry sk"; auto simp: listenUnix_def bindSocket_def split: if_splits)+

text \<open>A broker that starts enters the life of \<^verbatim>\<open>QC_Lifecycle\<close> with a socket of its own.\<close>

lemma startBroker_socket:
  assumes "startBroker pl vars files fault h sock = (Inr sw, sock')"
  shows "sock' = liveSocket True"
proof -
  have "listenUnix fault sock = (None, sock')"
    using assms by (auto simp: startBroker_def split: sum.splits prod.splits option.splits)
  from listenUnix_cases(2) [OF this] show ?thesis by (cases sock) (simp add: liveSocket_def)
qed

lemma startBroker_cases:
  assumes "startBroker pl vars files fault h sock = (Inr (srv, w), sock')"
  obtains cfg p grants where "loadBroker (pf_duration pl) vars (bf_token files) = Inr cfg"
    "loadPolicy (bc_service_policy_file cfg) (bf_policy files) = Inr p"
    "openGrantStore (bc_grant_path cfg) (bc_grant_ttl cfg) (bf_grants files) = Inr grants"
    "brokerRegistry pl p (bc_transaction_timeout cfg) (bc_service_poll_interval cfg) = Inr (srv_registry srv)"
    "listenUnix fault sock = (None, sock')" "srv_token srv = bc_broker_token cfg"
    "w = \<lparr>bw_host = h, bw_grants = Some \<lparr>w_store = grants, w_fs = bf_grants files\<rparr>\<rparr>"
  using assms
  by (auto simp: startBroker_def newBrokerServer_def loadMutationSecurity_def bindE_Inr split: sum.splits prod.splits option.splits)

text \<open>Once its configuration and security state load, a broker that finds its socket free starts.\<close>

lemma startBroker_succeeds:
  assumes "loadBroker (pf_duration pl) vars (bf_token files) = Inr cfg" "loadMutationSecurity cfg files = Inr x"
    and "sk_entry sock \<in> {NoEntry, StaleSocket}"
  shows "\<exists>srv w sock'. startBroker pl vars files None h sock = (Inr (srv, w), sock')"
proof -
  obtain actors grants p where x: "x = (actors, grants, p)" by (metis prod_cases3)
  have "enable_ok (Some (nativeMutator systemctl (pf_host pl))) (Some (healthCheck (pf_parse_url pl) (pf_host pl)))
      (bc_transaction_timeout cfg) (bc_service_poll_interval cfg)"
    using loadBroker_valid [OF assms(1)] by (auto simp: validateBroker_def enable_ok_def split: if_splits)
  from enable_cases(2) [OF this, of p "newRegistry (nativeProbe (pf_host pl)) (pf_lib pl)"] obtain reg where
    "brokerRegistry pl p (bc_transaction_timeout cfg) (bc_service_poll_interval cfg) = Inr reg"
    by (auto simp: brokerRegistry_def)
  moreover obtain sock' where "listenUnix None sock = (None, sock')"
    using listenUnix_cases(1) [of None sock] assms(3) by (metis empty_iff insert_iff option.distinct(1) surj_pair)
  ultimately show ?thesis using assms(1,2) x by (simp add: startBroker_def)
qed

end
