(* ===== verification/Spec2Isabelle.thy ===== *)
theory Spec2Isabelle
  imports QC_System
begin

text \<open>
  Quantum Control: a verification development.

  The program is two processes. \<^verbatim>\<open>quantum-control\<close> is an unprivileged HTTP service: it authenticates actors, checks
  their permissions, builds immutable operation plans, keeps them in an expiring cache, writes a hash-chained audit log, reports
  a read-only component inventory, and forwards operations to the broker. \<^verbatim>\<open>qcored\<close> is the privileged broker behind a Unix
  socket: it publishes a closed table of typed operations, revalidates every plan, issues and consumes single-use
  confirmation grants, and runs service transactions through \<^verbatim>\<open>systemctl\<close>. All strings are byte strings, all
  instants nanoseconds since the Go zero time, errors are values of a sum or option type.

  \<^bold>\<open>Foundations.\<close>
  \<^item> \<^verbatim>\<open>QC_Prelude\<close>, \<^verbatim>\<open>QC_Text\<close>, \<^verbatim>\<open>QC_Time\<close>, \<^verbatim>\<open>QC_Json\<close>, \<^verbatim>\<open>QC_Sha256\<close>, \<^verbatim>\<open>QC_Net\<close>: what the code uses of the Go language and
    its standard library (\<^verbatim>\<open>strings\<close>, \<^verbatim>\<open>hex\<close>, \<^verbatim>\<open>utf8\<close>, RFC 3339 times, the JSON encoder, SHA-256 on 32-bit words, addresses).
    SHA-256 is evaluated on the test vector of its standard. The JSON encoder and the time format are shown injective on the values the digests cover, so that digests bind content up to SHA-256 collisions.
  \<^item> \<^verbatim>\<open>QC_Http\<close>: the multiplexer of \<^verbatim>\<open>net/http\<close> (path cleaning, patterns and their precedence, redirects, 404 and 405), which finds a registered
    pattern that covers the path exactly when there is one; the response writer and the recorder around it.
  \<^item> \<^verbatim>\<open>QC_Host\<close>: contexts with deadlines, child processes, HTTP requests, tickers and \<^verbatim>\<open>select\<close>, over an environment that answers each
    interaction arbitrarily.

  \<^bold>\<open>Components\<close>, in the order in which they build on each other:
  \<^item> \<^verbatim>\<open>QC_Actors\<close> (\<^verbatim>\<open>internal/security/auth.go\<close>, \<^verbatim>\<open>types.go\<close>): roles, normalisation, registry, bearer tokens. Permissions are
    derived from roles only, AI identities never obtain a deciding permission. Locale \<open>actor_source\<close>, interpreted on \<open>authenticateBearer\<close>.
  \<^item> \<^verbatim>\<open>QC_Plans\<close> (\<^verbatim>\<open>plan.go\<close>, \<^verbatim>\<open>internal/protocol\<close>): plans, digests, cache. Locale \<open>expiring_store\<close>, interpreted on the cache.
  \<^item> \<^verbatim>\<open>QC_Grants\<close> (\<^verbatim>\<open>grants.go\<close>): issue, consume, persistence stage by stage, crashes and restarts as steps. Locale \<open>single_use\<close>,
    interpreted on the store, later on the whole broker.
  \<^item> \<^verbatim>\<open>QC_AuditLog\<close> (\<^verbatim>\<open>audit.go\<close>): append, chain, loading, query, redaction, three ways in which a log becomes unreadable,
    and one in which an appended record is lost. The file is modelled down to the bytes after its last newline, since bytes appended to an
    unterminated line continue it and the decoder ignores what follows the first value of a line.
  \<^item> \<^verbatim>\<open>QC_Probe\<close> (\<^verbatim>\<open>internal/systemprobe\<close>), \<^verbatim>\<open>QC_ServicePolicy\<close> (\<^verbatim>\<open>internal/servicecontrol\<close>): probes, the compiled services and the
    policy that can only narrow them, the \<^verbatim>\<open>systemctl\<close> adapter, the health check.
  \<^item> \<^verbatim>\<open>QC_Registry\<close> (\<^verbatim>\<open>internal/broker/registry.go\<close>, part of \<^verbatim>\<open>mutations.go\<close>): table, catalog, validation. Locale \<open>service_interfaces\<close>
    for probe, mutator and health checker, interpreted on the native adapters.
  \<^item> \<^verbatim>\<open>QC_Transactions\<close> (\<^verbatim>\<open>mutations.go\<close>): the service transaction with its polling loop and recovery, revalidation and execution of approved plans.
  \<^item> \<^verbatim>\<open>QC_Broker\<close> (\<^verbatim>\<open>internal/broker/server.go\<close>, \<^verbatim>\<open>approval.go\<close>): the handlers of the broker, its runs, no replay.
  \<^item> \<^verbatim>\<open>QC_Config\<close> (\<^verbatim>\<open>internal/config\<close>), \<^verbatim>\<open>QC_Inventory\<close> (\<^verbatim>\<open>internal/inventory\<close>): validated configurations; the scan of a component equals a
    description of its evidence without loops, snapshots agree with lookups.
  \<^item> \<^verbatim>\<open>QC_Client\<close> (\<^verbatim>\<open>internal/broker/client.go\<close>, \<^verbatim>\<open>listener.go\<close>): the broker interface, its HTTP client, the socket.
  \<^item> \<^verbatim>\<open>QC_Control\<close> (\<^verbatim>\<open>internal/control\<close>): dependencies, permissions, every route. A request reaches the broker only as the permissions of
    its actor allow, the cache and the audit chain stay sound, a failing audit store stops nothing.
  \<^item> \<^verbatim>\<open>QC_Public\<close> (\<^verbatim>\<open>Handler\<close>, \<^verbatim>\<open>ServeHTTP\<close>, \<^verbatim>\<open>logRequests\<close> of \<^verbatim>\<open>internal/control\<close>): the patterns in front of the routes. Routing equals a table of paths,
    a request without a credential reaches nothing that is guarded, the logged status is the one sent.
  \<^item> \<^verbatim>\<open>QC_Lifecycle\<close> (\<^verbatim>\<open>serve\<close> and \<^verbatim>\<open>main\<close> of both commands): server settings; the serving goroutine, its channel, signals, graceful shutdown and the socket
    as a step relation. A process told to stop stops, a successful exit cuts off nobody, and a late close can take a successor's socket away.
  \<^item> \<^verbatim>\<open>QC_System\<close> (\<^verbatim>\<open>cmd/qcored\<close>, \<^verbatim>\<open>cmd/quantum-control\<close>, \<^verbatim>\<open>buildinfo\<close>): the start of both processes and the link between them. Locale \<open>broker_link\<close> states
    what the public service needs of a transport, interpreted on the delivery of requests to the handlers of the broker.
  \<^item> This theory: properties that span both processes. What starts a privileged process is authorised from end to end, a run of the system
    refines a run of the broker, and a broker that starts satisfies the hypotheses of all of them.

  \<^bold>\<open>Loops and bounds.\<close> The polling loop of a transaction is a \<^verbatim>\<open>partial_function\<close> into options, proved to return on every host because each
  probe or tick takes time and the deadline is finite; every other loop is structural or has a measure. Byte limits, lifetimes and timeouts are
  those of the sources. Sequence numbers of the audit log are 64-bit words.

  \<^bold>\<open>Parameters\<close> stand for library code that the model does not define: \<^verbatim>\<open>time.ParseDuration\<close>, \<^verbatim>\<open>url.Parse\<close>, \<^verbatim>\<open>regexp.Compile\<close> and \<^verbatim>\<open>%q\<close> for
  the patterns of the registry, \<^verbatim>\<open>strconv.ParseFloat\<close>, the JSON decoder on request bodies, replies and files, the random source, the clock,
  and the host.

  \<^bold>\<open>Not modelled.\<close> Log lines other than the one per public request; the parsing of HTTP messages and the connections themselves (in the life cycle they come and
  go as steps of the environment, and the timeouts of the servers are only recorded); the HTML body of a redirect; file permissions other than the mode of the
  socket; a child process that survives the kill at the deadline of its context (every call to the host takes a finite time); requests whose target is a lone asterisk,
  which \<^verbatim>\<open>net/http\<close> answers before routing; concurrency inside one process, whose shared state is guarded by mutexes: operations are atomic steps in any order. Constant-time comparison is equality. \<^verbatim>\<open>sort.Slice\<close> promises no order for
  equal keys; the model keeps the given one, which matters only for a plan with two parameters of the same name, which the broker refuses.
\<close>

subsection \<open>A mutation asked for by the public\<close>

text \<open>
  C1. End to end, a public request starts a privileged process only with the consent the design asks for. If serving an HTTP request to
  the public service, whose client is linked to a running broker, starts anything but probes on the host of the broker, then the request
  was a \<^verbatim>\<open>POST\<close> to the approved execution route; it authenticated an actor with the mutate permission; it named a plan that this service built, cached and has not seen
  expire; the client's token is the token of the broker; and the broker, from the bytes that the client
  made of the plan, the confirmation token and the credential of the actor, decoded an envelope whose executor it authenticated itself, revalidated
  its plan, consumed its grant, and ran the commands of that plan.
\<close>

theorem public_mutation_authorised:
  assumes "native_registry (le_host le) n parse p (srv_registry (le_server le))" "policy_ok p"
    and "serveHTTP s env q w = (r, w')" "cs_broker s = newClient (deliver le) codec token"
    and "mutations (bw_host (cw_broker w)) (bw_host (cw_broker w')) \<noteq> []"
  shows "\<exists>a credential i plan ctoken bytes envelope.
    hq_method q = ''POST'' \<and> segmentsOf (hq_escaped q) = [''v1'', ''operations'', ''execute-approved''] \<and>
    authenticateRequest s (hq_authorization q) = Some (a, credential) \<and> hasPermission a PermissionOperationMutate \<and>
    livePlans (cv_cache_now env) w i = Some plan \<and>
    jc_approved codec \<lparr>ae_plan = plan, ae_confirmation_token = ctoken, ae_actor_token = credential\<rparr> = Some bytes \<and>
    trimSpace token = srv_token (le_server le) \<and>
    approved_by (le_server le) (le_request le) (bd_approved (le_decode le) bytes) envelope (cw_broker w) (cw_broker w')"
proof -
  have ok: "link_ok le" using assms(1,2) by (auto simp: link_ok_def)
  from assms(3,4) show ?thesis
  proof (cases rule: wire.public_request)
    case Harmless
    with harmless_mutations [OF ok] assms(5) show ?thesis by simp
  next
    case (Approved a credential i plan ctoken bytes)
    from delivered_mutation [OF ok Approved(7) assms(5)] obtain envelope where "trimSpace token = srv_token (le_server le)"
      "approved_by (le_server le) (le_request le) (bd_approved (le_decode le) bytes) envelope (cw_broker w) (cw_broker w')" by auto
    with Approved(1-6) show ?thesis by blast
  qed
qed

text \<open>
  C2. The public service adds nothing to what the broker allows. Every run of the system, public requests interleaved with steps of
  the broker, is a run of the broker alone: each public request is at most one step of it. So the privileged calls of the
  whole run are exactly those of the broker's events, the tokens with which they were started have pairwise different
  digests, and the invariant of the broker holds at the end.
\<close>

theorem system_run_refines_broker:
  assumes "system_step\<^sup>*\<^sup>* w w'" "broker_inv (cw_broker w)"
  shows "\<exists>es. steps broker_step (cw_broker w) es (cw_broker w') \<and> broker_inv (cw_broker w') \<and>
    distinct (List.map_filter mutation_key es) \<and>
    mutations (bw_host (cw_broker w)) (bw_host (cw_broker w')) = concat (map event_mutations es)"
proof -
  from system_run_steps [OF assms(1)] obtain es where es: "steps broker_step (cw_broker w) es (cw_broker w')" by blast
  from broker_ledger.keys_used_once [OF es assms(2)] mutations_steps [OF es] es show ?thesis by blast
qed

text \<open>
  C9. A broker that starts is in the state the other properties ask for. When \<^verbatim>\<open>qcored serve\<close> gets as far as serving, its registry is
  the native one with the service operations enabled under a policy that only narrows the compiled services, its state satisfies the invariant
  of the broker, its token has at least 32 bytes, and it listens on a socket of mode 0660 where before was nothing or a stale socket.
\<close>

theorem broker_start_establishes:
  assumes "startBroker pl vars files fault h sock = (Inr (srv, w), sock')" "decoded_grants (bf_grants files)" "0 < h_clock h"
  shows "\<exists>p. native_registry (pf_host pl) systemctl (pf_parse_url pl) p (srv_registry srv) \<and> policy_ok p \<and> broker_inv w \<and>
    32 \<le> length (srv_token srv) \<and> sk_entry sock \<in> {NoEntry, StaleSocket} \<and> sk_entry sock' = LiveSocket \<and> sk_mode sock' = 0x1B0"
proof -
  from assms(1) obtain cfg p grants where cfg: "loadBroker (pf_duration pl) vars (bf_token files) = Inr cfg"
    and p: "loadPolicy (bc_service_policy_file cfg) (bf_policy files) = Inr p"
    and grants: "openGrantStore (bc_grant_path cfg) (bc_grant_ttl cfg) (bf_grants files) = Inr grants"
    and reg: "brokerRegistry pl p (bc_transaction_timeout cfg) (bc_service_poll_interval cfg) = Inr (srv_registry srv)"
    and sock: "listenUnix fault sock = (None, sock')" and token: "srv_token srv = bc_broker_token cfg"
    and w: "w = \<lparr>bw_host = h, bw_grants = Some \<lparr>w_store = grants, w_fs = bf_grants files\<rparr>\<rparr>"
    by (rule startBroker_cases)
  have "32 \<le> length (srv_token srv)" using loadBroker_valid [OF cfg] token by (simp add: validateBroker_def split: if_splits)
  moreover have "broker_inv w" using opened_grant_inv [OF grants assms(2)] assms(3) by (simp add: broker_inv_def w)
  ultimately show ?thesis
    using brokerRegistry_native [OF reg] loadPolicy_ok [OF p] listenUnix_cases(1,2) [OF sock] by auto
qed

subsection \<open>A run of the system\<close>

text \<open>The public service of a deployment whose broker is the one of \<^verbatim>\<open>QC_Broker\<close>: an executor has a confirmed plan executed.\<close>

definition demoEnvelope :: approved_execution_envelope where
  "demoEnvelope = \<lparr>ae_plan = demoPlan ''service.start'', ae_confirmation_token = exampleToken, ae_actor_token = ''secret''\<rparr>"

definition demoCodec :: json_codec where
  "demoCodec = \<lparr>jc_request = (\<lambda>_. None), jc_confirmation = (\<lambda>_. None),
     jc_approved = (\<lambda>e. if e = demoEnvelope then Some ''{}'' else None), jd_object = (\<lambda>_. None), jd_catalog = (\<lambda>_. None),
     jd_plan = (\<lambda>_. None), jd_response = (\<lambda>_. None), jd_grant = (\<lambda>_. None)\<rparr>"

definition demoLink :: link_env where
  "demoLink = \<lparr>le_host = demoEnv ''active'' False, le_server = demoServer demoExecutor, le_request = demoRequestEnv, le_ctx = background,
     le_decode = \<lparr>bd_request = (\<lambda>_. demoBody \<lparr>req_id = [], req_action = [], req_actor = [], req_parameters = [], req_confirmation = []\<rparr>),
       bd_confirmation = (\<lambda>_. demoBody \<lparr>ce_plan = demoPlan ''service.start'', ce_actor_token = []\<rparr>), bd_approved = (\<lambda>_. demoBody demoEnvelope)\<rparr>,
     le_encode = (\<lambda>_. []), le_lost = False\<rparr>"

lemma demoLink_sel [simp]:
  "le_host demoLink = demoEnv ''active'' False" "le_server demoLink = demoServer demoExecutor" "le_request demoLink = demoRequestEnv"
  "le_ctx demoLink = background" "bd_approved (le_decode demoLink) bytes = demoBody demoEnvelope"
  by (simp_all add: demoLink_def)

definition demoPublic :: "broker_world control_server" where
  "demoPublic = \<lparr>cs_broker = newClient (deliver demoLink) demoCodec ''broker'', cs_cfg = demoControl,
     cs_authenticator = Some (RegistryAuthenticator (Some [\<lparr>cred_actor = demoExecutor, token_sha256 = hexEncode (sha256 ''secret'')\<rparr>])),
     cs_plan_ttl = 5 * minute, cs_scanner = exampleScanner, cs_build = (''v1'', ''c'', ''t'')\<rparr>"

definition demoState :: "broker_world control_world" where
  "demoState = \<lparr>cw_plans = Some [(''plan-1'', demoPlan ''service.start'')], cw_audit = None,
     cw_broker = \<lparr>bw_host = demoHost, bw_grants = Some demoIssued\<rparr>\<rparr>"

definition demoPublicEnv :: control_env where
  "demoPublicEnv = exampleControlEnv\<lparr>cv_cache_now := 63800000000 * second\<rparr>"

definition demoHttpRequest :: http_request where
  "demoHttpRequest = (exampleHttpRequest ''POST'' ''/v1/operations/execute-approved'')\<lparr>hq_authorization := ''Bearer secret'',
     hq_approved := \<lparr>cb_length = 120, cb_decode = (\<lambda>_. Decoded \<lparr>aer_plan_id = ''plan-1'', aer_confirmation_token = exampleToken\<rparr>),
       cb_only = True\<rparr>\<rparr>"

definition demoPublicRequest :: control_request where
  "demoPublicRequest = toControl demoHttpRequest (CtlApproved (hq_approved demoHttpRequest))"

lemma demo_routed: "serveHTTP demoPublic env demoHttpRequest w = serveControl demoPublic env demoPublicRequest w"
proof -
  have p: "segmentsOf ''/v1/operations/execute-approved'' = [''v1'', ''operations'', ''execute-approved'']"
    "cleanPath ''/v1/operations/execute-approved'' = ''/v1/operations/execute-approved''" by code_simp+
  then have "apiRoute demoHttpRequest = Inr (CtlApproved (hq_approved demoHttpRequest))"
    by (simp add: apiRoute_def demoHttpRequest_def exampleHttpRequest_def inventoryRequest_def postCall_def Let_def)
  then show ?thesis using serveHTTP_route [of demoHttpRequest demoPublic env w] p
    by (simp add: demoPublicRequest_def demoHttpRequest_def exampleHttpRequest_def)
qed

lemma demo_public_accepted:
  "accepts_approved demoPublic demoPublicEnv demoPublicRequest demoState
     \<lparr>api_confirm = clientConfirm (deliver demoLink) demoCodec ''broker'', api_execute_approved = clientExecuteApproved (deliver demoLink) demoCodec ''broker''\<rparr>
     (demoPlan ''service.start'') exampleToken ''secret''"
proof -
  have "prefix ''Bearer '' ''Bearer secret''" "trimPrefix ''Bearer secret'' ''Bearer '' = ''secret''" by code_simp+
  then have "authenticateRequest demoPublic ''Bearer secret'' = Some (demoExecutor, ''secret'')"
    using demo_trims by (simp add: authenticateRequest_def demoPublic_def)
  moreover have "trimSpace ''plan-1'' = ''plan-1''" "trimSpace exampleToken = exampleToken" "exampleToken \<noteq> []" "length exampleToken \<le> 512"
    by (code_simp, simp_all add: exampleToken_def)
  moreover have "livePlans (cv_cache_now demoPublicEnv) demoState ''plan-1'' = Some (demoPlan ''service.start'')"
    by (simp add: livePlans_def demoState_def demoPublicEnv_def purgeExpired_def demoPlan_def Let_def duration_defs)
  moreover have "hasPermission demoExecutor PermissionOperationMutate" by (simp add: demoExecutor_def)
  ultimately show ?thesis unfolding accepts_approved_def
    by (simp add: demoPublicRequest_def toControl_def demoHttpRequest_def exampleHttpRequest_def) (simp add: demoPublic_def newClient_def demoControl_def defaultBodyLimit_def)
qed

lemma demo_public_run:
  obtains r w' where "serveHTTP demoPublic demoPublicEnv demoHttpRequest demoState = (r, w')"
    "mutations (bw_host (cw_broker demoState)) (bw_host (cw_broker w')) \<noteq> []"
proof -
  obtain resp b' where run: "serveBroker (demoEnv ''active'' False) (demoServer demoExecutor) demoRequestEnv executeRequest
      \<lparr>bw_host = demoHost, bw_grants = Some demoIssued\<rparr> = Returns (resp, b')" and mut: "mutations demoHost (bw_host b') \<noteq> []"
    by (rule demo_execute)
  obtain r w' where sc: "serveControl demoPublic demoPublicEnv demoPublicRequest demoState = (r, w')" by fastforce
  let ?q = "approvedRequest ''broker'' ''{}''"
  have "linkRequest demoLink ?q (CallExecuteApproved (bd_approved (le_decode demoLink) ''{}'')) = executeRequest"
    by (simp add: linkRequest_def executeRequest_def demoEnvelope_def)
  then have "snd (deliver demoLink ?q (cw_broker demoState)) = b'"
    using run by (cases resp) (simp_all add: deliver_def demoState_def)
  then have "snd (clientExecuteApproved (deliver demoLink) demoCodec ''broker'' (demoPlan ''service.start'') exampleToken ''secret'' (cw_broker demoState)) = b'"
    by (auto simp: clientExecuteApproved_def clientDo_def demoCodec_def demoEnvelope_def approvedRequest_def split: prod.split option.split)
  moreover from accepted_submits [OF demo_public_accepted] have "cw_broker w' =
      snd (clientExecuteApproved (deliver demoLink) demoCodec ''broker'' (demoPlan ''service.start'') exampleToken ''secret'' (cw_broker demoState))"
    by (auto simp: sc dest!: submit_broker(1))
  ultimately have "mutations (bw_host (cw_broker demoState)) (bw_host (cw_broker w')) \<noteq> []" using mut by (simp add: demoState_def)
  with sc that show thesis by (simp add: demo_routed)
qed

theorem public_mutation_authorised_witness:
  "\<exists>r w' envelope. serveHTTP demoPublic demoPublicEnv demoHttpRequest demoState = (r, w') \<and>
     mutations (bw_host (cw_broker demoState)) (bw_host (cw_broker w')) \<noteq> [] \<and>
     approved_by (demoServer demoExecutor) demoRequestEnv (demoBody demoEnvelope) envelope (cw_broker demoState) (cw_broker w')"
proof -
  obtain r w' where sc: "serveHTTP demoPublic demoPublicEnv demoHttpRequest demoState = (r, w')"
    and mut: "mutations (bw_host (cw_broker demoState)) (bw_host (cw_broker w')) \<noteq> []" by (rule demo_public_run)
  have "native_registry (le_host demoLink) \<lparr>nat_binary = []\<rparr> demoParse defaultPolicy (srv_registry (le_server demoLink))"
    using demo_server_native(1) [of demoExecutor] by simp
  moreover have "cs_broker demoPublic = newClient (deliver demoLink) demoCodec ''broker''" by (simp add: demoPublic_def)
  ultimately obtain bytes envelope where "approved_by (le_server demoLink) (le_request demoLink) (bd_approved (le_decode demoLink) bytes) envelope
      (cw_broker demoState) (cw_broker w')"
    using public_mutation_authorised [OF _ demo_server_native(2) sc _ mut] by blast
  then have "approved_by (demoServer demoExecutor) demoRequestEnv (demoBody demoEnvelope) envelope (cw_broker demoState) (cw_broker w')"
    by simp
  with sc mut show ?thesis by blast
qed

theorem system_run_refines_broker_witness:
  "\<exists>w' es. system_step\<^sup>*\<^sup>* demoState w' \<and> steps broker_step (cw_broker demoState) es (cw_broker w') \<and> concat (map event_mutations es) \<noteq> []"
proof -
  obtain r w' where sc: "serveHTTP demoPublic demoPublicEnv demoHttpRequest demoState = (r, w')"
    and mut: "mutations (bw_host (cw_broker demoState)) (bw_host (cw_broker w')) \<noteq> []" by (rule demo_public_run)
  have "link_ok demoLink" using demo_server_native(1) [of demoExecutor] demo_server_native(2) by (auto simp: link_ok_def)
  moreover have "cs_broker demoPublic = newClient (deliver demoLink) demoCodec ''broker''" by (simp add: demoPublic_def)
  ultimately have step: "system_step\<^sup>*\<^sup>* demoState w'" using sc by (blast intro: system_step.public r_into_rtranclp)
  have "broker_inv demoStart"
    by (simp add: broker_inv_def demoStart_def demoHost_def empty_world_inv duration_defs)
  moreover have "broker_step demoStart (BServed (presentedToken (demoServer exampleApprover) confirmRequest) []) (cw_broker demoState)"
    using broker_step.served [OF demo_server_native demo_confirm] by (simp add: demoStart_def demoState_def)
  ultimately have "broker_inv (cw_broker demoState)" using broker_ledger.inv_step by blast
  with system_run_refines_broker [OF step] step mut show ?thesis by metis
qed

definition demoPlatform :: platform where
  "demoPlatform = \<lparr>pf_host = exampleHostEnv, pf_lib = \<lparr>lib_regexp = (\<lambda>_. None), lib_quote = (\<lambda>s. s)\<rparr>, pf_parse_url = (\<lambda>_. None),
     pf_duration = (\<lambda>_. None), pf_build = (''v1'', ''c'', ''t'')\<rparr>"

definition demoFiles :: broker_files where
  "demoFiles = \<lparr>bf_token = (\<lambda>_. None), bf_policy = FileMissing, bf_grants = emptyFs, bf_actors = FileMissing\<rparr>"

theorem broker_start_establishes_witness:
  "\<exists>srv w sock'. startBroker demoPlatform demoEnviron demoFiles None demoHost \<lparr>sk_entry = StaleSocket, sk_mode = 0, sk_bound = False\<rparr> = (Inr (srv, w), sock') \<and>
     broker_inv w \<and> sk_mode sock' = 0x1B0"
proof -
  have "trimSpace defaultBrokerGrantPath \<noteq> []" by code_simp
  then obtain x where x: "loadMutationSecurity demoBroker demoFiles = Inr x"
    by (simp add: loadMutationSecurity_def loadBrokerActors_def bindE_def demoBroker_def demoFiles_def loadPolicy_def openGrantStore_def
        emptyFs_def loadStore_def duration_defs)
  have "loadBroker (pf_duration demoPlatform) demoEnviron (bf_token demoFiles) = Inr demoBroker"
    by (simp add: demo_broker_loads)
  from startBroker_succeeds [OF this x] obtain srv w sock' where
    s: "startBroker demoPlatform demoEnviron demoFiles None demoHost \<lparr>sk_entry = StaleSocket, sk_mode = 0, sk_bound = False\<rparr> = (Inr (srv, w), sock')"
    by fastforce
  have "decoded_grants (bf_grants demoFiles)" "0 < h_clock demoHost"
    by (simp_all add: decoded_grants_def demoFiles_def emptyFs_def demoHost_def duration_defs)
  from broker_start_establishes [OF s this] s show ?thesis by blast
qed

end
